(* ===== verification/Prelude.thy ===== *)
theory Prelude
  imports Main "HOL-Library.Sublist" "HOL-Library.Multiset" "HOL-Library.List_Lexorder" "HOL-Library.Char_ord"
begin

text \<open>
  The prelude of the development: names for the types every component uses, the
  collections of facts the component proofs draw on, and the lemmas on lists, options,
  sums and permutations that several components share.

  A Go \<^verbatim>\<open>string\<close> and a Go \<^verbatim>\<open>[]byte\<close> are sequences of bytes; both are \<^typ>\<open>string\<close> here, since a
  HOL character is one of 256 bytes. A Go function that returns \<^verbatim>\<open>(T, error)\<close> is a function
  into \<open>goerr + T\<close>, \<open>Inl\<close> for a non-nil error; a value that Go marks with a second \<^verbatim>\<open>ok\<close>
  result is an \<open>option\<close>.
\<close>

type_synonym gostring = string
type_synonym bytes = string

named_theorems error_simps "the error values made from sentinels and their classification"

section \<open>Options and sums\<close>

fun first_some :: "('a \<Rightarrow> 'b option) \<Rightarrow> 'a list \<Rightarrow> 'b option" where
  "first_some f [] = None"
| "first_some f (x # xs) = (case f x of Some y \<Rightarrow> Some y | None \<Rightarrow> first_some f xs)"

text \<open>Recursive calls under \<^const>\<open>first_some\<close> are made on elements of the list only.\<close>

lemma first_some_cong [fundef_cong]:
  "xs = ys \<Longrightarrow> (\<And>x. x \<in> set ys \<Longrightarrow> f x = g x) \<Longrightarrow> first_some f xs = first_some g ys"
  by (induction xs arbitrary: ys) (auto split: option.splits)

lemma first_some_None: "first_some f xs = None \<longleftrightarrow> (\<forall>x \<in> set xs. f x = None)"
  by (induction xs) (auto split: option.splits)

lemma first_some_SomeD: "first_some f xs = Some y \<Longrightarrow> \<exists>x \<in> set xs. f x = Some y"
  by (induction xs) (auto split: option.splits)

lemma first_some_append:
  "first_some f (xs @ ys) = (case first_some f xs of Some y \<Rightarrow> Some y | None \<Rightarrow> first_some f ys)"
  by (induction xs) (auto split: option.splits)

text \<open>
  When at most one element of a list answers, the order in which the list is searched
  does not matter.
\<close>

lemma first_some_unique:
  assumes "x \<in> set xs" and "f x = Some y"
    and "\<And>x'. x' \<in> set xs \<Longrightarrow> f x' \<noteq> None \<Longrightarrow> f x' = Some y"
  shows "first_some f xs = Some y"
proof -
  from assms(1,2) have "first_some f xs \<noteq> None" by (auto simp: first_some_None)
  then obtain z where z: "first_some f xs = Some z" by blast
  then obtain x' where "x' \<in> set xs" "f x' = Some z" by (blast dest: first_some_SomeD)
  with assms(3) [of x'] z show ?thesis by simp
qed

section \<open>Permutations\<close>

lemma sorted_key_perm_unique:
  fixes xs ys :: "('k::linorder \<times> 'v) list"
  assumes "mset xs = mset ys" and "distinct (map fst xs)"
  shows "sort_key fst xs = sort_key fst ys"
proof (rule map_sorted_distinct_set_unique [where f = fst])
  have eq: "set xs = set ys" using assms(1) by (rule mset_eq_setD)
  have "mset (map fst xs) = mset (map fst ys)" using assms(1) by simp
  then have d: "distinct (map fst ys)" using assms(2) by (metis mset_eq_imp_distinct_iff)
  show "inj_on fst (set (sort_key fst xs) \<union> set (sort_key fst ys))"
    using assms(2) eq by (simp add: distinct_map)
  show "distinct (map fst (sort_key fst xs))" "distinct (map fst (sort_key fst ys))"
    using assms(2) d by (simp_all add: distinct_map)
qed (use mset_eq_setD [OF assms(1)] in \<open>simp_all add: sorted_sort_key\<close>)

section \<open>Digits\<close>

lemma base_digits:
  fixes k z b :: nat
  assumes "z < b"
  shows "(k * b + z) div b = k" and "(k * b + z) mod b = z"
  using assms by simp_all

end
