(* ===== verification/GoStrings.thy ===== *)
theory GoStrings
  imports Prelude "HOL-Library.Code_Target_Numeral"
begin

text \<open>
  What the program uses of Go's \<^verbatim>\<open>strings\<close>, \<^verbatim>\<open>strconv\<close> and \<^verbatim>\<open>unicode/utf8\<close> packages, on byte
  strings. The Unicode tables behind \<^verbatim>\<open>strings.ToLower\<close>, \<^verbatim>\<open>strings.EqualFold\<close> and the
  \<^verbatim>\<open>%q\<close> verb are data of the Go release and not of this repository: they are the fields of
  the record \<open>unicode_tables\<close>, an argument of every definition that depends on them. Their
  ASCII part, which the Go functions decide without a table, is written out.
\<close>

record unicode_tables =
  toLowerRune :: "nat \<Rightarrow> nat"
  foldEqRune :: "nat \<Rightarrow> nat \<Rightarrow> bool"
  isPrintRune :: "nat \<Rightarrow> bool"

section \<open>Bytes and runes\<close>

abbreviation byte :: "char \<Rightarrow> nat" where
  "byte c \<equiv> of_char c"

abbreviation chr :: "nat \<Rightarrow> char" where
  "chr n \<equiv> char_of n"

definition isASCII :: "string \<Rightarrow> bool" where
  "isASCII s = list_all (\<lambda>c. byte c < 128) s"

definition isCont :: "char \<Rightarrow> bool" where
  "isCont c = (128 \<le> byte c \<and> byte c < 192)"

definition runeError :: nat where
  "runeError = 65533"

text \<open>\<^verbatim>\<open>utf8.DecodeRuneInString\<close>: the first rune and the number of bytes it takes.\<close>

definition decodeRune :: "string \<Rightarrow> nat \<times> nat" where
  "decodeRune s = (case s of
     [] \<Rightarrow> (runeError, 0)
   | a # r1 \<Rightarrow>
     if byte a < 128 then (byte a, 1)
     else (case r1 of
       [] \<Rightarrow> (runeError, 1)
     | b # r2 \<Rightarrow>
       if 194 \<le> byte a \<and> byte a < 224 \<and> isCont b
       then ((byte a - 192) * 64 + (byte b - 128), 2)
       else (case r2 of
         [] \<Rightarrow> (runeError, 1)
       | c # r3 \<Rightarrow>
         if 224 \<le> byte a \<and> byte a < 240 \<and> isCont b \<and> isCont c
            \<and> (byte a = 224 \<longrightarrow> 160 \<le> byte b) \<and> (byte a = 237 \<longrightarrow> byte b < 160)
         then ((byte a - 224) * 4096 + (byte b - 128) * 64 + (byte c - 128), 3)
         else (case r3 of
           [] \<Rightarrow> (runeError, 1)
         | d # _ \<Rightarrow>
           if 240 \<le> byte a \<and> byte a < 245 \<and> isCont b \<and> isCont c \<and> isCont d
              \<and> (byte a = 240 \<longrightarrow> 144 \<le> byte b) \<and> (byte a = 244 \<longrightarrow> byte b < 144)
           then ((byte a - 240) * 262144 + (byte b - 128) * 4096
                 + (byte c - 128) * 64 + (byte d - 128), 4)
           else (runeError, 1)))))"

lemma decodeRune_size_pos: "s \<noteq> [] \<Longrightarrow> 0 < snd (decodeRune s)"
  by (auto simp: decodeRune_def split: list.splits)

lemma decodeRune_ascii: "byte c < 128 \<Longrightarrow> decodeRune (c # s) = (byte c, 1)"
  by (simp add: decodeRune_def)

text \<open>\<^verbatim>\<open>utf8.AppendRune\<close>: surrogates and values beyond Unicode become U+FFFD.\<close>

definition encodeRune :: "nat \<Rightarrow> string" where
  "encodeRune r =
     (if r < 128 then [chr r]
      else if r < 2048 then [chr (192 + r div 64), chr (128 + r mod 64)]
      else if (55296 \<le> r \<and> r < 57344) \<or> 1114111 < r then [CHR 0xEF, CHR 0xBF, CHR 0xBD]
      else if r < 65536 then
        [chr (224 + r div 4096), chr (128 + r div 64 mod 64), chr (128 + r mod 64)]
      else [chr (240 + r div 262144), chr (128 + r div 4096 mod 64),
            chr (128 + r div 64 mod 64), chr (128 + r mod 64)])"

text \<open>\<^verbatim>\<open>for _, r := range s\<close>: every rune of the string, U+FFFD for each invalid byte.\<close>

function runes :: "string \<Rightarrow> nat list" where
  "runes s = (if s = [] then [] else fst (decodeRune s) # runes (drop (snd (decodeRune s)) s))"
  by pat_completeness auto
termination
proof (relation "measure length")
  fix s :: string assume "s \<noteq> []"
  then show "(drop (snd (decodeRune s)) s, s) \<in> measure length"
    using decodeRune_size_pos [of s] by simp
qed simp

declare runes.simps [simp del]

lemma runes_Nil [simp]: "runes [] = []"
  by (subst runes.simps) simp

lemma runes_ascii_Cons [simp]: "byte c < 128 \<Longrightarrow> runes (c # s) = byte c # runes s"
  by (subst runes.simps) (simp add: decodeRune_ascii)

lemma runes_ascii: "isASCII s \<Longrightarrow> runes s = map byte s"
  by (induction s) (auto simp: isASCII_def)

section \<open>Package strings\<close>

text \<open>\<^verbatim>\<open>strings.Contains(s, sub)\<close>.\<close>

fun contains :: "string \<Rightarrow> string \<Rightarrow> bool" where
  "contains [] sub = (sub = [])"
| "contains (c # s) sub = (prefix sub (c # s) \<or> contains s sub)"

text \<open>
  \<^verbatim>\<open>strings.TrimSpace\<close>. \<^verbatim>\<open>spaceSeqs\<close> lists the UTF-8 encodings of the runes for which
  \<^verbatim>\<open>unicode.IsSpace\<close> holds. Since UTF-8 is self-synchronising, a string ends in such a rune
  exactly when it ends in its encoding.
\<close>

definition spaceSeqs :: "string list" where
  "spaceSeqs =
     [[CHR 0x09], [CHR 0x0A], [CHR 0x0B], [CHR 0x0C], [CHR 0x0D], [CHR 0x20], [CHR 0xC2, CHR 0x85], [CHR 0xC2, CHR 0xA0],
      [CHR 0xE1, CHR 0x9A, CHR 0x80]]
     @ map (\<lambda>n. [CHR 0xE2, CHR 0x80, chr n]) [128, 129, 130, 131, 132, 133, 134, 135, 136, 137, 138, 168, 169, 175]
     @ [[CHR 0xE2, CHR 0x81, CHR 0x9F], [CHR 0xE3, CHR 0x80, CHR 0x80]]"

function trimSeqs :: "string list \<Rightarrow> string \<Rightarrow> string" where
  "trimSeqs ps s = (case find (\<lambda>p. p \<noteq> [] \<and> prefix p s) ps of
     None \<Rightarrow> s | Some p \<Rightarrow> trimSeqs ps (drop (length p) s))"
  by pat_completeness auto
termination
proof (relation "measure (\<lambda>(ps, s). length s)")
  fix ps and s p :: string
  assume "find (\<lambda>p. p \<noteq> [] \<and> prefix p s) ps = Some p"
  then have "p \<noteq> []" and "prefix p s" by (auto simp: find_Some_iff)
  then have "0 < length p" and "0 < length s" by (auto simp: prefix_def)
  then show "((ps, drop (length p) s), (ps, s)) \<in> measure (\<lambda>(ps, s). length s)" by simp
qed simp

declare trimSeqs.simps [simp del]

definition trimLeft :: "string \<Rightarrow> string" where
  "trimLeft s = trimSeqs spaceSeqs s"

definition trimRight :: "string \<Rightarrow> string" where
  "trimRight s = rev (trimSeqs (map rev spaceSeqs) (rev s))"

definition trimSpace :: "string \<Rightarrow> string" where
  "trimSpace s = trimRight (trimLeft s)"

definition asciiLower :: "nat \<Rightarrow> nat" where
  "asciiLower b = (if 65 \<le> b \<and> b \<le> 90 then b + 32 else b)"

text \<open>\<^verbatim>\<open>strings.ToLower\<close>: byte by byte on an ASCII string, rune by rune otherwise.\<close>

definition toLower :: "'r unicode_tables_scheme \<Rightarrow> string \<Rightarrow> string" where
  "toLower U s =
     (if isASCII s then map (\<lambda>c. chr (asciiLower (byte c))) s
      else concat (map (\<lambda>r. encodeRune (if r < 128 then asciiLower r else toLowerRune U r)) (runes s)))"

text \<open>\<^verbatim>\<open>strings.EqualFold\<close>: rune by rune, equal up to simple case folding.\<close>

definition eqFoldRune :: "'r unicode_tables_scheme \<Rightarrow> nat \<Rightarrow> nat \<Rightarrow> bool" where
  "eqFoldRune U a b =
     (a = b \<or> (if a < 128 \<and> b < 128 then asciiLower a = asciiLower b else foldEqRune U a b))"

definition equalFold :: "'r unicode_tables_scheme \<Rightarrow> string \<Rightarrow> string \<Rightarrow> bool" where
  "equalFold U s t = list_all2 (eqFoldRune U) (runes s) (runes t)"

text \<open>\<^verbatim>\<open>strings.Join\<close>.\<close>

fun join :: "string list \<Rightarrow> string \<Rightarrow> string" where
  "join [] sep = []"
| "join [x] sep = x"
| "join (x # y # zs) sep = x @ sep @ join (y # zs) sep"

section \<open>Package strconv\<close>

fun natDigits :: "nat \<Rightarrow> string" where
  "natDigits n = (if n < 10 then [chr (48 + n)] else natDigits (n div 10) @ [chr (48 + n mod 10)])"

declare natDigits.simps [simp del]

text \<open>\<^verbatim>\<open>strconv.Itoa\<close>, \<^verbatim>\<open>strconv.FormatInt(_, 10)\<close> and the \<^verbatim>\<open>%d\<close> verb.\<close>

definition itoa :: "int \<Rightarrow> string" where
  "itoa i = (if i < 0 then ''-'' @ natDigits (nat (- i)) else natDigits (nat i))"

definition isDigit :: "char \<Rightarrow> bool" where
  "isDigit c = (48 \<le> byte c \<and> byte c \<le> 57)"

definition digitsVal :: "string \<Rightarrow> nat" where
  "digitsVal s = foldl (\<lambda>n c. n * 10 + (byte c - 48)) 0 s"

text \<open>\<^verbatim>\<open>strconv.ParseInt(s, 10, 64)\<close>: \<^const>\<open>None\<close> for a syntax or a range error.\<close>

definition parseInt64 :: "string \<Rightarrow> int option" where
  "parseInt64 s =
     (let (neg, ds) = (case s of
            [] \<Rightarrow> (False, [])
          | c # cs \<Rightarrow> if c = CHR ''-'' then (True, cs) else if c = CHR ''+'' then (False, cs) else (False, s));
          v = (if neg then - int (digitsVal ds) else int (digitsVal ds))
      in if ds = [] \<or> \<not> list_all isDigit ds then None
         else if v < - (2 ^ 63) \<or> 2 ^ 63 \<le> v then None
         else Some v)"

definition hexDigit :: "nat \<Rightarrow> char" where
  "hexDigit n = chr (if n < 10 then 48 + n else 87 + n)"

text \<open>The part of \<^verbatim>\<open>strconv.Quote\<close> (the \<^verbatim>\<open>%q\<close> verb) that renders one rune of width \<open>n\<close>.\<close>

definition quoteRune :: "'r unicode_tables_scheme \<Rightarrow> nat \<Rightarrow> nat \<Rightarrow> char \<Rightarrow> string" where
  "quoteRune U r n b =
     (if n = 1 \<and> r = runeError then [CHR 0x5C, CHR ''x'', hexDigit (byte b div 16), hexDigit (byte b mod 16)]
      else if r = 34 \<or> r = 92 then [CHR 0x5C, chr r]
      else if (if r < 128 then 32 \<le> r \<and> r < 127 else isPrintRune U r) then encodeRune r
      else if r = 7 then [CHR 0x5C, CHR ''a'']
      else if r = 8 then [CHR 0x5C, CHR ''b'']
      else if r = 12 then [CHR 0x5C, CHR ''f'']
      else if r = 10 then [CHR 0x5C, CHR ''n'']
      else if r = 13 then [CHR 0x5C, CHR ''r'']
      else if r = 9 then [CHR 0x5C, CHR ''t'']
      else if r = 11 then [CHR 0x5C, CHR ''v'']
      else if r < 32 \<or> r = 127 then [CHR 0x5C, CHR ''x'', hexDigit (r div 16), hexDigit (r mod 16)]
      else if r < 65536 then [CHR 0x5C, CHR ''u''] @ map (\<lambda>k. hexDigit (r div 16 ^ k mod 16)) [3, 2, 1, 0]
      else [CHR 0x5C, CHR ''U''] @ map (\<lambda>k. hexDigit (r div 16 ^ k mod 16)) [7, 6, 5, 4, 3, 2, 1, 0])"

function quoteBody :: "'r unicode_tables_scheme \<Rightarrow> string \<Rightarrow> string" where
  "quoteBody U s = (case s of [] \<Rightarrow> []
     | b # _ \<Rightarrow> let (r, n) = decodeRune s in quoteRune U r n b @ quoteBody U (drop n s))"
  by pat_completeness auto
termination
proof (relation "measure (\<lambda>(U, s). length s)", goal_cases)
  case (2 U s b bs p r n)
  then have "n = snd (decodeRune s)" by (metis snd_conv)
  moreover have "s \<noteq> []" using 2 by simp
  ultimately show ?case using decodeRune_size_pos [of s] by simp
qed simp

declare quoteBody.simps [simp del]

definition quote :: "'r unicode_tables_scheme \<Rightarrow> string \<Rightarrow> string" where
  "quote U s = [CHR 0x22] @ quoteBody U s @ [CHR 0x22]"

end
