(* ===== verification/Json.thy ===== *)
theory Json
  imports GoStrings
begin

text \<open>
  What the program uses of Go's \<^verbatim>\<open>encoding/json\<close>: \<^verbatim>\<open>json.Unmarshal\<close> of a response body into
  an \<^verbatim>\<open>any\<close> (\<open>unmarshal\<close>) and \<^verbatim>\<open>json.Marshal\<close> of a \<^verbatim>\<open>map[string]any\<close> (\<open>marshal\<close>).

  A decoded document is a \<open>json\<close>: a \<^verbatim>\<open>map[string]any\<close> is a \<open>JObj\<close> whose fields have distinct
  keys, a number is the \<^verbatim>\<open>float64\<close> nearest to the decimal in the text. Decoding is a
  character-level scanner (\<open>lex\<close>) and a stack machine over its tokens (\<open>pstep\<close>), as in the Go
  package, with Go's limit of 10000 on the nesting depth; neither needs fuel.
\<close>

section \<open>float64\<close>

text \<open>A finite \<^verbatim>\<open>float64\<close>: \<open>F64 m e\<close> is the number \<open>m * 2 ^ e\<close>.\<close>

datatype float64 = F64 int int

fun bitLen :: "nat \<Rightarrow> nat" where
  "bitLen n = (if n = 0 then 0 else Suc (bitLen (n div 2)))"

declare bitLen.simps [simp del]

text \<open>Division rounded to the nearest integer, ties to the even one.\<close>

definition divNearest :: "nat \<Rightarrow> nat \<Rightarrow> nat" where
  "divNearest a b =
     (let q = a div b; r = a mod b
      in if 2 * r < b then q else if b < 2 * r then Suc q else if even q then q else Suc q)"

definition scaled :: "nat \<Rightarrow> nat \<Rightarrow> int \<Rightarrow> nat \<times> nat" where
  "scaled n d e = (if 0 \<le> e then (n, d * 2 ^ nat e) else (n * 2 ^ nat (- e), d))"

text \<open>
  The exponent at which \<open>n / d\<close> has a 53 bit significand, not below that of the subnormal
  numbers.
\<close>

definition floatExp :: "nat \<Rightarrow> nat \<Rightarrow> int" where
  "floatExp n d =
     (let e = int (bitLen n) - int (bitLen d) - 53;
          (a, b) = scaled n d e
      in max (-1074) (if 2 ^ 53 * b \<le> a then e + 1 else e))"

text \<open>\<^verbatim>\<open>strconv.ParseFloat\<close>'s rounding of \<open>n / d\<close>; \<^const>\<open>None\<close> when it is out of range.\<close>

definition roundFloat :: "bool \<Rightarrow> nat \<Rightarrow> nat \<Rightarrow> float64 option" where
  "roundFloat neg n d =
     (if n = 0 then Some (F64 0 0)
      else let e = floatExp n d; (a, b) = scaled n d e; m = divNearest a b
           in if 971 < e \<or> (e = 971 \<and> 2 ^ 53 \<le> m) then None
              else Some (F64 (if neg then - int m else int m) e))"

text \<open>The value of a float64 that is an integer.\<close>

fun floatInt :: "float64 \<Rightarrow> int option" where
  "floatInt (F64 m e) =
     (if 0 \<le> e then Some (m * 2 ^ nat e)
      else if m mod 2 ^ nat (- e) = 0 then Some (m div 2 ^ nat (- e)) else None)"

section \<open>Documents\<close>

datatype json =
    JNull
  | JBool bool
  | JNum float64
  | JStr string
  | JArr "json list"
  | JObj "(string \<times> json) list"

type_synonym fields = "(string \<times> json) list"

text \<open>
  The Go runtime as the program sees it: the Unicode tables; the rendering of a float64 that
  is no int64 (\<^verbatim>\<open>strconv.FormatFloat(f, 'f', -1, 64)\<close>); the conversion of a float64 outside
  the range of int64 to int64, which the language leaves to the implementation; the text of
  the error \<^verbatim>\<open>json.Unmarshal\<close> reports for an input; and the order in which the \<open>n\<close>-th
  \<^verbatim>\<open>range\<close> over a map visits its entries, which the language leaves unspecified.
\<close>

record go_runtime = unicode_tables +
  formatFloat :: "float64 \<Rightarrow> string"
  float64ToInt64 :: "float64 \<Rightarrow> int"
  jsonErrorText :: "string \<Rightarrow> string"
  rangeOrder :: "nat \<Rightarrow> fields \<Rightarrow> fields"

text \<open>All the language says about \<^verbatim>\<open>range\<close> over a map: every entry is visited once.\<close>

definition range_visits_all :: "(nat \<Rightarrow> fields \<Rightarrow> fields) \<Rightarrow> bool" where
  "range_visits_all ord \<longleftrightarrow> (\<forall>n fs. mset (ord n fs) = mset fs)"

text \<open>
  A concrete runtime, for evaluating the model: no case mapping outside ASCII, map entries
  visited in the order they are stored, the conversion of amd64 for large floats.
\<close>

definition ascii_runtime :: go_runtime where
  "ascii_runtime = \<lparr>toLowerRune = (\<lambda>r. r), foldEqRune = (\<lambda>a b. False), isPrintRune = (\<lambda>r. False),
     formatFloat = (\<lambda>f. ''0.5''), float64ToInt64 = (\<lambda>f. - (2 ^ 63)),
     jsonErrorText = (\<lambda>b. ''invalid character''), rangeOrder = (\<lambda>n fs. fs)\<rparr>"

fun json_ok :: "json \<Rightarrow> bool" where
  "json_ok (JArr xs) = list_all json_ok xs"
| "json_ok (JObj fs) = (distinct (map fst fs) \<and> list_all (\<lambda>p. json_ok (snd p)) fs)"
| "json_ok _ = True"

text \<open>Assignment \<^verbatim>\<open>m[k] = v\<close>.\<close>

fun setField :: "'a \<Rightarrow> 'b \<Rightarrow> ('a \<times> 'b) list \<Rightarrow> ('a \<times> 'b) list" where
  "setField k v [] = [(k, v)]"
| "setField k v ((k', v') # fs) = (if k' = k then (k, v) # fs else (k', v') # setField k v fs)"

section \<open>Scanning\<close>

datatype token =
    TLBrace | TRBrace | TLBrack | TRBrack | TColon | TComma
  | TStr string | TNum float64 | TBool bool | TNull

definition isJsonSpace :: "char \<Rightarrow> bool" where
  "isJsonSpace c = (c = CHR '' '' \<or> c = CHR 0x09 \<or> c = CHR 0x0A \<or> c = CHR 0x0D)"

definition punct :: "char \<Rightarrow> token option" where
  "punct c =
     (if c = CHR ''{'' then Some TLBrace else if c = CHR ''}'' then Some TRBrace
      else if c = CHR ''['' then Some TLBrack else if c = CHR '']'' then Some TRBrack
      else if c = CHR '':'' then Some TColon else if c = CHR '','' then Some TComma else None)"

definition isWordChar :: "char \<Rightarrow> bool" where
  "isWordChar c = (isDigit c \<or> c = CHR ''+'' \<or> c = CHR ''-'' \<or> c = CHR ''.''
     \<or> (65 \<le> byte c \<and> byte c \<le> 90) \<or> (97 \<le> byte c \<and> byte c \<le> 122))"

text \<open>The number grammar: an optional minus, an integer part, a fraction, an exponent.\<close>

definition parseExp :: "string \<Rightarrow> int option" where
  "parseExp s = (case s of
     [] \<Rightarrow> Some 0
   | c # r \<Rightarrow>
     if c = CHR ''e'' \<or> c = CHR ''E'' then
       (let (neg, ds) = (case r of
              [] \<Rightarrow> (False, [])
            | x # xs \<Rightarrow> if x = CHR ''-'' then (True, xs) else if x = CHR ''+'' then (False, xs) else (False, r))
        in if ds = [] \<or> \<not> list_all isDigit ds then None
           else Some (if neg then - int (digitsVal ds) else int (digitsVal ds)))
     else None)"

definition parseNumber :: "string \<Rightarrow> float64 option" where
  "parseNumber s =
     (let (neg, s1) = (case s of [] \<Rightarrow> (False, []) | c # r \<Rightarrow> if c = CHR ''-'' then (True, r) else (False, s));
          ip = takeWhile isDigit s1; s2 = dropWhile isDigit s1;
          (dot, s3) = (case s2 of [] \<Rightarrow> (False, []) | c # r \<Rightarrow> if c = CHR ''.'' then (True, r) else (False, s2));
          fp = (if dot then takeWhile isDigit s3 else []);
          s4 = (if dot then dropWhile isDigit s3 else s3)
      in if ip = [] \<or> (1 < length ip \<and> hd ip = CHR ''0'') \<or> (dot \<and> fp = []) then None
         else (case parseExp s4 of
           None \<Rightarrow> None
         | Some x \<Rightarrow>
           let k = x - int (length fp); n = digitsVal (ip @ fp)
           in if 0 \<le> k then roundFloat neg (n * 10 ^ nat k) 1 else roundFloat neg n (10 ^ nat (- k))))"

definition wordToken :: "string \<Rightarrow> token option" where
  "wordToken w =
     (if w = ''true'' then Some (TBool True) else if w = ''false'' then Some (TBool False)
      else if w = ''null'' then Some TNull else map_option TNum (parseNumber w))"

definition hexVal :: "char \<Rightarrow> nat option" where
  "hexVal c =
     (if isDigit c then Some (byte c - 48)
      else if 97 \<le> byte c \<and> byte c \<le> 102 then Some (byte c - 87)
      else if 65 \<le> byte c \<and> byte c \<le> 70 then Some (byte c - 55) else None)"

text \<open>\<^verbatim>\<open>getu4\<close>: the value of an escape \<^verbatim>\<open>\uXXXX\<close> at the head of the string.\<close>

definition getu4 :: "string \<Rightarrow> nat option" where
  "getu4 s = (case s of
     x # u # a # b # c # d # _ \<Rightarrow>
       if x = CHR 0x5C \<and> u = CHR ''u'' then
         (case (hexVal a, hexVal b, hexVal c, hexVal d) of
            (Some p, Some q, Some r, Some t) \<Rightarrow> Some (p * 4096 + q * 256 + r * 16 + t)
          | _ \<Rightarrow> None)
       else None
   | _ \<Rightarrow> None)"

definition simpleEscape :: "char \<Rightarrow> char option" where
  "simpleEscape c =
     (if c = CHR 0x22 \<or> c = CHR 0x5C \<or> c = CHR ''/'' then Some c
      else if c = CHR ''b'' then Some (CHR 0x08) else if c = CHR ''f'' then Some (CHR 0x0C)
      else if c = CHR ''n'' then Some (CHR 0x0A) else if c = CHR ''r'' then Some (CHR 0x0D)
      else if c = CHR ''t'' then Some (CHR 0x09) else None)"

text \<open>
  \<^verbatim>\<open>unquoteBytes\<close>: the value of the text between the quotes. A surrogate pair is one rune,
  an unpaired surrogate and an invalid byte become U+FFFD.
\<close>

function (sequential) unquote :: "string \<Rightarrow> string option" where
  "unquote [] = Some []"
| "unquote (c # cs) =
     (if c = CHR 0x5C then
        (case getu4 (c # cs) of
           Some r \<Rightarrow>
             (if 55296 \<le> r \<and> r < 56320 then
                (case getu4 (drop 5 cs) of
                   Some r2 \<Rightarrow>
                     if 56320 \<le> r2 \<and> r2 < 57344
                     then map_option ((@) (encodeRune ((r - 55296) * 1024 + (r2 - 56320) + 65536)))
                            (unquote (drop 11 cs))
                     else map_option ((@) (encodeRune runeError)) (unquote (drop 5 cs))
                 | None \<Rightarrow> map_option ((@) (encodeRune runeError)) (unquote (drop 5 cs)))
              else map_option ((@) (encodeRune r)) (unquote (drop 5 cs)))
         | None \<Rightarrow>
             (case cs of
                [] \<Rightarrow> None
              | e # es \<Rightarrow> (case simpleEscape e of
                  None \<Rightarrow> None
                | Some x \<Rightarrow> map_option ((#) x) (unquote es))))
      else if byte c < 128 then map_option ((#) c) (unquote cs)
      else map_option ((@) (encodeRune (fst (decodeRune (c # cs)))))
             (unquote (drop (snd (decodeRune (c # cs)) - 1) cs)))"
  by pat_completeness auto
termination
  by (relation "measure length") auto

datatype lexState = LTop | LStr string bool | LWord string

text \<open>
  The scanner. \<open>LStr acc esc\<close> is inside a string literal (\<open>acc\<close> reversed, \<open>esc\<close> after a
  backslash), \<open>LWord acc\<close> inside a number or a literal name.
\<close>

function (sequential) lex :: "lexState \<Rightarrow> string \<Rightarrow> token list option" where
  "lex LTop [] = Some []"
| "lex LTop (c # cs) =
     (if isJsonSpace c then lex LTop cs
      else case punct c of
        Some t \<Rightarrow> map_option ((#) t) (lex LTop cs)
      | None \<Rightarrow>
        if c = CHR 0x22 then lex (LStr [] False) cs
        else if isWordChar c then lex (LWord [c]) cs else None)"
| "lex (LStr acc esc) [] = None"
| "lex (LStr acc esc) (c # cs) =
     (if byte c < 32 then None
      else if esc then lex (LStr (c # acc) False) cs
      else if c = CHR 0x22 then
        (case unquote (rev acc) of
           None \<Rightarrow> None
         | Some s \<Rightarrow> map_option ((#) (TStr s)) (lex LTop cs))
      else lex (LStr (c # acc) (c = CHR 0x5C)) cs)"
| "lex (LWord acc) [] = map_option (\<lambda>t. [t]) (wordToken (rev acc))"
| "lex (LWord acc) (c # cs) =
     (if isWordChar c then lex (LWord (c # acc)) cs
      else case wordToken (rev acc) of
        None \<Rightarrow> None
      | Some t \<Rightarrow> map_option ((#) t) (lex LTop (c # cs)))"
  by pat_completeness auto
termination
  by (relation "measure (\<lambda>(st, s). 2 * length s + (case st of LTop \<Rightarrow> 0 | _ \<Rightarrow> 1))") auto

section \<open>Parsing\<close>

text \<open>
  The stack machine. A frame is an array under construction (elements reversed), an object
  between two entries, or an object whose key has been read.
\<close>

datatype frame = FArr "json list" | FObj fields | FKey fields string

datatype pmode = MValue | MArrFirst | MObjFirst | MKey | MColon | MEnd

datatype pstate = PRun pmode "frame list" | PDone json

definition maxNestingDepth :: nat where
  "maxNestingDepth = 10000"

fun pvalue :: "json \<Rightarrow> frame list \<Rightarrow> pstate option" where
  "pvalue v [] = Some (PDone v)"
| "pvalue v (FArr xs # st) = Some (PRun MEnd (FArr (v # xs) # st))"
| "pvalue v (FKey fs k # st) = Some (PRun MEnd (FObj (setField k v fs) # st))"
| "pvalue v (FObj fs # st) = None"

definition pushFrame :: "frame \<Rightarrow> pmode \<Rightarrow> frame list \<Rightarrow> pstate option" where
  "pushFrame f m st = (if length st < maxNestingDepth then Some (PRun m (f # st)) else None)"

fun pbegin :: "token \<Rightarrow> frame list \<Rightarrow> pstate option" where
  "pbegin TLBrace st = pushFrame (FObj []) MObjFirst st"
| "pbegin TLBrack st = pushFrame (FArr []) MArrFirst st"
| "pbegin (TStr s) st = pvalue (JStr s) st"
| "pbegin (TNum f) st = pvalue (JNum f) st"
| "pbegin (TBool b) st = pvalue (JBool b) st"
| "pbegin TNull st = pvalue JNull st"
| "pbegin _ st = None"

fun pkey :: "token \<Rightarrow> frame list \<Rightarrow> pstate option" where
  "pkey (TStr k) (FObj fs # st) = Some (PRun MColon (FKey fs k # st))"
| "pkey _ _ = None"

fun pclose :: "token \<Rightarrow> frame list \<Rightarrow> pstate option" where
  "pclose TRBrack (FArr xs # st) = pvalue (JArr (rev xs)) st"
| "pclose TRBrace (FObj fs # st) = pvalue (JObj fs) st"
| "pclose _ _ = None"

fun pnext :: "token \<Rightarrow> frame list \<Rightarrow> pstate option" where
  "pnext TComma (FArr xs # st) = Some (PRun MValue (FArr xs # st))"
| "pnext TComma (FObj fs # st) = Some (PRun MKey (FObj fs # st))"
| "pnext t st = pclose t st"

fun pstep :: "token \<Rightarrow> pstate \<Rightarrow> pstate option" where
  "pstep t (PRun MValue st) = pbegin t st"
| "pstep t (PRun MArrFirst st) = (if t = TRBrack then pclose t st else pbegin t st)"
| "pstep t (PRun MObjFirst st) = (if t = TRBrace then pclose t st else pkey t st)"
| "pstep t (PRun MKey st) = pkey t st"
| "pstep t (PRun MColon st) = (if t = TColon then Some (PRun MValue st) else None)"
| "pstep t (PRun MEnd st) = pnext t st"
| "pstep t (PDone v) = None"

fun prun :: "token list \<Rightarrow> pstate \<Rightarrow> pstate option" where
  "prun [] s = Some s"
| "prun (t # ts) s = (case pstep t s of None \<Rightarrow> None | Some s' \<Rightarrow> prun ts s')"

definition parseTokens :: "token list \<Rightarrow> json option" where
  "parseTokens ts = (case prun ts (PRun MValue []) of Some (PDone v) \<Rightarrow> Some v | _ \<Rightarrow> None)"

text \<open>\<^verbatim>\<open>json.Unmarshal(body, &doc)\<close> for \<^verbatim>\<open>doc any\<close>; \<^const>\<open>None\<close> when it returns an error.\<close>

definition unmarshal :: "string \<Rightarrow> json option" where
  "unmarshal body = Option.bind (lex LTop body) parseTokens"

section \<open>Encoding\<close>

text \<open>The values the program hands to \<^verbatim>\<open>json.Marshal\<close>.\<close>

datatype goany =
    AStr string
  | ABool bool
  | AInt int
  | AMap "(string \<times> goany) list"

definition escapeChar :: "char \<Rightarrow> string" where
  "escapeChar c =
     (if c = CHR 0x22 \<or> c = CHR 0x5C then [CHR 0x5C, c]
      else if c = CHR 0x08 then [CHR 0x5C, CHR ''b''] else if c = CHR 0x0C then [CHR 0x5C, CHR ''f'']
      else if c = CHR 0x0A then [CHR 0x5C, CHR ''n''] else if c = CHR 0x0D then [CHR 0x5C, CHR ''r'']
      else if c = CHR 0x09 then [CHR 0x5C, CHR ''t'']
      else if byte c < 32 \<or> c = CHR ''<'' \<or> c = CHR ''>'' \<or> c = CHR ''&'' then
        [CHR 0x5C, CHR ''u'', CHR ''0'', CHR ''0'', hexDigit (byte c div 16), hexDigit (byte c mod 16)]
      else [c])"

function (sequential) escapeBody :: "string \<Rightarrow> string" where
  "escapeBody [] = []"
| "escapeBody (c # cs) =
     (if byte c < 128 then escapeChar c @ escapeBody cs
      else let (r, n) = decodeRune (c # cs)
           in (if r = runeError \<and> n = 1 then [CHR 0x5C, CHR ''u'', CHR ''f'', CHR ''f'', CHR ''f'', CHR ''d'']
               else if r = 8232 \<or> r = 8233 then
                 [CHR 0x5C, CHR ''u'', CHR ''2'', CHR ''0'', CHR ''2'', hexDigit (r mod 16)]
               else take n (c # cs)) @ escapeBody (drop (n - 1) cs))"
  by pat_completeness auto
termination
  by (relation "measure length") auto

definition marshalString :: "string \<Rightarrow> string" where
  "marshalString s = [CHR 0x22] @ escapeBody s @ [CHR 0x22]"

fun marshal :: "goany \<Rightarrow> string" where
  "marshal (AStr s) = marshalString s"
| "marshal (ABool b) = (if b then ''true'' else ''false'')"
| "marshal (AInt i) = itoa i"
| "marshal (AMap m) =
     ''{'' @ join (map (\<lambda>(k, s). marshalString k @ '':'' @ s) (sort_key fst (map (\<lambda>(k, v). (k, marshal v)) m))) '','' @ ''}''"

section \<open>Decimal integers\<close>

lemma natDigits_digits: "list_all isDigit (natDigits n)"
proof (induction n rule: natDigits.induct)
  case (1 n)
  then show ?case
    by (cases "n < 10") (simp_all add: natDigits.simps [of n] isDigit_def)
qed

lemma natDigits_nonempty [simp]: "natDigits n \<noteq> []"
  by (subst natDigits.simps) simp

lemma digitsVal_snoc: "digitsVal (s @ [c]) = digitsVal s * 10 + (byte c - 48)"
  by (simp add: digitsVal_def)

lemma digitsVal_natDigits [simp]: "digitsVal (natDigits n) = n"
proof (induction n rule: natDigits.induct)
  case (1 n)
  show ?case
  proof (cases "n < 10")
    case True
    then show ?thesis by (simp add: natDigits.simps [of n] digitsVal_def)
  next
    case False
    with 1 show ?thesis by (simp add: natDigits.simps [of n] digitsVal_snoc)
  qed
qed

lemma hd_natDigits: "0 < n \<Longrightarrow> hd (natDigits n) \<noteq> CHR ''0''"
proof (induction n rule: natDigits.induct)
  case (1 n)
  show ?case
  proof (cases "n < 10")
    case True
    with 1(2) have "byte (chr (48 + n)) \<noteq> byte CHR ''0''" by (simp add: take_bit_eq_mod)
    then have "chr (48 + n) \<noteq> CHR ''0''" by metis
    then show ?thesis using True by (simp add: natDigits.simps [of n])
  next
    case False
    with 1(1) show ?thesis by (simp add: natDigits.simps [of n] hd_append)
  qed
qed

lemma natDigits_leading: "\<not> (1 < length (natDigits n) \<and> hd (natDigits n) = CHR ''0'')"
  using hd_natDigits [of n] by (cases "n = 0") (simp_all add: natDigits.simps [of 0])

lemma takeWhile_digits: "list_all isDigit s \<Longrightarrow> takeWhile isDigit s = s \<and> dropWhile isDigit s = []"
  by (induction s) auto

lemma natDigits_no_sign:
  "(case natDigits n of [] \<Rightarrow> (False, [])
    | c # r \<Rightarrow> if c = CHR ''-'' then (True, r) else (False, natDigits n)) = (False, natDigits n)"
proof -
  obtain c cs where c: "natDigits n = c # cs" by (cases "natDigits n") auto
  with natDigits_digits [of n] have "isDigit c" by simp
  then have "c \<noteq> CHR ''-''" by (auto simp: isDigit_def)
  then show ?thesis by (simp add: c)
qed

lemma parseNumber_itoa: "parseNumber (itoa i) = roundFloat (i < 0) (nat \<bar>i\<bar>) 1"
proof -
  have d: "takeWhile isDigit (natDigits n) = natDigits n" "dropWhile isDigit (natDigits n) = []" for n
    using takeWhile_digits [OF natDigits_digits] by auto
  show ?thesis
  proof (cases "i < 0")
    case True
    then show ?thesis using natDigits_leading [of "nat (- i)"]
      by (auto simp: parseNumber_def itoa_def d parseExp_def Let_def)
  next
    case False
    then show ?thesis using natDigits_leading [of "nat i"]
      by (auto simp: parseNumber_def itoa_def natDigits_no_sign d parseExp_def Let_def)
  qed
qed

section \<open>Integers as float64\<close>

lemma bitLen_one [simp]: "bitLen (Suc 0) = 1"
  by (subst bitLen.simps) (simp add: bitLen.simps [of 0])

lemma bitLen_bounds: "0 < n \<Longrightarrow> 0 < bitLen n \<and> 2 ^ (bitLen n - 1) \<le> n \<and> n < 2 ^ bitLen n"
proof (induction n rule: bitLen.induct)
  case (1 n)
  show ?case
  proof (cases "n = 1")
    case True
    then show ?thesis by simp
  next
    case False
    with 1 have ih: "0 < bitLen (n div 2)" "2 ^ (bitLen (n div 2) - 1) \<le> n div 2" "n div 2 < 2 ^ bitLen (n div 2)"
      by simp_all
    obtain b where b: "bitLen (n div 2) = Suc b" using ih(1) gr0_implies_Suc by blast
    from 1(2) have "bitLen n = Suc (Suc b)" by (simp add: bitLen.simps [of n] b)
    moreover have "2 * 2 ^ b \<le> n" "n < 2 * (2 * 2 ^ b)" using ih(2,3) by (simp_all add: b)
    ultimately show ?thesis by simp
  qed
qed

lemma divNearest_exact: "0 < b \<Longrightarrow> divNearest (q * b) b = q"
  by (simp add: divNearest_def)

text \<open>An integer of at most 53 bits is a float64: the rounding loses nothing.\<close>

lemma roundFloat_int:
  assumes "n < 2 ^ 53"
  obtains f where "roundFloat neg n 1 = Some f" and "floatInt f = Some (if neg then - int n else int n)"
proof (cases "n = 0")
  case True
  then show ?thesis using that [of "F64 0 0"] by (simp add: roundFloat_def)
next
  case False
  then have b: "0 < bitLen n" "2 ^ (bitLen n - 1) \<le> n" "n < 2 ^ bitLen n"
    using bitLen_bounds [of n] by auto
  have le: "bitLen n \<le> 53"
  proof (rule ccontr)
    assume "\<not> bitLen n \<le> 53"
    then have "(2::nat) ^ 53 \<le> 2 ^ (bitLen n - 1)" by (intro power_increasing) auto
    with b(2) assms show False by linarith
  qed
  define k where "k = 53 - bitLen n"
  have k: "int (bitLen n) - 1 - 53 = - int (Suc k)" using le by (simp add: k_def)
  have split: "(2::nat) ^ 53 = 2 ^ (bitLen n - 1) * 2 ^ Suc k"
    using le b(1) by (simp flip: power_add add: k_def)
  have "2 ^ 53 \<le> n * 2 ^ Suc k" unfolding split using b(2) by (intro mult_right_mono) auto
  moreover have "scaled n (Suc 0) (- int (Suc k)) = (n * 2 ^ Suc k, Suc 0)" by (simp add: scaled_def nat_add_distrib)
  ultimately have e: "floatExp n (Suc 0) = - int k"
    using k_def by (simp add: floatExp_def k del: power_Suc)
  have "roundFloat neg n 1 = Some (F64 (if neg then - int (n * 2 ^ k) else int (n * 2 ^ k)) (- int k))"
    using False divNearest_exact [of 1 "n * 2 ^ k"] divNearest_exact [of 1 n]
    by (simp add: roundFloat_def e scaled_def Let_def)
  moreover have "floatInt (F64 (if neg then - int (n * 2 ^ k) else int (n * 2 ^ k)) (- int k))
      = Some (if neg then - int n else int n)"
    by (auto simp flip: mult_minus_left)
  ultimately show ?thesis using that by blast
qed

section \<open>Strings: what is escaped is read back\<close>

text \<open>A Go string that is valid UTF-8.\<close>

function validUTF8 :: "string \<Rightarrow> bool" where
  "validUTF8 s =
     (if s = [] then True
      else if decodeRune s = (runeError, 1) then False
      else validUTF8 (drop (snd (decodeRune s)) s))"
  by pat_completeness auto
termination
proof (relation "measure length")
  fix s :: string assume "s \<noteq> []" and "decodeRune s \<noteq> (runeError, 1)"
  then show "(drop (snd (decodeRune s)) s, s) \<in> measure length"
    using decodeRune_size_pos [of s] by simp
qed simp

declare validUTF8.simps [simp del]

lemma validUTF8_ascii: "isASCII s \<Longrightarrow> validUTF8 s"
proof (induction s)
  case Nil
  then show ?case by (subst validUTF8.simps) simp
next
  case (Cons c s)
  then show ?case
    by (subst validUTF8.simps) (simp add: isASCII_def decodeRune_ascii runeError_def)
qed

text \<open>The bytes of one valid rune determine it, and are what the rune is encoded as.\<close>

lemma rune_bytes2:
  assumes "194 \<le> byte a" "byte a < 224" "isCont b"
  shows "encodeRune ((byte a - 192) * 64 + (byte b - 128)) = [a, b]"
proof -
  define x y where "x = byte a - 192" and "y = byte b - 128"
  have "y < 64" "2 \<le> x" "x < 32" "192 + x = byte a" "128 + y = byte b"
    using assms by (auto simp: x_def y_def isCont_def)
  then show ?thesis by (simp add: encodeRune_def flip: x_def y_def)
qed

lemma rune_bytes3:
  assumes "224 \<le> byte a" "byte a < 240" "isCont b" "isCont c"
    and "byte a = 224 \<longrightarrow> 160 \<le> byte b" and "byte a = 237 \<longrightarrow> byte b < 160"
  shows "encodeRune ((byte a - 224) * 4096 + (byte b - 128) * 64 + (byte c - 128)) = [a, b, c]"
proof -
  define x y z where "x = byte a - 224" and "y = byte b - 128" and "z = byte c - 128"
  have r: "y < 64" "z < 64" "x < 16" "224 + x = byte a" "128 + y = byte b" "128 + z = byte c"
    "x = 0 \<longrightarrow> 32 \<le> y" "x = 13 \<longrightarrow> y < 32"
    using assms by (auto simp: x_def y_def z_def isCont_def)
  define r' where "r' = x * 4096 + y * 64 + z"
  have e: "r' = (x * 64 + y) * 64 + z" by (simp add: r'_def)
  have q: "r' div 64 = x * 64 + y" "r' mod 64 = z" unfolding e by (rule base_digits [OF r(2)])+
  have q2: "r' div 4096 = x" "(x * 64 + y) mod 64 = y"
    using div_mult2_eq [of r' 64 64] r(1) by (simp_all add: q)
  have "\<not> r' < 2048" using r(7) by (cases "x = 0") (simp_all add: r'_def)
  moreover have "r' < 65536" using r(1-3) by (simp add: r'_def)
  moreover consider "x \<le> 12" | "x = 13" | "14 \<le> x" by linarith
  then have "\<not> (55296 \<le> r' \<and> r' < 57344)" using r(1-3,8) by cases (simp_all add: r'_def)
  ultimately have "encodeRune r' = [a, b, c]" using r by (auto simp: encodeRune_def q q2)
  then show ?thesis by (simp add: r'_def x_def y_def z_def)
qed

lemma rune_bytes4:
  assumes "240 \<le> byte a" "byte a < 245" "isCont b" "isCont c" "isCont d"
    and "byte a = 240 \<longrightarrow> 144 \<le> byte b" and "byte a = 244 \<longrightarrow> byte b < 144"
  shows "encodeRune ((byte a - 240) * 262144 + (byte b - 128) * 4096 + (byte c - 128) * 64 + (byte d - 128))
     = [a, b, c, d]"
proof -
  define w x y z where "w = byte a - 240" and "x = byte b - 128" and "y = byte c - 128" and "z = byte d - 128"
  have r: "x < 64" "y < 64" "z < 64" "w < 5" "240 + w = byte a" "128 + x = byte b" "128 + y = byte c"
    "128 + z = byte d" "w = 0 \<longrightarrow> 16 \<le> x" "w = 4 \<longrightarrow> x < 16"
    using assms by (auto simp: w_def x_def y_def z_def isCont_def)
  define r' where "r' = w * 262144 + x * 4096 + y * 64 + z"
  have e: "r' = (w * 4096 + x * 64 + y) * 64 + z" by (simp add: r'_def)
  have e2: "w * 4096 + x * 64 + y = (w * 64 + x) * 64 + y" by simp
  have q: "r' div 64 = w * 4096 + x * 64 + y" "r' mod 64 = z" unfolding e by (rule base_digits [OF r(3)])+
  have m: "(w * 4096 + x * 64 + y) div 64 = w * 64 + x" "(w * 4096 + x * 64 + y) mod 64 = y"
    unfolding e2 by (rule base_digits [OF r(2)])+
  have m': "(w * 64 + x) div 64 = w" "(w * 64 + x) mod 64 = x" by (rule base_digits [OF r(1)])+
  have d: "r' div 4096 = w * 64 + x" "r' div 262144 = w"
    using div_mult2_eq [of r' 64 64] div_mult2_eq [of r' 4096 64] by (simp_all add: q m m')
  have "65536 \<le> r'" using r(9) by (cases "w = 0") (simp_all add: r'_def)
  moreover have "r' \<le> 1114111" using r(1-4,10) by (cases "w = 4") (simp_all add: r'_def)
  ultimately have "encodeRune r' = [a, b, c, d]" using r by (simp add: encodeRune_def q m m' d)
  then show ?thesis by (simp add: r'_def w_def x_def y_def z_def)
qed

lemma decodeRune_chunk:
  assumes "decodeRune s = (r, n)" and "(r, n) \<noteq> (runeError, 1)" and "s \<noteq> []"
  shows "n \<le> length s \<and> encodeRune r = take n s \<and> decodeRune (take n s @ t) = (r, n)"
proof -
  obtain a s1 where s: "s = a # s1" using assms(3) by (cases s) auto
  show ?thesis
  proof (cases "byte a < 128")
    case True
    with assms(1) show ?thesis by (auto simp: s decodeRune_def encodeRune_def)
  next
    case big: False
    obtain b s2 where s1: "s1 = b # s2" using assms(1,2) big by (cases s1) (auto simp: s decodeRune_def)
    show ?thesis
    proof (cases "194 \<le> byte a \<and> byte a < 224 \<and> isCont b")
      case True
      with assms(1) big show ?thesis by (auto simp: s s1 decodeRune_def rune_bytes2)
    next
      case not2: False
      obtain c s3 where s2: "s2 = c # s3" using assms(1,2) big not2 by (cases s2) (auto simp: s s1 decodeRune_def)
      show ?thesis
      proof (cases "224 \<le> byte a \<and> byte a < 240 \<and> isCont b \<and> isCont c
            \<and> (byte a = 224 \<longrightarrow> 160 \<le> byte b) \<and> (byte a = 237 \<longrightarrow> byte b < 160)")
        case True
        with assms(1) big not2 show ?thesis
          by (simp add: s s1 s2 decodeRune_def numeral_3_eq_3) (auto simp: rune_bytes3)
      next
        case not3: False
        obtain d s4 where s3: "s3 = d # s4"
          using assms(1,2) big not2 not3 by (cases s3) (auto simp: s s1 s2 decodeRune_def split: if_splits)
        show ?thesis
        proof (cases "240 \<le> byte a \<and> byte a < 245 \<and> isCont b \<and> isCont c \<and> isCont d
              \<and> (byte a = 240 \<longrightarrow> 144 \<le> byte b) \<and> (byte a = 244 \<longrightarrow> byte b < 144)")
          case True
          with assms(1) big not2 not3 show ?thesis
            by (simp add: s s1 s2 s3 decodeRune_def) (auto simp: rune_bytes4)
        next
          case False
          then have "decodeRune s = (runeError, 1)"
            using big not2 not3 by (simp add: s s1 s2 s3 decodeRune_def)
          with assms(1,2) show ?thesis by simp
        qed
      qed
    qed
  qed
qed

lemma validUTF8_step:
  assumes "validUTF8 (c # cs)" and "\<not> byte c < 128" and "decodeRune (c # cs) = (r, n)"
  shows "(r, n) \<noteq> (runeError, 1)" and "validUTF8 (drop (n - 1) cs)"
proof -
  from assms(1,3) show "(r, n) \<noteq> (runeError, 1)"
    by (subst (asm) validUTF8.simps) (auto split: if_splits)
  from assms(1,3) have "validUTF8 (drop n (c # cs))"
    by (subst (asm) validUTF8.simps) (auto split: if_splits)
  moreover have "0 < n" using decodeRune_size_pos [of "c # cs"] assms(3) by simp
  ultimately show "validUTF8 (drop (n - 1) cs)" by (cases n) auto
qed

lemma hexVal_hexDigit [simp]: "h < 16 \<Longrightarrow> hexVal (hexDigit h) = Some h"
  by (auto simp: hexVal_def hexDigit_def isDigit_def take_bit_eq_mod)

lemma append_single: "(@) [c] = (#) c"
  by (simp add: fun_eq_iff)

lemma unquote_u4:
  assumes "getu4 (CHR 0x5C # CHR ''u'' # a # b # c # d # t) = Some r" and "\<not> (55296 \<le> r \<and> r < 56320)"
  shows "unquote (CHR 0x5C # CHR ''u'' # a # b # c # d # t) = map_option ((@) (encodeRune r)) (unquote t)"
  using assms by auto

declare unquote.simps(2) [simp del]

lemma unquote_plain:
  "c \<noteq> CHR 0x5C \<Longrightarrow> byte c < 128 \<Longrightarrow> unquote (c # t) = map_option ((#) c) (unquote t)"
  by (simp add: unquote.simps(2))

lemma unquote_simple:
  "e \<noteq> CHR ''u'' \<Longrightarrow> simpleEscape e = Some x \<Longrightarrow> unquote (CHR 0x5C # e # t) = map_option ((#) x) (unquote t)"
  by (simp add: unquote.simps(2) getu4_def split: list.splits)

lemma unquote_escapeChar:
  assumes "byte c < 128"
  shows "unquote (escapeChar c @ t) = map_option ((#) c) (unquote t)"
proof -
  have u: "unquote ([CHR 0x5C, CHR ''u'', CHR ''0'', CHR ''0'', hexDigit (byte c div 16), hexDigit (byte c mod 16)] @ t)
      = map_option ((#) c) (unquote t)"
  proof -
    have "hexVal CHR ''0'' = Some 0" by (simp add: hexVal_def isDigit_def)
    then have "getu4 (CHR 0x5C # CHR ''u'' # CHR ''0'' # CHR ''0'' # hexDigit (byte c div 16)
        # hexDigit (byte c mod 16) # t) = Some (byte c)"
      using assms by (simp add: getu4_def)
    then show ?thesis using assms unquote_u4 [where r = "byte c"] by (simp add: encodeRune_def append_single)
  qed
  have e: "unquote ([CHR 0x5C, e] @ t) = map_option ((#) x) (unquote t)"
    if "e \<noteq> CHR ''u''" "simpleEscape e = Some x" for e x using unquote_simple [OF that] by simp
  have p: "unquote ([c] @ t) = map_option ((#) c) (unquote t)" if "c \<noteq> CHR 0x5C"
    using unquote_plain [OF that assms] by simp
  show ?thesis
    using u p by (simp add: escapeChar_def e simpleEscape_def del: append.simps)
qed

lemma hexVal_digits:
  "hexVal CHR ''0'' = Some 0" "hexVal CHR ''2'' = Some 2" "hexVal CHR ''8'' = Some 8" "hexVal CHR ''9'' = Some 9"
  by (simp_all add: hexVal_def isDigit_def)

lemma chr_digits: "char_of (56 :: nat) = CHR ''8''" "char_of (57 :: nat) = CHR ''9''"
  by code_simp+

lemma unquote_escapeBody: "validUTF8 s \<Longrightarrow> unquote (escapeBody s) = Some s"
proof (induction s rule: escapeBody.induct)
  case 1
  then show ?case by simp
next
  case (2 c cs)
  show ?case
  proof (cases "byte c < 128")
    case True
    with 2(3) have "validUTF8 cs"
      by (subst (asm) validUTF8.simps) (simp add: decodeRune_ascii runeError_def split: if_splits)
    with 2(1) [OF True] True show ?thesis by (simp add: unquote_escapeChar)
  next
    case False
    obtain r n where rn: "decodeRune (c # cs) = (r, n)" by fastforce
    note v = validUTF8_step [OF 2(3) False rn]
    have ch: "n \<le> length (c # cs)" "encodeRune r = take n (c # cs)"
      "decodeRune (take n (c # cs) @ t) = (r, n)" for t
      using decodeRune_chunk [OF rn v(1)] by auto
    have n: "0 < n" using decodeRune_size_pos [of "c # cs"] rn by simp
    have IH: "unquote (escapeBody (drop (n - 1) cs)) = Some (drop (n - 1) cs)"
      using 2(2) [OF False rn [symmetric] refl v(2)] .
    have join: "take n (c # cs) @ drop (n - Suc 0) cs = c # cs"
      using n by (cases n) auto
    show ?thesis
    proof (cases "r = 8232 \<or> r = 8233")
      case True
      then have "hexDigit (r mod 16) = CHR ''8'' \<or> hexDigit (r mod 16) = CHR ''9''"
        by (auto simp: hexDigit_def chr_digits)
      with True have "unquote ([CHR 0x5C, CHR ''u'', CHR ''2'', CHR ''0'', CHR ''2'', hexDigit (r mod 16)] @ t)
          = map_option ((@) (encodeRune r)) (unquote t)" for t
        using unquote_u4 [where r = r and t = t] by (auto simp: getu4_def hexVal_digits hexDigit_def chr_digits)
      with True False v(1) IH show ?thesis
        by (auto simp: rn ch(2) join runeError_def simp flip: append.simps)
    next
      case notls: False
      have c: "c \<noteq> CHR 0x5C" using False by auto
      obtain m where m: "n = Suc m" using n gr0_implies_Suc by blast
      have "unquote (take n (c # cs) @ t) = map_option ((@) (take n (c # cs))) (unquote t)" for t
        using c False ch(1,2) ch(3) [of t] by (simp add: m unquote.simps(2))
      with notls False v(1) IH show ?thesis by (auto simp: rn join)
    qed
  qed
qed

section \<open>Documents: what is marshalled is unmarshalled\<close>

text \<open>The text between two quotes: no bare quote, no control character, no open escape.\<close>

fun scanOK :: "bool \<Rightarrow> string \<Rightarrow> bool" where
  "scanOK esc [] = (\<not> esc)"
| "scanOK esc (c # cs) =
     (32 \<le> byte c \<and> (if esc then scanOK False cs else c \<noteq> CHR 0x22 \<and> scanOK (c = CHR 0x5C) cs))"

lemma scanOK_append: "scanOK esc x \<Longrightarrow> scanOK False y \<Longrightarrow> scanOK esc (x @ y)"
  by (induction esc x rule: scanOK.induct) auto

lemma lex_string_body:
  "scanOK esc raw \<Longrightarrow> lex (LStr acc esc) (raw @ CHR 0x22 # rest)
     = (case unquote (rev acc @ raw) of None \<Rightarrow> None | Some s \<Rightarrow> map_option ((#) (TStr s)) (lex LTop rest))"
  by (induction esc raw arbitrary: acc rule: scanOK.induct) auto

lemma hexDigit_scan: "h < 16 \<Longrightarrow> 32 \<le> byte (hexDigit h) \<and> hexDigit h \<noteq> CHR 0x22 \<and> hexDigit h \<noteq> CHR 0x5C"
  by (auto simp: hexDigit_def take_bit_eq_mod char_of_eq_iff dest: arg_cong [where f = byte])

lemma scanOK_escapeChar: "byte c < 128 \<Longrightarrow> scanOK False (escapeChar c)"
  using hexDigit_scan [of "byte c div 16"] hexDigit_scan [of "byte c mod 16"]
  by (auto simp: escapeChar_def not_less)

lemma scanOK_high: "list_all (\<lambda>c. 128 \<le> byte c) s \<Longrightarrow> scanOK False s"
proof (induction s)
  case (Cons c s)
  then have "c \<noteq> CHR 0x22" "c \<noteq> CHR 0x5C" by auto
  with Cons show ?case by simp
qed simp

lemma decodeRune_high:
  assumes "decodeRune (c # cs) = (r, n)" and "\<not> byte c < 128" and "(r, n) \<noteq> (runeError, 1)"
  shows "list_all (\<lambda>c. 128 \<le> byte c) (take n (c # cs))"
  using assms by (auto simp: decodeRune_def isCont_def split: list.splits if_splits)

lemma scanOK_escapeBody: "validUTF8 s \<Longrightarrow> scanOK False (escapeBody s)"
proof (induction s rule: escapeBody.induct)
  case 1
  then show ?case by simp
next
  case (2 c cs)
  show ?case
  proof (cases "byte c < 128")
    case True
    with 2(3) have "validUTF8 cs"
      by (subst (asm) validUTF8.simps) (simp add: decodeRune_ascii runeError_def split: if_splits)
    with 2(1) [OF True] True show ?thesis by (simp add: scanOK_append scanOK_escapeChar)
  next
    case False
    obtain r n where rn: "decodeRune (c # cs) = (r, n)" by fastforce
    note v = validUTF8_step [OF 2(3) False rn]
    have IH: "scanOK False (escapeBody (drop (n - 1) cs))"
      using 2(2) [OF False rn [symmetric] refl v(2)] .
    have "scanOK False (take n (c # cs))"
      by (intro scanOK_high decodeRune_high [OF rn False v(1)])
    moreover have "scanOK False [CHR 0x5C, CHR ''u'', CHR ''2'', CHR ''0'', CHR ''2'', hexDigit (r mod 16)]"
      using hexDigit_scan [of "r mod 16"] by simp
    ultimately show ?thesis using IH v(1) False
      by (auto simp: rn scanOK_append simp del: take_Suc_Cons scanOK.simps(2) append.simps)
  qed
qed

lemma lex_marshalString:
  assumes "validUTF8 s"
  shows "lex LTop (marshalString s @ rest) = map_option ((#) (TStr s)) (lex LTop rest)"
proof -
  have "lex LTop (marshalString s @ rest) = lex (LStr [] False) (escapeBody s @ CHR 0x22 # rest)"
    by (simp add: marshalString_def isJsonSpace_def punct_def)
  then show ?thesis
    using lex_string_body [OF scanOK_escapeBody [OF assms]] unquote_escapeBody [OF assms] by simp
qed

text \<open>The tokens of a marshalled value and the document it is read back as.\<close>

fun sepBy :: "'a \<Rightarrow> 'a list list \<Rightarrow> 'a list" where
  "sepBy x [] = []"
| "sepBy x [ys] = ys"
| "sepBy x (ys # zs # yss) = ys @ x # sepBy x (zs # yss)"

definition intFloat :: "int \<Rightarrow> float64" where
  "intFloat i = (case roundFloat (i < 0) (nat \<bar>i\<bar>) 1 of Some f \<Rightarrow> f | None \<Rightarrow> F64 0 0)"

fun tokensOf :: "goany \<Rightarrow> token list" where
  "tokensOf (AStr s) = [TStr s]"
| "tokensOf (ABool b) = [TBool b]"
| "tokensOf (AInt i) = [TNum (intFloat i)]"
| "tokensOf (AMap m) =
     TLBrace # sepBy TComma (map (\<lambda>(k, ts). TStr k # TColon # ts) (sort_key fst (map (\<lambda>(k, v). (k, tokensOf v)) m)))
     @ [TRBrace]"

fun toJson :: "goany \<Rightarrow> json" where
  "toJson (AStr s) = JStr s"
| "toJson (ABool b) = JBool b"
| "toJson (AInt i) = JNum (intFloat i)"
| "toJson (AMap m) = JObj (sort_key fst (map (\<lambda>(k, v). (k, toJson v)) m))"

text \<open>Values whose strings are valid UTF-8, whose integers a float64 holds and whose keys are distinct.\<close>

fun any_ok :: "goany \<Rightarrow> bool" where
  "any_ok (AStr s) = validUTF8 s"
| "any_ok (ABool b) = True"
| "any_ok (AInt i) = (\<bar>i\<bar> < 2 ^ 53)"
| "any_ok (AMap m) = (distinct (map fst m) \<and> (\<forall>p \<in> set m. validUTF8 (fst p) \<and> any_ok (snd p)))"

fun any_depth :: "goany \<Rightarrow> nat" where
  "any_depth (AMap m) = Suc (Max (insert 0 (set (map (\<lambda>p. any_depth (snd p)) m))))"
| "any_depth _ = 0"

text \<open>The end of a number or a literal name: the end of the text or a separator.\<close>

definition wordEnd :: "string \<Rightarrow> bool" where
  "wordEnd rest = (case rest of [] \<Rightarrow> True | c # _ \<Rightarrow> \<not> isWordChar c)"

lemma lex_word_aux:
  "list_all isWordChar w \<Longrightarrow> wordEnd rest \<Longrightarrow> lex (LWord acc) (w @ rest)
     = (case wordToken (rev acc @ w) of None \<Rightarrow> None | Some t \<Rightarrow> map_option ((#) t) (lex LTop rest))"
proof (induction w arbitrary: acc)
  case Nil
  then show ?case by (cases rest) (auto simp: wordEnd_def split: option.splits)
qed simp

lemma wordChar_not_special:
  "isWordChar c \<Longrightarrow> \<not> isJsonSpace c \<and> punct c = None \<and> c \<noteq> CHR 0x22"
proof (rule ccontr)
  assume w: "isWordChar c" and "\<not> (\<not> isJsonSpace c \<and> punct c = None \<and> c \<noteq> CHR 0x22)"
  then consider "isJsonSpace c" | "punct c \<noteq> None" | "c = CHR 0x22" by auto
  then have "c \<in> set [CHR '' '', CHR 0x09, CHR 0x0A, CHR 0x0D, CHR ''{'', CHR ''}'', CHR ''['', CHR '']'',
      CHR '':'', CHR '','', CHR 0x22]"
    by cases (auto simp: isJsonSpace_def punct_def split: if_splits)
  with w show False by (auto simp: isWordChar_def isDigit_def)
qed

lemma lex_word:
  assumes "list_all isWordChar w" and "w \<noteq> []" and "wordEnd rest" and "wordToken w = Some t"
  shows "lex LTop (w @ rest) = map_option ((#) t) (lex LTop rest)"
proof -
  obtain c cs where w: "w = c # cs" using assms(2) by (cases w) auto
  then have "lex LTop (w @ rest) = lex (LWord [c]) (cs @ rest)"
    using assms(1) wordChar_not_special [of c] by simp
  then show ?thesis using lex_word_aux [of cs rest "[c]"] assms w by simp
qed

lemma itoa_wordChars: "list_all isWordChar (itoa i)"
proof -
  have "list_all isWordChar (natDigits n)" for n
    using natDigits_digits [of n] by (auto simp: list_all_iff isWordChar_def)
  then show ?thesis by (auto simp: itoa_def isWordChar_def)
qed

lemma digit_word_not_name: "w \<noteq> [] \<Longrightarrow> hd w = CHR ''-'' \<or> isDigit (hd w) \<Longrightarrow> wordToken w = map_option TNum (parseNumber w)"
  by (cases w) (auto simp: wordToken_def isDigit_def)

lemma hd_itoa: "hd (itoa i) = CHR ''-'' \<or> isDigit (hd (itoa i))"
  using natDigits_digits [of "nat i"]
  by (cases "natDigits (nat i)") (auto simp: itoa_def)

lemma itoa_nonempty [simp]: "itoa i \<noteq> []"
  by (simp add: itoa_def)

lemma wordToken_itoa: "\<bar>i\<bar> < 2 ^ 53 \<Longrightarrow> wordToken (itoa i) = Some (TNum (intFloat i))"
proof -
  assume "\<bar>i\<bar> < 2 ^ 53"
  then have "nat \<bar>i\<bar> < 2 ^ 53" by (simp add: nat_less_iff)
  then obtain f where "roundFloat (i < 0) (nat \<bar>i\<bar>) 1 = Some f" by (rule roundFloat_int)
  then show ?thesis
    using digit_word_not_name [OF itoa_nonempty hd_itoa] by (simp add: parseNumber_itoa intFloat_def)
qed

lemma floatInt_intFloat:
  assumes "\<bar>i\<bar> < 2 ^ 53"
  shows "floatInt (intFloat i) = Some i"
proof -
  from assms have "nat \<bar>i\<bar> < 2 ^ 53" by (simp add: nat_less_iff)
  then obtain f where "roundFloat (i < 0) (nat \<bar>i\<bar>) 1 = Some f"
    and "floatInt f = Some (if i < 0 then - int (nat \<bar>i\<bar>) else int (nat \<bar>i\<bar>))" by (rule roundFloat_int)
  then show ?thesis by (simp add: intFloat_def)
qed

lemma insort_key_map_snd:
  "insort_key fst (k, f v) (map (\<lambda>(k, v). (k, f v)) xs) = map (\<lambda>(k, v). (k, f v)) (insort_key fst (k, v) xs)"
  by (induction xs) auto

lemma sort_key_map_snd:
  "sort_key fst (map (\<lambda>(k, v). (k, f v)) xs) = map (\<lambda>(k, v). (k, f v)) (sort_key fst xs)"
  by (induction xs) (auto simp: insort_key_map_snd)

lemma lex_punct: "punct c = Some t \<Longrightarrow> \<not> isJsonSpace c \<Longrightarrow> lex LTop (c # s) = map_option ((#) t) (lex LTop s)"
  by simp

lemma lex_puncts [simp]:
  "lex LTop (CHR ''{'' # s) = map_option ((#) TLBrace) (lex LTop s)"
  "lex LTop (CHR ''}'' # s) = map_option ((#) TRBrace) (lex LTop s)"
  "lex LTop (CHR '':'' # s) = map_option ((#) TColon) (lex LTop s)"
  "lex LTop (CHR '','' # s) = map_option ((#) TComma) (lex LTop s)"
  by (simp_all add: punct_def isJsonSpace_def)

declare lex.simps(2) [simp del]

text \<open>The entries of a map, once each value is scanned correctly.\<close>

lemma lex_entries:
  assumes "\<And>k v rest. (k, v) \<in> set m \<Longrightarrow> wordEnd rest \<Longrightarrow> validUTF8 k
      \<and> lex LTop (f v @ rest) = map_option ((@) (g v)) (lex LTop rest)"
    and "wordEnd rest"
  shows "lex LTop (join (map (\<lambda>(k, v). marshalString k @ '':'' @ f v) m) '','' @ rest)
     = map_option ((@) (sepBy TComma (map (\<lambda>(k, v). TStr k # TColon # g v) m))) (lex LTop rest)"
  using assms
proof (induction m rule: induct_list012)
  case 1
  then show ?case by (simp add: option.map_id0 [unfolded id_def])
next
  case (2 p)
  obtain k v where p: "p = (k, v)" by fastforce
  with 2 have "validUTF8 k" "lex LTop (f v @ rest) = map_option ((@) (g v)) (lex LTop rest)" by auto
  then show ?case by (simp add: p lex_marshalString option.map_comp comp_def)
next
  case (3 p q m)
  obtain k v where p: "p = (k, v)" by fastforce
  define tl where "tl = join (map (\<lambda>(k, v). marshalString k @ '':'' @ f v) (q # m)) '','' @ rest"
  have "wordEnd (CHR '','' # tl)" by (simp add: wordEnd_def isWordChar_def isDigit_def)
  with 3(3) [of k v "CHR '','' # tl"] have kv: "validUTF8 k"
    "lex LTop (f v @ CHR '','' # tl) = map_option ((@) (g v)) (lex LTop (CHR '','' # tl))"
    by (auto simp: p)
  have "lex LTop tl = map_option ((@) (sepBy TComma (map (\<lambda>(k, v). TStr k # TColon # g v) (q # m)))) (lex LTop rest)"
    unfolding tl_def using 3(3,4) by (intro 3(2)) auto
  with kv show ?case
    by (simp add: p lex_marshalString option.map_comp comp_def flip: tl_def)
      (simp add: tl_def lex_marshalString kv option.map_comp comp_def)
qed

lemma lex_marshal:
  "any_ok v \<Longrightarrow> wordEnd rest \<Longrightarrow> lex LTop (marshal v @ rest) = map_option ((@) (tokensOf v)) (lex LTop rest)"
proof (induction v arbitrary: rest rule: marshal.induct)
  case (1 s)
  then show ?case by (simp add: lex_marshalString append_single)
next
  case (2 b)
  have "list_all isWordChar ''true''" "list_all isWordChar ''false''"
    by (simp_all add: isWordChar_def)
  then show ?case
    using 2 lex_word [of "''true''" rest "TBool True"] lex_word [of "''false''" rest "TBool False"]
    by (simp add: append_single wordToken_def)
next
  case (3 i)
  then show ?case
    using lex_word [OF itoa_wordChars itoa_nonempty _ wordToken_itoa] by (simp add: append_single)
next
  case (4 m)
  let ?m = "sort_key fst m"
  have IH: "validUTF8 k \<and> lex LTop (marshal v @ r) = map_option ((@) (tokensOf v)) (lex LTop r)"
    if "(k, v) \<in> set ?m" "wordEnd r" for k v r
    using 4(1) [of "(k, v)" k v r] 4(2) that by auto
  have "wordEnd (CHR ''}'' # rest)" by (simp add: wordEnd_def isWordChar_def isDigit_def)
  from lex_entries [of ?m marshal tokensOf, OF IH this]
  show ?case
    by (simp add: sort_key_map_snd [unfolded case_prod_unfold] comp_def case_prod_unfold option.map_comp)
qed

lemma setField_new: "k \<notin> fst ` set fs \<Longrightarrow> setField k v fs = fs @ [(k, v)]"
  by (induction k v fs rule: setField.induct) auto

lemma prun_entries:
  assumes "\<And>k v fs ts. (k, v) \<in> set m \<Longrightarrow>
      prun (g v @ ts) (PRun MValue (FKey fs k # st)) = prun ts (PRun MEnd (FObj (setField k (h v) fs) # st))"
    and "m \<noteq> []" and "distinct (map fst m)" and "fst ` set m \<inter> fst ` set fs = {}"
    and "md = MObjFirst \<or> md = MKey"
  shows "prun (sepBy TComma (map (\<lambda>(k, v). TStr k # TColon # g v) m) @ ts) (PRun md (FObj fs # st))
     = prun ts (PRun MEnd (FObj (fs @ map (\<lambda>(k, v). (k, h v)) m) # st))"
  using assms
proof (induction m arbitrary: fs md rule: induct_list012)
  case (2 p)
  obtain k v where p: "p = (k, v)" by fastforce
  with 2(4) have "k \<notin> fst ` set fs" by auto
  with 2(1) [of k v] 2(5) show ?case by (auto simp: p setField_new)
next
  case (3 p q m)
  obtain k v where p: "p = (k, v)" by fastforce
  with 3(6) have new: "k \<notin> fst ` set fs" by auto
  let ?rest = "sepBy TComma (map (\<lambda>(k, v). TStr k # TColon # g v) (q # m)) @ ts"
  have "prun (g v @ TComma # ?rest) (PRun MValue (FKey fs k # st))
      = prun ?rest (PRun MKey (FObj (fs @ [(k, h v)]) # st))"
    using 3(3) [of k v] by (simp add: p setField_new [OF new])
  also have "\<dots> = prun ts (PRun MEnd (FObj ((fs @ [(k, h v)]) @ map (\<lambda>(k, v). (k, h v)) (q # m)) # st))"
    using 3(3,5,6) by (intro 3(2)) (auto simp: p)
  finally show ?case using 3(7) by (auto simp: p)
qed simp

lemma bind_as_case: "Option.bind x f = (case x of None \<Rightarrow> None | Some y \<Rightarrow> f y)"
  by (cases x) auto

lemma prun_tokensOf:
  "any_ok v \<Longrightarrow> length st + any_depth v \<le> maxNestingDepth \<Longrightarrow>
   prun (tokensOf v @ ts) (PRun MValue st) = Option.bind (pvalue (toJson v) st) (prun ts)"
proof (induction v arbitrary: st ts rule: tokensOf.induct)
  case (4 m)
  let ?m = "sort_key fst m"
  have depth: "any_depth v < any_depth (AMap m)" if "(k, v) \<in> set m" for k v
  proof -
    have "any_depth v \<in> insert 0 (set (map (\<lambda>p. any_depth (snd p)) m))" using that by force
    then have "any_depth v \<le> Max (insert 0 (set (map (\<lambda>p. any_depth (snd p)) m)))" by (intro Max_ge) auto
    then show ?thesis by simp
  qed
  have room: "length st < maxNestingDepth" using 4(3) by simp
  have val: "prun (tokensOf v @ r) (PRun MValue (FKey fs k # st))
      = prun r (PRun MEnd (FObj (setField k (toJson v) fs) # st))" if "(k, v) \<in> set ?m" for k v fs r
    using 4(1) [of "(k, v)" k v "FKey fs k # st" r] 4(2,3) depth [of k v] that by auto
  have "prun (tokensOf (AMap m) @ ts) (PRun MValue st)
      = prun (sepBy TComma (map (\<lambda>(k, v). TStr k # TColon # tokensOf v) ?m) @ TRBrace # ts) (PRun MObjFirst (FObj [] # st))"
    using room by (simp add: pushFrame_def sort_key_map_snd comp_def case_prod_unfold
        sort_key_map_snd [unfolded case_prod_unfold])
  also have "\<dots> = Option.bind (pvalue (JObj (map (\<lambda>(k, v). (k, toJson v)) ?m)) st) (prun ts)"
  proof (cases "m = []")
    case True
    then show ?thesis by (cases "pvalue (JObj []) st") auto
  next
    case False
    have "distinct (map fst ?m)" using 4(2) by (simp add: distinct_map)
    moreover have "?m \<noteq> []" using False by (metis set_empty set_sort)
    ultimately have "prun (sepBy TComma (map (\<lambda>(k, v). TStr k # TColon # tokensOf v) ?m) @ TRBrace # ts)
        (PRun MObjFirst (FObj [] # st))
      = prun (TRBrace # ts) (PRun MEnd (FObj (map (\<lambda>(k, v). (k, toJson v)) ?m) # st))"
      using prun_entries [of ?m tokensOf st toJson "[]" MObjFirst "TRBrace # ts", OF val] by simp
    then show ?thesis by (cases "pvalue (JObj (map (\<lambda>(k, v). (k, toJson v)) ?m)) st") auto
  qed
  finally show ?case by (simp add: sort_key_map_snd)
qed (simp_all add: bind_as_case)

text \<open>
  A value handed to \<^verbatim>\<open>json.Marshal\<close> is read back by \<^verbatim>\<open>json.Unmarshal\<close> as the same document.
\<close>

lemma unmarshal_marshal:
  assumes "any_ok v" and "any_depth v \<le> maxNestingDepth"
  shows "unmarshal (marshal v) = Some (toJson v)"
proof -
  have "lex LTop (marshal v) = Some (tokensOf v)"
    using lex_marshal [OF assms(1), of "[]"] by (simp add: wordEnd_def)
  moreover have "prun (tokensOf v) (PRun MValue []) = Some (PDone (toJson v))"
    using prun_tokensOf [OF assms(1), of "[]" "[]"] assms(2) by simp
  ultimately show ?thesis by (simp add: unmarshal_def parseTokens_def)
qed

section \<open>Decoded documents are well formed\<close>

fun frame_ok :: "frame \<Rightarrow> bool" where
  "frame_ok (FArr xs) = list_all json_ok xs"
| "frame_ok (FObj fs) = json_ok (JObj fs)"
| "frame_ok (FKey fs k) = json_ok (JObj fs)"

fun pstate_ok :: "pstate \<Rightarrow> bool" where
  "pstate_ok (PRun m st) = list_all frame_ok st"
| "pstate_ok (PDone v) = json_ok v"

lemma set_setField_keys: "fst ` set (setField k v fs) = insert k (fst ` set fs)"
  by (induction k v fs rule: setField.induct) auto

lemma setField_ok: "json_ok (JObj fs) \<Longrightarrow> json_ok v \<Longrightarrow> json_ok (JObj (setField k v fs))"
proof (induction k v fs rule: setField.induct)
  case (2 k v k' v' fs)
  then show ?case using set_setField_keys [of k v fs] by (auto simp: image_iff)
qed simp

lemma pvalue_ok: "pvalue v st = Some s \<Longrightarrow> json_ok v \<Longrightarrow> list_all frame_ok st \<Longrightarrow> pstate_ok s"
  using setField_ok by (induction v st rule: pvalue.induct) (auto simp del: json_ok.simps(2))

lemma pbegin_ok: "pbegin t st = Some s \<Longrightarrow> list_all frame_ok st \<Longrightarrow> pstate_ok s"
  by (induction t st rule: pbegin.induct) (auto simp: pushFrame_def pvalue_ok split: if_splits dest: pvalue_ok)

lemma pclose_ok: "pclose t st = Some s \<Longrightarrow> list_all frame_ok st \<Longrightarrow> pstate_ok s"
proof (induction t st rule: pclose.induct)
  case (1 xs st)
  then show ?case by (intro pvalue_ok [of "JArr (rev xs)" st]) (auto simp: list_all_iff)
next
  case (2 fs st)
  then show ?case by (intro pvalue_ok [of "JObj fs" st]) auto
qed simp_all

lemma pkey_ok: "pkey t st = Some s \<Longrightarrow> list_all frame_ok st \<Longrightarrow> pstate_ok s"
  by (induction t st rule: pkey.induct) auto

lemma pnext_ok: "pnext t st = Some s \<Longrightarrow> list_all frame_ok st \<Longrightarrow> pstate_ok s"
  by (induction t st rule: pnext.induct) (auto dest: pclose_ok simp del: pclose.simps frame_ok.simps)

lemma pstep_ok: "pstep t s = Some s' \<Longrightarrow> pstate_ok s \<Longrightarrow> pstate_ok s'"
  by (induction t s rule: pstep.induct)
    (auto dest: pbegin_ok pclose_ok pkey_ok pnext_ok split: if_splits)

lemma prun_ok: "prun ts s = Some s' \<Longrightarrow> pstate_ok s \<Longrightarrow> pstate_ok s'"
  by (induction ts s rule: prun.induct) (auto dest: pstep_ok split: option.splits)

lemma unmarshal_ok: "unmarshal b = Some d \<Longrightarrow> json_ok d"
proof -
  assume "unmarshal b = Some d"
  then obtain ts where ts: "parseTokens ts = Some d" by (auto simp: unmarshal_def Option.bind_eq_Some_conv)
  then obtain s where s: "prun ts (PRun MValue []) = Some s" by (cases "prun ts (PRun MValue [])") (auto simp: parseTokens_def)
  with ts have "s = PDone d" by (cases s) (auto simp: parseTokens_def)
  with s show ?thesis using prun_ok by fastforce
qed

end
