(* ===== verification/Errors.thy ===== *)
theory Errors
  imports Json
begin

text \<open>
  Go errors and \<^verbatim>\<open>internal/kmp/errors.go\<close>: the \<^verbatim>\<open>Error\<close> of a failed API call, the sentinel
  errors, the chains \<^verbatim>\<open>fmt.Errorf\<close> and \<^verbatim>\<open>errors.Join\<close> build, and the two classifiers the
  controllers act on, \<^verbatim>\<open>IsPermanent\<close> and \<^verbatim>\<open>IsAuthFailure\<close>.
\<close>

section \<open>Error values\<close>

text \<open>\<^verbatim>\<open>type Error struct\<close>, over the type of the errors it may wrap.\<close>

datatype 'e Error =
  Error (Op: string) (StatusCode: int) (APIStatus: string) (Message: string) (Body: string)
    (Permanent: bool) (Err: "'e option")

text \<open>
  A Go \<^verbatim>\<open>error\<close>. \<open>ErrText\<close> is a leaf made by \<^verbatim>\<open>errors.New\<close> or returned by another package, in
  which no error of this program can be found; \<open>Wrapf\<close> is the result of \<^verbatim>\<open>fmt.Errorf\<close> with its
  text and the errors given for its \<^verbatim>\<open>%w\<close> verbs; \<open>Joined\<close> that of \<^verbatim>\<open>errors.Join\<close>.
  \<open>PermanentError\<close> and \<open>IssuerError\<close> are the wrappers of issuer-lib.
\<close>

datatype goerr =
    ErrText string
  | ErrInvalidConfig
  | ErrUnusableResponse
  | ErrNoPrivateKey
  | ErrGetAuthSecret
  | ErrHealthCheckerBuilder
  | ErrHealthCheckerCheck
  | ErrSignerBuilder
  | ErrSignerSign
  | ErrNotInCluster
  | KmpError "goerr Error"
  | Wrapf string "goerr list"
  | Joined "goerr list"
  | PermanentError goerr
  | IssuerError goerr

text \<open>\<^verbatim>\<open>Unwrap\<close> of an error: what \<^verbatim>\<open>errors.Is\<close> and \<^verbatim>\<open>errors.As\<close> look at next.\<close>

fun unwrap :: "goerr \<Rightarrow> goerr list" where
  "unwrap (KmpError e) = (case Err e of None \<Rightarrow> [] | Some x \<Rightarrow> [x])"
| "unwrap (Wrapf _ es) = es"
| "unwrap (Joined es) = es"
| "unwrap (PermanentError e) = [e]"
| "unwrap (IssuerError e) = [e]"
| "unwrap _ = []"

lemma size_list_elem: "x \<in> set xs \<Longrightarrow> size x < Suc (size_list size xs)"
  by (induction xs) auto

lemma unwrap_size [termination_simp]: "x \<in> set (unwrap e) \<Longrightarrow> size x < size e"
proof (cases e)
  case (KmpError k)
  assume "x \<in> set (unwrap e)"
  with KmpError show ?thesis by (cases k) (auto split: option.splits)
qed (auto simp: size_list_elem)

text \<open>\<^verbatim>\<open>errors.Is(err, target)\<close> for one of the sentinels.\<close>

function errIs :: "goerr \<Rightarrow> goerr \<Rightarrow> bool" where
  "errIs e target = (e = target \<or> (\<exists>x \<in> set (unwrap e). errIs x target))"
  by pat_completeness auto
termination
  by (relation "measure (\<lambda>(e, t). size e)") (auto simp: unwrap_size)

text \<open>\<^verbatim>\<open>errors.As(err, &kmpErr)\<close>: the first \<^verbatim>\<open>*Error\<close> of the tree, in depth-first order.\<close>

function errAs :: "goerr \<Rightarrow> goerr Error option" where
  "errAs e = (case e of KmpError k \<Rightarrow> Some k | _ \<Rightarrow> first_some errAs (unwrap e))"
  by pat_completeness auto
termination
  by (relation "measure size") (auto simp: size_list_elem)

declare errIs.simps [simp del] errAs.simps [simp del]

section \<open>Texts\<close>

text \<open>The texts of the sentinel errors.\<close>

fun sentinelText :: "goerr \<Rightarrow> string" where
  "sentinelText ErrInvalidConfig = ''invalid signing configuration''"
| "sentinelText ErrUnusableResponse = ''unusable response from key manager plus''"
| "sentinelText ErrNoPrivateKey = ''not a private key''"
| "sentinelText ErrGetAuthSecret = ''failed to get Secret containing Issuer credentials''"
| "sentinelText ErrHealthCheckerBuilder = ''failed to build the healthchecker''"
| "sentinelText ErrHealthCheckerCheck = ''healthcheck failed''"
| "sentinelText ErrSignerBuilder = ''failed to build the signer''"
| "sentinelText ErrSignerSign = ''failed to sign''"
| "sentinelText ErrNotInCluster = ''not running in-cluster''"
| "sentinelText _ = []"

text \<open>\<^verbatim>\<open>(*Error).Error\<close>, given the text of the wrapped error.\<close>

definition Error_Error :: "'r unicode_tables_scheme \<Rightarrow> ('e \<Rightarrow> string) \<Rightarrow> 'e Error \<Rightarrow> string" where
  "Error_Error U txt e =
     ''key manager plus: '' @ Op e
     @ (if StatusCode e \<noteq> 0 then '': http '' @ itoa (StatusCode e) else [])
     @ (if APIStatus e \<noteq> [] then '': status '' @ quote U (APIStatus e) else [])
     @ (if Message e \<noteq> [] then '': '' @ Message e else [])
     @ (case Err e of Some x \<Rightarrow> '': '' @ txt x | None \<Rightarrow> [])
     @ (if Message e = [] \<and> Err e = None \<and> Body e \<noteq> [] then '': '' @ Body e else [])"

lemma Error_Error_cong [fundef_cong]:
  "U = V \<Longrightarrow> k = l \<Longrightarrow> (\<And>x. Err l = Some x \<Longrightarrow> f x = g x) \<Longrightarrow> Error_Error U f k = Error_Error V g l"
  by (auto simp: Error_Error_def split: option.splits)

text \<open>
  The text of an error, \<^verbatim>\<open>err.Error()\<close>. issuer-lib's two wrappers print the error they hold.
\<close>

function errorText :: "'r unicode_tables_scheme \<Rightarrow> goerr \<Rightarrow> string" where
  "errorText U e = (case e of
     ErrText s \<Rightarrow> s
   | Wrapf s _ \<Rightarrow> s
   | KmpError k \<Rightarrow> Error_Error U (errorText U) k
   | Joined es \<Rightarrow> join (map (errorText U) es) [CHR 0x0A]
   | PermanentError x \<Rightarrow> errorText U x
   | IssuerError x \<Rightarrow> errorText U x
   | _ \<Rightarrow> sentinelText e)"
  by pat_completeness auto
termination
proof (relation "measure (\<lambda>(U, e). size e)", goal_cases)
  case (2 U e k x)
  then have "x \<in> set (unwrap e)" by simp
  then show ?case by (simp add: unwrap_size)
next
  case (3 U e es x)
  then have "x \<in> set (unwrap e)" by simp
  then show ?case by (simp add: unwrap_size)
qed auto

declare errorText.simps [simp del]

text \<open>\<^verbatim>\<open>fmt.Errorf("%w: ...", sentinel, ...)\<close>: the text and the one wrapped sentinel.\<close>

definition errorfW :: "goerr \<Rightarrow> string \<Rightarrow> goerr" where
  "errorfW sentinel rest = Wrapf (sentinelText sentinel @ rest) [sentinel]"

section \<open>Classification\<close>

definition IsPermanent :: "goerr \<Rightarrow> bool" where
  "IsPermanent err =
     (if errIs err ErrInvalidConfig \<or> errIs err ErrUnusableResponse then True
      else case errAs err of Some kmpErr \<Rightarrow> Permanent kmpErr | None \<Rightarrow> False)"

declare errorfW_def [error_simps] IsPermanent_def [error_simps]

definition permanentStatus :: "int \<Rightarrow> bool" where
  "permanentStatus code =
     (if code = 408 \<or> code = 429 then False else 400 \<le> code \<and> code < 500)"

definition authFailureHints :: "string list" where
  "authFailureHints =
     [''authtoken'', ''auth token'', ''authentication failed'', ''invalid token'',
      ''unauthorized'', ''not authorized'', ''invalid user'']"

definition IsAuthFailure :: "'r unicode_tables_scheme \<Rightarrow> goerr \<Rightarrow> bool" where
  "IsAuthFailure U err = (case errAs err of
     None \<Rightarrow> False
   | Some kmpErr \<Rightarrow>
     if StatusCode kmpErr = 401 \<or> StatusCode kmpErr = 403 then True
     else let haystack = toLower U (Message kmpErr @ '' '' @ Body kmpErr)
          in list_ex (\<lambda>hint. contains haystack hint) authFailureHints)"

section \<open>Lemmas\<close>

text \<open>How \<^const>\<open>errIs\<close> and \<^const>\<open>errAs\<close> see each form of error.\<close>

lemma errIs_simps [simp]:
  "errIs (ErrText s) t = (t = ErrText s)"
  "errIs ErrInvalidConfig t = (t = ErrInvalidConfig)"
  "errIs ErrUnusableResponse t = (t = ErrUnusableResponse)"
  "errIs ErrNoPrivateKey t = (t = ErrNoPrivateKey)"
  "errIs ErrGetAuthSecret t = (t = ErrGetAuthSecret)"
  "errIs ErrHealthCheckerBuilder t = (t = ErrHealthCheckerBuilder)"
  "errIs ErrHealthCheckerCheck t = (t = ErrHealthCheckerCheck)"
  "errIs ErrSignerBuilder t = (t = ErrSignerBuilder)"
  "errIs ErrSignerSign t = (t = ErrSignerSign)"
  "errIs ErrNotInCluster t = (t = ErrNotInCluster)"
  "errIs (KmpError k) t = (t = KmpError k \<or> (\<exists>x. Err k = Some x \<and> errIs x t))"
  "errIs (Wrapf s es) t = (t = Wrapf s es \<or> (\<exists>x \<in> set es. errIs x t))"
  "errIs (Joined es) t = (t = Joined es \<or> (\<exists>x \<in> set es. errIs x t))"
  "errIs (PermanentError e) t = (t = PermanentError e \<or> errIs e t)"
  "errIs (IssuerError e) t = (t = IssuerError e \<or> errIs e t)"
  by (subst errIs.simps, fastforce split: option.splits)+

lemma errAs_simps [simp]:
  "errAs (ErrText s) = None" "errAs ErrInvalidConfig = None" "errAs ErrUnusableResponse = None"
  "errAs ErrNoPrivateKey = None" "errAs ErrGetAuthSecret = None"
  "errAs ErrHealthCheckerBuilder = None" "errAs ErrHealthCheckerCheck = None"
  "errAs ErrSignerBuilder = None" "errAs ErrSignerSign = None" "errAs ErrNotInCluster = None"
  "errAs (KmpError k) = Some k"
  "errAs (Wrapf s es) = first_some errAs es"
  "errAs (Joined es) = first_some errAs es"
  "errAs (PermanentError e) = errAs e"
  "errAs (IssuerError e) = errAs e"
  by (subst errAs.simps, simp split: option.splits)+

text \<open>
  An error made by another package never looks permanent, and wrapping an error with
  \<^verbatim>\<open>%w\<close> keeps its classification.
\<close>

lemma IsPermanent_text [simp]: "\<not> IsPermanent (ErrText s)"
  by (simp add: IsPermanent_def)

lemma IsPermanent_Wrapf1 [simp]: "IsPermanent (Wrapf s [e]) = IsPermanent e"
  by (auto simp: IsPermanent_def split: option.splits)

lemma IsPermanent_sentinel [simp]:
  "IsPermanent (errorfW ErrInvalidConfig s)" "IsPermanent (errorfW ErrUnusableResponse s)"
  by (simp_all add: error_simps)

lemma IsPermanent_KmpError_leaf:
  assumes "Err k = None \<or> Err k = Some (ErrText s) \<or> Err k = Some (Wrapf s' [ErrText s])"
  shows "IsPermanent (KmpError k) = Permanent k"
  using assms by (auto simp: IsPermanent_def)

lemma permanentStatus_iff:
  "permanentStatus code \<longleftrightarrow> 400 \<le> code \<and> code < 500 \<and> code \<noteq> 408 \<and> code \<noteq> 429"
  by (auto simp: permanentStatus_def)

end
