(* ===== verification/Response.thy ===== *)
theory Response
  imports Errors
begin

text \<open>
  \<^verbatim>\<open>internal/kmp/response.go\<close>: a decoded response body and the queries on it. Key Manager Plus
  wraps its payloads differently per operation and build, so the program searches the whole
  document for the fields it needs.

  A query that ranges over a map takes the order of that \<^verbatim>\<open>range\<close> from the runtime: \<open>ord\<close>
  below is any function that permutes the entries of a map.
\<close>

section \<open>The response and its queries\<close>

record response =
  doc :: json
  body :: bytes

definition parseResponse :: "'r go_runtime_scheme \<Rightarrow> bytes \<Rightarrow> goerr + response" where
  "parseResponse R b = (case unmarshal b of
     None \<Rightarrow> Inl (Wrapf (''decoding response body as JSON: '' @ jsonErrorText R b) [ErrText (jsonErrorText R b)])
   | Some d \<Rightarrow> Inr \<lparr>doc = d, body = b\<rparr>)"

definition maxRecordedBody :: nat where
  "maxRecordedBody = 2048"

definition truncate_str :: "string \<Rightarrow> nat \<Rightarrow> string" where
  "truncate_str s mx =
     (let s = trimSpace s in if length s \<le> mx then s else take mx s @ ''... (truncated)'')"

definition truncatedBody :: "response \<Rightarrow> string" where
  "truncatedBody r = truncate_str (body r) maxRecordedBody"

definition statusKeys :: "string list" where
  "statusKeys = [''status'', ''Status'', ''STATUS'', ''result'']"

definition messageKeys :: "string list" where
  "messageKeys = [''message'', ''Message'', ''MESSAGE'', ''reason'', ''error'', ''errormessage'', ''error_message'']"

definition normalizeKey :: "'r unicode_tables_scheme \<Rightarrow> string \<Rightarrow> string" where
  "normalizeKey U k =
     concat (map encodeRune (filter (\<lambda>r. r \<noteq> 95 \<and> r \<noteq> 45 \<and> r \<noteq> 32 \<and> r \<noteq> 46) (runes (toLower U k))))"

text \<open>The set of normalised keys every query builds first.\<close>

definition wantedKeys :: "'r unicode_tables_scheme \<Rightarrow> string list \<Rightarrow> string list" where
  "wantedKeys U keys = map (normalizeKey U) keys"

definition isWanted :: "'r unicode_tables_scheme \<Rightarrow> string list \<Rightarrow> string \<Rightarrow> bool" where
  "isWanted U wanted key = (normalizeKey U key \<in> set wanted)"

definition float64OfInt :: "int \<Rightarrow> int option" where
  "float64OfInt j = Option.bind (roundFloat (j < 0) (nat \<bar>j\<bar>) 1) floatInt"

text \<open>
  \<^verbatim>\<open>scalarString\<close>. The test \<^verbatim>\<open>typed == float64(int64(typed))\<close> holds for every integer that
  fits an int64; outside that range the conversion is the implementation's.
\<close>

fun scalarString :: "'r go_runtime_scheme \<Rightarrow> json \<Rightarrow> string option" where
  "scalarString R (JStr s) = (let t = trimSpace s in if t = [] then None else Some t)"
| "scalarString R (JNum f) = (case floatInt f of
     None \<Rightarrow> Some (formatFloat R f)
   | Some i \<Rightarrow>
     if - (2 ^ 63) \<le> i \<and> i < 2 ^ 63 then Some (itoa i)
     else if float64OfInt (float64ToInt64 R f) = Some i then Some (itoa (float64ToInt64 R f))
     else Some (formatFloat R f))"
| "scalarString R (JBool b) = Some (if b then ''true'' else ''false'')"
| "scalarString R _ = None"

definition sortedKeys :: "(string \<times> 'v) list \<Rightarrow> string list" where
  "sortedKeys m = sort (map fst m)"

text \<open>\<^verbatim>\<open>for _, key := range sortedKeys(m)\<close> with \<^verbatim>\<open>m[key]\<close>: the entries in key order.\<close>

definition sortedEntries :: "(string \<times> 'v) list \<Rightarrow> (string \<times> 'v) list" where
  "sortedEntries m = sort_key fst m"

lemma set_sortedEntries [simp]: "set (sortedEntries m) = set m"
  by (simp add: sortedEntries_def)

lemma json_field_size [termination_simp]:
  "(k, v) \<in> set fs \<Longrightarrow> size v < Suc (size_list (size_prod (\<lambda>_. 0) size) fs)"
  by (induction fs) auto

lemma json_elem_size [termination_simp]: "v \<in> set xs \<Longrightarrow> size v < Suc (size_list size xs)"
  by (induction xs) auto

text \<open>The matches of one object, in the order a \<^verbatim>\<open>range\<close> visits its entries.\<close>

definition levelScalar :: "'r go_runtime_scheme \<Rightarrow> string list \<Rightarrow> fields \<Rightarrow> string option" where
  "levelScalar R wanted es =
     first_some (\<lambda>(key, value). if isWanted R wanted key then scalarString R value else None) es"

fun findScalar :: "'r go_runtime_scheme \<Rightarrow> (fields \<Rightarrow> fields) \<Rightarrow> json \<Rightarrow> string list \<Rightarrow> string option" where
  "findScalar R ord (JObj fs) wanted =
     (case levelScalar R wanted (ord fs) of
        Some s \<Rightarrow> Some s
      | None \<Rightarrow> first_some (\<lambda>(key, value). findScalar R ord value wanted) (sortedEntries fs))"
| "findScalar R ord (JArr xs) wanted = first_some (\<lambda>item. findScalar R ord item wanted) xs"
| "findScalar R ord _ wanted = None"

definition findString :: "'r go_runtime_scheme \<Rightarrow> nat \<Rightarrow> response \<Rightarrow> string list \<Rightarrow> string option" where
  "findString R n r keys = findScalar R (rangeOrder R n) (doc r) (wantedKeys R keys)"

text \<open>A Go string result of a failed lookup is the empty string.\<close>

definition orEmpty :: "string option \<Rightarrow> string" where
  "orEmpty v = (case v of Some s \<Rightarrow> s | None \<Rightarrow> [])"

definition status :: "'r go_runtime_scheme \<Rightarrow> nat \<Rightarrow> response \<Rightarrow> string" where
  "status R n r = orEmpty (findString R n r statusKeys)"

definition message :: "'r go_runtime_scheme \<Rightarrow> nat \<Rightarrow> response \<Rightarrow> string" where
  "message R n r = orEmpty (findString R n r messageKeys)"

definition failureHints :: "string list" where
  "failureHints = [''failed'', ''failure'', ''error'', ''invalid'', ''not found'', ''denied'', ''unable to'']"

definition hasFailureMessage :: "'r go_runtime_scheme \<Rightarrow> nat \<Rightarrow> response \<Rightarrow> bool" where
  "hasFailureMessage R n r =
     (let msg = toLower R (message R n r)
      in if msg = [] then False else list_ex (\<lambda>hint. contains msg hint) failureHints)"

definition succeeded :: "'r go_runtime_scheme \<Rightarrow> nat \<Rightarrow> response \<Rightarrow> bool" where
  "succeeded R n r =
     (let st = trimSpace (toLower R (status R n r))
      in if st = [] then \<not> hasFailureMessage R (Suc n) r
         else st \<in> set [''success'', ''successful'', ''ok'', ''true'', ''200''])"

fun collectWalk :: "json \<Rightarrow> string list" where
  "collectWalk (JStr s) = [s]"
| "collectWalk (JObj fs) = concat (map (\<lambda>(key, value). collectWalk value) (sortedEntries fs))"
| "collectWalk (JArr xs) = concat (map collectWalk xs)"
| "collectWalk _ = []"

definition collectStrings :: "response \<Rightarrow> string list" where
  "collectStrings r = collectWalk (doc r)"

text \<open>What an entry of an object contributes to \<^verbatim>\<open>collectStringsFor\<close>.\<close>

definition wantedScalar :: "'r go_runtime_scheme \<Rightarrow> string list \<Rightarrow> string \<Rightarrow> json \<Rightarrow> string list" where
  "wantedScalar R wanted key value =
     (if isWanted R wanted key then (case scalarString R value of Some s \<Rightarrow> [s] | None \<Rightarrow> []) else [])"

fun collectForWalk :: "'r go_runtime_scheme \<Rightarrow> string list \<Rightarrow> json \<Rightarrow> string list" where
  "collectForWalk R wanted (JObj fs) =
     concat (map (\<lambda>(key, value). wantedScalar R wanted key value @ collectForWalk R wanted value) (sortedEntries fs))"
| "collectForWalk R wanted (JArr xs) = concat (map (collectForWalk R wanted) xs)"
| "collectForWalk R wanted _ = []"

definition collectStringsFor :: "'r go_runtime_scheme \<Rightarrow> response \<Rightarrow> string list \<Rightarrow> string list" where
  "collectStringsFor R r keys = collectForWalk R (wantedKeys R keys) (doc r)"

text \<open>\<^verbatim>\<open>recordMatches\<close>: some name field of the object holds the common name.\<close>

definition recordMatches :: "'r go_runtime_scheme \<Rightarrow> fields \<Rightarrow> string list \<Rightarrow> string \<Rightarrow> bool" where
  "recordMatches R record nameKeys commonName =
     list_ex (\<lambda>(key, value). isWanted R nameKeys key
        \<and> (case scalarString R value of
             None \<Rightarrow> False | Some name \<Rightarrow> equalFold R (trimSpace name) commonName)) record"

text \<open>The variables \<^verbatim>\<open>best\<close>, \<^verbatim>\<open>bestValue\<close> and \<^verbatim>\<open>found\<close> of \<^verbatim>\<open>findIDForCommonName\<close>.\<close>

record idScan =
  best :: string
  bestValue :: int
  found :: bool

definition considerID :: "string \<Rightarrow> idScan \<Rightarrow> idScan" where
  "considerID i st =
     (let st = st\<lparr>found := True\<rparr> in
      case parseInt64 i of
        Some numeric \<Rightarrow> if bestValue st < numeric then st\<lparr>bestValue := numeric, best := i\<rparr> else st
      | None \<Rightarrow> if bestValue st < 0 \<and> best st = [] then st\<lparr>best := i\<rparr> else st)"

definition scanRecord :: "'r go_runtime_scheme \<Rightarrow> string list \<Rightarrow> fields \<Rightarrow> idScan \<Rightarrow> idScan" where
  "scanRecord R wantedIDs es st =
     fold (\<lambda>(key, value) st.
        if isWanted R wantedIDs key
        then (case scalarString R value of None \<Rightarrow> st | Some i \<Rightarrow> considerID i st)
        else st) es st"

fun walkIDs :: "'r go_runtime_scheme \<Rightarrow> (fields \<Rightarrow> fields) \<Rightarrow> string list \<Rightarrow> string list \<Rightarrow> string
    \<Rightarrow> json \<Rightarrow> idScan \<Rightarrow> idScan" where
  "walkIDs R ord wantedIDs wantedNames commonName (JObj fs) st =
     (let st = (if recordMatches R fs wantedNames commonName then scanRecord R wantedIDs (ord fs) st else st)
      in fold (\<lambda>(key, value) st. walkIDs R ord wantedIDs wantedNames commonName value st) (sortedEntries fs) st)"
| "walkIDs R ord wantedIDs wantedNames commonName (JArr xs) st =
     fold (\<lambda>item st. walkIDs R ord wantedIDs wantedNames commonName item st) xs st"
| "walkIDs R ord wantedIDs wantedNames commonName _ st = st"

definition findIDForCommonName ::
    "'r go_runtime_scheme \<Rightarrow> nat \<Rightarrow> response \<Rightarrow> string \<Rightarrow> string list \<Rightarrow> string list \<Rightarrow> string option" where
  "findIDForCommonName R n r commonName idKeys nameKeys =
     (if commonName = [] then None
      else let st = walkIDs R (rangeOrder R n) (wantedKeys R idKeys) (wantedKeys R nameKeys) commonName (doc r)
                      \<lparr>best = [], bestValue = -1, found = False\<rparr>
           in if found st \<and> best st \<noteq> [] then Some (best st) else None)"

section \<open>Reordering a document\<close>

lemma map_fst_sortedEntries: "map fst (sortedEntries m) = sortedKeys m"
  unfolding sortedEntries_def sortedKeys_def
  by (rule properties_for_sort [symmetric]) (simp_all add: mset_map [symmetric] del: mset_map, metis mset_map mset_sort)

text \<open>All objects, all entries and all nodes of a document, at any depth.\<close>

fun fieldsOf :: "json \<Rightarrow> fields" where
  "fieldsOf (JObj fs) = fs @ concat (map (\<lambda>(key, value). fieldsOf value) fs)"
| "fieldsOf (JArr xs) = concat (map fieldsOf xs)"
| "fieldsOf _ = []"

fun objectsOf :: "json \<Rightarrow> fields list" where
  "objectsOf (JObj fs) = fs # concat (map (\<lambda>(key, value). objectsOf value) fs)"
| "objectsOf (JArr xs) = concat (map objectsOf xs)"
| "objectsOf _ = []"

fun nodesOf :: "json \<Rightarrow> json list" where
  "nodesOf (JObj fs) = JObj fs # concat (map (\<lambda>(key, value). nodesOf value) fs)"
| "nodesOf (JArr xs) = JArr xs # concat (map nodesOf xs)"
| "nodesOf d = [d]"

text \<open>
  The canonical form of a document: the entries of every object in key order. Two documents
  with the same canonical form are the same Go value.
\<close>

fun canon :: "json \<Rightarrow> json" where
  "canon (JObj fs) = JObj (sortedEntries (map (\<lambda>(key, value). (key, canon value)) fs))"
| "canon (JArr xs) = JArr (map canon xs)"
| "canon d = d"

lemma sortedEntries_map:
  "sortedEntries (map (\<lambda>(k, v). (k, f v)) fs) = map (\<lambda>(k, v). (k, f v)) (sortedEntries fs)"
  by (simp add: sortedEntries_def sort_key_map_snd)

lemma sortedEntries_idem [simp]: "sortedEntries (sortedEntries fs) = sortedEntries fs"
  by (simp add: sortedEntries_def sort_key_id_if_sorted sorted_sort_key)

text \<open>
  The interface of the depth-first walks that collect values: an object contributes, entry
  by entry in key order, what the entry itself holds and what is below it; an array what its
  elements hold; a scalar what \<open>leaf\<close> says. Such a walk depends only on the Go value, not on
  the order in which the entries are stored, and it misses nothing.
\<close>

locale doc_walk =
  fixes walk :: "json \<Rightarrow> 'a list"
    and own :: "string \<Rightarrow> json \<Rightarrow> 'a list"
    and leaf :: "json \<Rightarrow> 'a list"
  assumes walk_obj: "walk (JObj fs) = concat (map (\<lambda>(k, v). own k v @ walk v) (sortedEntries fs))"
    and walk_arr: "walk (JArr xs) = concat (map walk xs)"
    and walk_leaf: "\<nexists>fs. d = JObj fs \<Longrightarrow> \<nexists>xs. d = JArr xs \<Longrightarrow> walk d = leaf d"
    and leaf_compound: "leaf (JObj fs) = []" "leaf (JArr xs) = []"
    and own_canon: "own k (canon v) = own k v"
begin

lemma walk_canon: "walk (canon d) = walk d"
proof (induction d rule: canon.induct)
  case (1 fs)
  have "concat (map (\<lambda>(k, v). own k v @ walk v) (map (\<lambda>(k, v). (k, canon v)) (sortedEntries fs)))
      = concat (map (\<lambda>(k, v). own k v @ walk v) (sortedEntries fs))"
    using 1 by (intro arg_cong [where f = concat]) (force simp: own_canon)
  then show ?case by (simp add: walk_obj sortedEntries_map)
next
  case (2 xs)
  then show ?case by (simp add: walk_arr cong: map_cong)
qed simp_all

lemma walk_same: "canon d = canon d' \<Longrightarrow> walk d = walk d'"
  by (metis walk_canon)

lemma walk_members:
  "x \<in> set (walk d) \<longleftrightarrow>
     (\<exists>v \<in> set (nodesOf d). x \<in> set (leaf v)) \<or> (\<exists>(k, v) \<in> set (fieldsOf d). x \<in> set (own k v))"
proof (induction d rule: canon.induct)
  case (1 fs)
  then show ?case by (simp add: walk_obj leaf_compound) (fastforce simp: leaf_compound)
next
  case (2 xs)
  then show ?case by (simp add: walk_arr leaf_compound) blast
qed (simp_all add: walk_leaf)

end

interpretation collect: doc_walk collectWalk "\<lambda>k v. []" "\<lambda>d. case d of JStr s \<Rightarrow> [s] | _ \<Rightarrow> []"
proof unfold_locales
  fix d assume "\<nexists>fs. d = JObj fs" "\<nexists>xs. d = JArr xs"
  then show "collectWalk d = (case d of JStr s \<Rightarrow> [s] | _ \<Rightarrow> [])" by (cases d) auto
qed simp_all

lemma scalarString_canon [simp]: "scalarString R (canon v) = scalarString R v"
  by (cases v) auto

interpretation collectFor: doc_walk "collectForWalk R wanted" "wantedScalar R wanted" "\<lambda>d. []"
  for R :: "'r go_runtime_scheme" and wanted
proof unfold_locales
  fix d assume "\<nexists>fs. d = JObj fs" "\<nexists>xs. d = JArr xs"
  then show "collectForWalk R wanted d = []" by (cases d) auto
qed (simp_all add: wantedScalar_def)

section \<open>The search for a field\<close>

abbreviation visits_all :: "(fields \<Rightarrow> fields) \<Rightarrow> bool" where
  "visits_all ord \<equiv> \<forall>fs. mset (ord fs) = mset fs"

lemma visits_all_set: "visits_all ord \<Longrightarrow> set (ord fs) = set fs"
  by (metis mset_eq_setD)

text \<open>An entry that answers a search for \<open>wanted\<close>, with the string it answers.\<close>

definition answers :: "'r go_runtime_scheme \<Rightarrow> string list \<Rightarrow> string \<times> json \<Rightarrow> string option" where
  "answers R wanted = (\<lambda>(key, value). if isWanted R wanted key then scalarString R value else None)"

lemma set_wantedScalar: "set (wantedScalar R wanted k v) = set_option (answers R wanted (k, v))"
  by (cases "isWanted R wanted k"; cases "scalarString R v") (simp_all add: wantedScalar_def answers_def)

lemma levelScalar_answers: "levelScalar R wanted es = first_some (answers R wanted) es"
  by (simp add: levelScalar_def answers_def)

lemma levelScalar_None:
  "visits_all ord \<Longrightarrow> levelScalar R wanted (ord fs) = None \<longleftrightarrow> (\<forall>p \<in> set fs. answers R wanted p = None)"
  by (simp add: levelScalar_answers first_some_None visits_all_set)

lemma levelScalar_SomeD:
  "visits_all ord \<Longrightarrow> levelScalar R wanted (ord fs) = Some s \<Longrightarrow> \<exists>p \<in> set fs. answers R wanted p = Some s"
  by (metis levelScalar_answers first_some_SomeD visits_all_set)

lemma findScalar_sound:
  "visits_all ord \<Longrightarrow> findScalar R ord d wanted = Some s \<Longrightarrow> \<exists>p \<in> set (fieldsOf d). answers R wanted p = Some s"
proof (induction R ord d wanted rule: findScalar.induct)
  case (1 R ord fs wanted)
  show ?case
  proof (cases "levelScalar R wanted (ord fs)")
    case None
    with 1(3) obtain k v where "(k, v) \<in> set fs" and "findScalar R ord v wanted = Some s"
      by (auto dest: first_some_SomeD)
    with 1(1) [OF None, of "(k, v)" k v] 1(2) None show ?thesis by fastforce
  next
    case (Some t)
    with 1(2,3) levelScalar_SomeD [OF 1(2) Some] show ?thesis by auto
  qed
next
  case (2 R ord xs wanted)
  from 2(3) obtain x where "x \<in> set xs" and "findScalar R ord x wanted = Some s"
    by (auto dest: first_some_SomeD)
  with 2(1) [of x] 2(2) show ?case by fastforce
qed auto

lemma findScalar_complete:
  "visits_all ord \<Longrightarrow> findScalar R ord d wanted = None \<Longrightarrow> p \<in> set (fieldsOf d) \<Longrightarrow> answers R wanted p = None"
proof (induction R ord d wanted rule: findScalar.induct)
  case (1 R ord fs wanted)
  from 1(3) have none: "levelScalar R wanted (ord fs) = None" by (auto split: option.splits)
  show ?case
  proof (cases "p \<in> set fs")
    case True
    with none 1(2) show ?thesis by (simp add: levelScalar_None)
  next
    case False
    with 1(4) obtain k v where "(k, v) \<in> set fs" and "p \<in> set (fieldsOf v)" by auto
    moreover from this 1(3) none have "findScalar R ord v wanted = None"
      by (auto simp: first_some_None)
    ultimately show ?thesis using 1(1) [OF none, of "(k, v)" k v] 1(2) by simp
  qed
next
  case (2 R ord xs wanted)
  then show ?case by (auto simp: first_some_None)
qed auto

text \<open>At every level, all entries that answer give the same answer.\<close>

fun unambiguous :: "'r go_runtime_scheme \<Rightarrow> string list \<Rightarrow> json \<Rightarrow> bool" where
  "unambiguous R wanted (JObj fs) =
     ((\<forall>p \<in> set fs. \<forall>q \<in> set fs. answers R wanted p = None \<or> answers R wanted q = None
         \<or> answers R wanted p = answers R wanted q)
      \<and> (\<forall>p \<in> set fs. unambiguous R wanted (snd p)))"
| "unambiguous R wanted (JArr xs) = (\<forall>x \<in> set xs. unambiguous R wanted x)"
| "unambiguous R wanted _ = True"

lemma levelScalar_order:
  assumes "visits_all ord" and "visits_all ord'"
    and "\<And>p q. p \<in> set fs \<Longrightarrow> q \<in> set fs \<Longrightarrow> answers R wanted p \<noteq> None \<Longrightarrow> answers R wanted q \<noteq> None
       \<Longrightarrow> answers R wanted p = answers R wanted q"
  shows "levelScalar R wanted (ord fs) = levelScalar R wanted (ord' fs)"
proof (cases "levelScalar R wanted (ord fs)")
  case None
  with assms(1,2) show ?thesis using levelScalar_None by metis
next
  case (Some s)
  then obtain p where p: "p \<in> set fs" "answers R wanted p = Some s"
    using levelScalar_SomeD [OF assms(1)] by blast
  have "first_some (answers R wanted) (ord' fs) = Some s"
  proof (rule first_some_unique)
    show "p \<in> set (ord' fs)" using p(1) assms(2) by (simp add: visits_all_set)
    fix q assume "q \<in> set (ord' fs)" "answers R wanted q \<noteq> None"
    then show "answers R wanted q = Some s"
      using assms(3) [of q p] p assms(2) by (simp add: visits_all_set)
  qed (fact p(2))
  with Some show ?thesis by (simp add: levelScalar_answers)
qed

lemma findScalar_order:
  "visits_all ord \<Longrightarrow> visits_all ord' \<Longrightarrow> unambiguous R wanted d
   \<Longrightarrow> findScalar R ord d wanted = findScalar R ord' d wanted"
proof (induction R ord d wanted rule: findScalar.induct)
  case (1 R ord fs wanted)
  have lv: "levelScalar R wanted (ord fs) = levelScalar R wanted (ord' fs)"
    using 1(4) by (intro levelScalar_order [OF 1(2,3)]) (force simp: answers_def)
  show ?case
  proof (cases "levelScalar R wanted (ord fs)")
    case None
    have "first_some (\<lambda>(k, v). findScalar R ord v wanted) (sortedEntries fs)
        = first_some (\<lambda>(k, v). findScalar R ord' v wanted) (sortedEntries fs)"
      using 1(1) [OF None] 1(2,3,4) by (intro first_some_cong) auto
    with lv None show ?thesis by simp
  qed (use lv in simp)
next
  case (2 R ord xs wanted)
  then show ?case by (auto intro!: first_some_cong)
qed auto

section \<open>The identifier of a record\<close>

text \<open>
  The identifiers \<^verbatim>\<open>findIDForCommonName\<close> considers, in the order it considers them.
\<close>

definition recordIDs :: "'r go_runtime_scheme \<Rightarrow> string list \<Rightarrow> fields \<Rightarrow> string list" where
  "recordIDs R wantedIDs es = concat (map (\<lambda>(k, v). wantedScalar R wantedIDs k v) es)"

fun candidateIDs :: "'r go_runtime_scheme \<Rightarrow> (fields \<Rightarrow> fields) \<Rightarrow> string list \<Rightarrow> string list \<Rightarrow> string
    \<Rightarrow> json \<Rightarrow> string list" where
  "candidateIDs R ord ids names cn (JObj fs) =
     (if recordMatches R fs names cn then recordIDs R ids (ord fs) else [])
     @ concat (map (\<lambda>(k, v). candidateIDs R ord ids names cn v) (sortedEntries fs))"
| "candidateIDs R ord ids names cn (JArr xs) = concat (map (candidateIDs R ord ids names cn) xs)"
| "candidateIDs R ord ids names cn _ = []"

text \<open>An identifier that a record of the document holds next to the common name.\<close>

definition idOfMatch :: "'r go_runtime_scheme \<Rightarrow> string list \<Rightarrow> string list \<Rightarrow> string \<Rightarrow> json \<Rightarrow> string \<Rightarrow> bool" where
  "idOfMatch R ids names cn d i \<longleftrightarrow>
     (\<exists>rec \<in> set (objectsOf d). recordMatches R rec names cn \<and> i \<in> set (recordIDs R ids rec))"

lemma scanRecord_fold: "scanRecord R ids es st = fold considerID (recordIDs R ids es) st"
  by (induction es arbitrary: st) (auto simp: scanRecord_def recordIDs_def wantedScalar_def split: option.splits)

lemma fold_concat_map:
  "(\<And>x st. x \<in> set xs \<Longrightarrow> f x st = fold g (h x) st) \<Longrightarrow> fold f xs st = fold g (concat (map h xs)) st"
  by (induction xs arbitrary: st) auto

lemma walkIDs_fold:
  "walkIDs R ord ids names cn d st = fold considerID (candidateIDs R ord ids names cn d) st"
proof (induction R ord ids names cn d arbitrary: st rule: candidateIDs.induct)
  case (1 R ord ids names cn fs)
  have "fold (\<lambda>(k, v) st. walkIDs R ord ids names cn v st) (sortedEntries fs) st'
      = fold considerID (concat (map (\<lambda>(k, v). candidateIDs R ord ids names cn v) (sortedEntries fs))) st'" for st'
    using 1 by (intro fold_concat_map) auto
  then show ?case by (simp add: scanRecord_fold Let_def)
next
  case (2 R ord ids names cn xs)
  then have "fold (\<lambda>x. walkIDs R ord ids names cn x) xs st
      = fold considerID (concat (map (candidateIDs R ord ids names cn) xs)) st"
    by (intro fold_concat_map) auto
  then show ?case by simp
qed simp_all

lemma set_recordIDs_order: "visits_all ord \<Longrightarrow> set (recordIDs R ids (ord fs)) = set (recordIDs R ids fs)"
  by (simp add: recordIDs_def visits_all_set)

lemma candidateIDs_members:
  "visits_all ord \<Longrightarrow> i \<in> set (candidateIDs R ord ids names cn d) \<longleftrightarrow> idOfMatch R ids names cn d i"
proof (induction R ord ids names cn d rule: candidateIDs.induct)
  case (1 R ord ids names cn fs)
  have IH: "i \<in> set (candidateIDs R ord ids names cn v) \<longleftrightarrow> idOfMatch R ids names cn v i"
    if "(k, v) \<in> set fs" for k v using that 1 by fastforce
  have "i \<in> set (candidateIDs R ord ids names cn (JObj fs))
      \<longleftrightarrow> (recordMatches R fs names cn \<and> i \<in> set (recordIDs R ids fs))
        \<or> (\<exists>k v. (k, v) \<in> set fs \<and> i \<in> set (candidateIDs R ord ids names cn v))"
    using 1(2) by (auto simp: set_recordIDs_order)
  also have "\<dots> \<longleftrightarrow> (recordMatches R fs names cn \<and> i \<in> set (recordIDs R ids fs))
        \<or> (\<exists>k v. (k, v) \<in> set fs \<and> idOfMatch R ids names cn v i)"
    using IH by blast
  also have "\<dots> \<longleftrightarrow> idOfMatch R ids names cn (JObj fs) i"
    unfolding idOfMatch_def by fastforce
  finally show ?case .
next
  case (2 R ord ids names cn xs)
  then show ?case by (auto simp: idOfMatch_def)
qed (simp_all add: idOfMatch_def)

text \<open>The state of the scan after the identifiers \<open>xs\<close>: the largest number wins, then the first name.\<close>

definition scanned :: "string list \<Rightarrow> idScan \<Rightarrow> bool" where
  "scanned xs st \<longleftrightarrow>
     (found st \<longleftrightarrow> xs \<noteq> []) \<and>
     (if bestValue st < 0
      then bestValue st = -1
         \<and> (\<forall>x \<in> set xs. \<forall>m. parseInt64 x = Some m \<longrightarrow> m < 0)
         \<and> (best st \<noteq> [] \<longrightarrow> best st \<in> set xs \<and> parseInt64 (best st) = None)
         \<and> (best st = [] \<longrightarrow> (\<forall>x \<in> set xs. x = [] \<or> parseInt64 x \<noteq> None))
      else best st \<in> set xs \<and> parseInt64 (best st) = Some (bestValue st)
         \<and> (\<forall>x \<in> set xs. \<forall>m. parseInt64 x = Some m \<longrightarrow> m \<le> bestValue st))"

lemma scanned_consider: "scanned xs st \<Longrightarrow> scanned (xs @ [i]) (considerID i st)"
proof (cases "parseInt64 i")
  case None
  assume "scanned xs st"
  with None show ?thesis
    by (cases "bestValue st < 0") (auto simp: scanned_def considerID_def Let_def)
next
  case (Some m)
  assume "scanned xs st"
  with Some show ?thesis
    by (cases "bestValue st < 0"; cases "bestValue st < m") (fastforce simp: scanned_def considerID_def Let_def)+
qed

lemma scanned_fold: "scanned xs (fold considerID xs \<lparr>best = [], bestValue = -1, found = False\<rparr>)"
proof (induction xs rule: rev_induct)
  case Nil
  then show ?case by (simp add: scanned_def)
next
  case (snoc x xs)
  then show ?case by (simp add: scanned_consider)
qed

section \<open>Properties of the response queries\<close>

lemma range_visits: "range_visits_all (rangeOrder R) \<Longrightarrow> visits_all (rangeOrder R n)"
  by (simp add: range_visits_all_def)

lemma range_visits_ascii [simp]: "range_visits_all (rangeOrder ascii_runtime)"
  by (simp add: range_visits_all_def ascii_runtime_def)

text \<open>
  \<^verbatim>\<open>findString\<close> searches the whole document: it finds nothing exactly when no entry at any
  depth has a wanted key and a scalar value, and a string it finds is the value of such an
  entry, in whatever order the maps are visited.
\<close>

theorem findString_spec:
  assumes "range_visits_all (rangeOrder R)"
  shows "case findString R n r keys of
      None \<Rightarrow> \<forall>p \<in> set (fieldsOf (doc r)). answers R (wantedKeys R keys) p = None
    | Some s \<Rightarrow> \<exists>p \<in> set (fieldsOf (doc r)). answers R (wantedKeys R keys) p = Some s"
  using findScalar_sound [OF range_visits [OF assms]] findScalar_complete [OF range_visits [OF assms]]
  by (auto simp: findString_def split: option.splits)

definition example_response :: response where
  "example_response = \<lparr>doc = JObj [(''Details'', JObj [(''csrId'', JStr ''17'')])], body = []\<rparr>"

theorem findString_spec_witness:
  "findString ascii_runtime 0 example_response [''CSR_ID''] = Some ''17''
   \<and> (\<exists>p \<in> set (fieldsOf (doc example_response)).
        answers ascii_runtime (wantedKeys ascii_runtime [''CSR_ID'']) p = Some ''17'')"
proof -
  have e: "findString ascii_runtime 0 example_response [''CSR_ID''] = Some ''17''" by code_simp
  with findString_spec [OF range_visits_ascii, where n = 0 and r = example_response and keys = "[''CSR_ID'']"] show ?thesis by simp
qed

text \<open>
  C27. Where no object has two entries that answer a search differently, every search for the
  same keys gives the same string, in whatever order the runtime visits the maps.
\<close>

theorem findString_deterministic:
  assumes "range_visits_all (rangeOrder R)" and "unambiguous R (wantedKeys R keys) (doc r)"
  shows "findString R n r keys = findString R n' r keys"
  using findScalar_order [OF range_visits [OF assms(1)] range_visits [OF assms(1)] assms(2)]
  by (simp add: findString_def)

definition rev_runtime :: go_runtime where
  "rev_runtime = ascii_runtime\<lparr>rangeOrder := (\<lambda>n fs. if even n then fs else rev fs)\<rparr>"

lemma range_visits_rev [simp]: "range_visits_all (rangeOrder rev_runtime)"
  by (simp add: range_visits_all_def rev_runtime_def)

theorem findString_deterministic_witness:
  "findString rev_runtime 1 example_response [''CSR_ID''] = Some ''17''"
proof -
  have "unambiguous rev_runtime (wantedKeys rev_runtime [''CSR_ID'']) (doc example_response)" by code_simp
  from findString_deterministic [OF range_visits_rev this, of 1 0]
  have "findString rev_runtime 1 example_response [''CSR_ID''] = findString rev_runtime 0 example_response [''CSR_ID'']" .
  moreover have "findString rev_runtime 0 example_response [''CSR_ID''] = Some ''17''" by code_simp
  ultimately show ?thesis by simp
qed

text \<open>
  What a status text says of the outcome: nothing when it is blank, else success exactly for the
  words of \<^verbatim>\<open>succeeded\<close>.
\<close>

definition statusOutcome :: "'r go_runtime_scheme \<Rightarrow> string \<Rightarrow> bool option" where
  "statusOutcome R s = (let t = trimSpace (toLower R (trimSpace s)) in
     if t = [] then None else Some (t \<in> {''success'', ''successful'', ''ok'', ''true'', ''200''}))"

lemma status_wanted: "isWanted R (wantedKeys R statusKeys) ''status''" "isWanted R (wantedKeys R statusKeys) ''result''"
  by code_simp+

text \<open>A \<^verbatim>\<open>range\<close> that meets one entry before the others.\<close>

definition visitFirst :: "string \<times> json \<Rightarrow> fields \<Rightarrow> fields" where
  "visitFirst e fs = (if e \<in> set fs then e # remove1 e fs else fs)"

lemma visitFirst_visits: "visits_all (visitFirst e)"
  by (simp add: visitFirst_def)

lemma succeeded_first:
  fixes R :: "'r go_runtime_scheme"
  assumes "doc r = JObj fs" and "(k, JStr s) \<in> set fs" and "isWanted R (wantedKeys R statusKeys) k"
    and "rangeOrder R n = visitFirst (k, JStr s)" and "statusOutcome R s = Some x"
  shows "succeeded R n r = x"
proof -
  have "trimSpace (toLower R []) = []" by code_simp
  then have "trimSpace s \<noteq> []" using assms(5) by (auto simp: statusOutcome_def)
  then have "status R n r = trimSpace s"
    using assms(1-4) by (simp add: status_def findString_def visitFirst_def levelScalar_def orEmpty_def)
  with assms(5) show ?thesis by (auto simp: succeeded_def statusOutcome_def Let_def split: if_splits)
qed

text \<open>
  C28. Without that condition the outcome is left to the runtime. Take any object that carries a
  \<^verbatim>\<open>status\<close> and a \<^verbatim>\<open>result\<close>, one saying success and the other not, beside whatever else: a runtime
  that meets the one first on one call and the other on the next counts the same response as a
  success and then as a failure.
\<close>

theorem succeeded_depends_on_map_order:
  fixes R :: "'r go_runtime_scheme"
  assumes "doc r = JObj fs" and "(''status'', JStr a) \<in> set fs" and "(''result'', JStr b) \<in> set fs"
    and "{statusOutcome R a, statusOutcome R b} = {Some True, Some False}"
  shows "\<exists>ord. range_visits_all ord \<and> succeeded (R\<lparr>rangeOrder := ord\<rparr>) 0 r \<and> \<not> succeeded (R\<lparr>rangeOrder := ord\<rparr>) 1 r"
proof -
  have "toLower (R\<lparr>rangeOrder := ord\<rparr>) s = toLower R s" for ord s by (simp add: toLower_def cong: if_cong)
  then have other: "statusOutcome (R\<lparr>rangeOrder := ord\<rparr>) s = statusOutcome R s" for ord s
    by (simp only: statusOutcome_def)
  have both: "\<exists>ord. range_visits_all ord \<and> succeeded (R\<lparr>rangeOrder := ord\<rparr>) 0 r \<and> \<not> succeeded (R\<lparr>rangeOrder := ord\<rparr>) 1 r"
    if "(k, JStr s) \<in> set fs" "k \<in> {''status'', ''result''}" "statusOutcome R s = Some True"
      "(l, JStr t) \<in> set fs" "l \<in> {''status'', ''result''}" "statusOutcome R t = Some False" for k s l t
  proof (intro exI conjI)
    let ?o = "\<lambda>n :: nat. if even n then visitFirst (k, JStr s) else visitFirst (l, JStr t)"
    let ?R = "R\<lparr>rangeOrder := ?o\<rparr>"
    show "range_visits_all ?o" by (simp add: range_visits_all_def visitFirst_visits)
    have w: "isWanted ?R (wantedKeys ?R statusKeys) k" "isWanted ?R (wantedKeys ?R statusKeys) l"
      using that(2,5) status_wanted [of ?R] by auto
    show "succeeded ?R 0 r" by (rule succeeded_first [OF assms(1) that(1) w(1), THEN iffD2]) (simp_all add: other that(3))
    have "succeeded ?R 1 r = False" by (rule succeeded_first [OF assms(1) that(4) w(2)]) (simp_all add: other that(6))
    then show "\<not> succeeded ?R 1 r" by simp
  qed
  from assms(4) consider "statusOutcome R a = Some True" "statusOutcome R b = Some False"
    | "statusOutcome R a = Some False" "statusOutcome R b = Some True" by (auto simp: doubleton_eq_iff)
  then show ?thesis using both assms(2,3) by cases blast+
qed

theorem succeeded_depends_on_map_order_witness:
  "\<exists>ord. range_visits_all ord \<and> (let R = ascii_runtime\<lparr>rangeOrder := ord\<rparr>;
      r = \<lparr>doc = JObj [(''status'', JStr ''Success''), (''result'', JStr ''Failed'')], body = []\<rparr>
    in succeeded R 0 r \<and> \<not> succeeded R 1 r)"
proof -
  have "statusOutcome ascii_runtime ''Success'' = Some True" "statusOutcome ascii_runtime ''Failed'' = Some False" by code_simp+
  then show ?thesis
    using succeeded_depends_on_map_order [of "\<lparr>doc = JObj [(''status'', JStr ''Success''), (''result'', JStr ''Failed'')], body = []\<rparr>"
        "[(''status'', JStr ''Success''), (''result'', JStr ''Failed'')]" "''Success''" "''Failed''" ascii_runtime]
    by (simp add: Let_def)
qed

lemma findIDForCommonName_facts:
  fixes R :: "'r go_runtime_scheme" and r and cn and idKeys and nameKeys
  assumes "range_visits_all (rangeOrder R)"
  defines "isID \<equiv> idOfMatch R (wantedKeys R idKeys) (wantedKeys R nameKeys) cn (doc r)"
  shows "(case findIDForCommonName R n r cn idKeys nameKeys of
        Some i \<Rightarrow> isID i \<and> i \<noteq> [] \<and> (case parseInt64 i of
            Some k \<Rightarrow> 0 \<le> k \<and> (\<forall>j m. isID j \<longrightarrow> parseInt64 j = Some m \<longrightarrow> m \<le> k)
          | None \<Rightarrow> (\<forall>j m. isID j \<longrightarrow> parseInt64 j = Some m \<longrightarrow> m < 0))
      | None \<Rightarrow> cn = [] \<or> (\<forall>j. isID j \<longrightarrow> j = [] \<or> (\<exists>m. parseInt64 j = Some m \<and> m < 0)))"
proof -
  let ?ids = "candidateIDs R (rangeOrder R n) (wantedKeys R idKeys) (wantedKeys R nameKeys) cn (doc r)"
  let ?st = "fold considerID ?ids \<lparr>best = [], bestValue = -1, found = False\<rparr>"
  have mem: "i \<in> set ?ids \<longleftrightarrow> isID i" for i
    unfolding isID_def by (rule candidateIDs_members [OF range_visits [OF assms(1)]])
  have sc: "scanned ?ids ?st" by (rule scanned_fold)
  have eq: "findIDForCommonName R n r cn idKeys nameKeys =
      (if cn = [] then None else if found ?st \<and> best ?st \<noteq> [] then Some (best ?st) else None)"
    by (simp add: findIDForCommonName_def walkIDs_fold Let_def)
  show ?thesis
  proof (cases "bestValue ?st < 0")
    case True
    with sc show ?thesis unfolding eq scanned_def mem [symmetric]
      by (auto simp del: fold_simps)
  next
    case False
    moreover have "parseInt64 [] = None" by (simp add: parseInt64_def)
    ultimately show ?thesis using sc unfolding eq scanned_def mem [symmetric]
      by (auto simp del: fold_simps split: option.splits)
  qed
qed

lemma findIDForCommonName_found:
  assumes "range_visits_all (rangeOrder R)" and "findIDForCommonName R n r cn idKeys nameKeys = Some i"
    and "isID = idOfMatch R (wantedKeys R idKeys) (wantedKeys R nameKeys) cn (doc r)"
  shows "isID i" and "isID j \<Longrightarrow> parseInt64 j = Some m \<Longrightarrow> 0 \<le> m \<Longrightarrow> \<exists>k. parseInt64 i = Some k \<and> m \<le> k"
  using findIDForCommonName_facts [OF assms(1), where n = n and r = r and cn = cn and idKeys = idKeys and nameKeys = nameKeys] unfolding assms(2,3)
  by (auto split: option.splits)

text \<open>
  C26. The identifier \<^verbatim>\<open>findIDForCommonName\<close> returns stands in a record that names the common
  name and is not empty. When it is a number, it is not negative and the largest of all such
  identifiers; when it is not a number, no such identifier is a number but negative ones. Nothing
  is returned only when every identifier next to the common name is empty or a negative number.
\<close>

theorem findIDForCommonName_spec:
  fixes R :: "'r go_runtime_scheme" and r and cn and idKeys and nameKeys
  assumes "range_visits_all (rangeOrder R)"
  defines "isID \<equiv> idOfMatch R (wantedKeys R idKeys) (wantedKeys R nameKeys) cn (doc r)"
  shows "(case findIDForCommonName R n r cn idKeys nameKeys of
        Some i \<Rightarrow> isID i \<and> i \<noteq> [] \<and> (case parseInt64 i of
            Some k \<Rightarrow> 0 \<le> k \<and> (\<forall>j m. isID j \<longrightarrow> parseInt64 j = Some m \<longrightarrow> m \<le> k)
          | None \<Rightarrow> (\<forall>j m. isID j \<longrightarrow> parseInt64 j = Some m \<longrightarrow> m < 0))
      | None \<Rightarrow> cn = [] \<or> (\<forall>j. isID j \<longrightarrow> j = [] \<or> (\<exists>m. parseInt64 j = Some m \<and> m < 0)))"
  unfolding isID_def by (rule findIDForCommonName_facts [OF assms(1)])

definition example_list :: response where
  "example_list = \<lparr>doc = JArr [JObj [(''CSR_ID'', JStr ''301''), (''cn'', JStr ''b'')],
     JObj [(''CSR_ID'', JStr ''77''), (''cn'', JStr ''a'')], JObj [(''CSR_ID'', JStr ''302''), (''cn'', JStr ''A'')]], body = []\<rparr>"

theorem findIDForCommonName_spec_witness:
  "findIDForCommonName ascii_runtime 0 example_list ''a'' [''CSR_ID''] [''cn''] = Some ''302''
   \<and> idOfMatch ascii_runtime (wantedKeys ascii_runtime [''CSR_ID'']) (wantedKeys ascii_runtime [''cn'']) ''a''
       (doc example_list) ''302''"
proof -
  have e: "findIDForCommonName ascii_runtime 0 example_list ''a'' [''CSR_ID''] [''cn''] = Some ''302''" by code_simp
  from findIDForCommonName_spec [OF range_visits_ascii, where n = 0 and r = example_list and cn = "''a''"
      and idKeys = "[''CSR_ID'']" and nameKeys = "[''cn'']"]
  show ?thesis unfolding e by simp
qed

text \<open>
  \<^verbatim>\<open>collectStrings\<close> returns every string value of the document and nothing else, and
  depends on the document only, not on the order in which the entries of its maps are stored.
\<close>

theorem collectStrings_spec:
  "(s \<in> set (collectStrings r) \<longleftrightarrow> JStr s \<in> set (nodesOf (doc r)))
   \<and> collectStrings r = collectWalk (canon (doc r))"
proof -
  have "(\<exists>v \<in> set (nodesOf d). s \<in> set (case v of JStr s \<Rightarrow> [s] | _ \<Rightarrow> [])) \<longleftrightarrow> JStr s \<in> set (nodesOf d)" for d
    by (auto split: json.splits)
  then show ?thesis
    using collect.walk_members [of s "doc r"] collect.walk_canon [of "doc r"] by (simp add: collectStrings_def)
qed

text \<open>
  \<^verbatim>\<open>collectStringsFor\<close> returns exactly the scalars stored under the wanted keys, at any depth.
\<close>

theorem collectStringsFor_spec:
  "s \<in> set (collectStringsFor R r keys)
   \<longleftrightarrow> (\<exists>p \<in> set (fieldsOf (doc r)). answers R (wantedKeys R keys) p = Some s)"
proof -
  have "s \<in> set (wantedScalar R w k v) \<longleftrightarrow> answers R w (k, v) = Some s" for w k v
    by (simp add: set_wantedScalar)
  then have "(\<exists>(k, v) \<in> set fs. s \<in> set (wantedScalar R w k v)) \<longleftrightarrow> (\<exists>p \<in> set fs. answers R w p = Some s)" for w fs
    by (metis (mono_tags, lifting) case_prod_conv prod.exhaust)
  then show ?thesis by (simp add: collectStringsFor_def collectFor.walk_members)
qed

end
