(* ===== verification/Base64.thy ===== *)
theory Base64
  imports GoStrings
begin

text \<open>
  \<^verbatim>\<open>base64.StdEncoding\<close> and \<^verbatim>\<open>base64.RawURLEncoding\<close> of Go's \<^verbatim>\<open>encoding/base64\<close>, and \<^verbatim>\<open>pem.Encode\<close>
  of \<^verbatim>\<open>encoding/pem\<close>. Decoding skips carriage returns and line feeds and requires the padding.
\<close>

definition b64Alphabet :: string where
  "b64Alphabet = ''ABCDEFGHIJKLMNOPQRSTUVWXYZabcdefghijklmnopqrstuvwxyz0123456789+/''"

fun indexOf :: "'a \<Rightarrow> 'a list \<Rightarrow> nat option" where
  "indexOf x [] = None"
| "indexOf x (y # ys) = (if x = y then Some 0 else map_option Suc (indexOf x ys))"

definition b64Val :: "char \<Rightarrow> nat option" where
  "b64Val c = indexOf c b64Alphabet"

definition b64Char :: "nat \<Rightarrow> char" where
  "b64Char n = b64Alphabet ! (n mod 64)"

fun b64Encode :: "bytes \<Rightarrow> string" where
  "b64Encode [] = []"
| "b64Encode [a] = [b64Char (byte a div 4), b64Char (byte a mod 4 * 16), CHR ''='', CHR ''='']"
| "b64Encode [a, b] =
     [b64Char (byte a div 4), b64Char (byte a mod 4 * 16 + byte b div 16), b64Char (byte b mod 16 * 4), CHR ''='']"
| "b64Encode (a # b # c # rest) =
     b64Char (byte a div 4) # b64Char (byte a mod 4 * 16 + byte b div 16)
     # b64Char (byte b mod 16 * 4 + byte c div 64) # b64Char (byte c mod 64) # b64Encode rest"

fun b64Groups :: "string \<Rightarrow> bytes option" where
  "b64Groups [] = Some []"
| "b64Groups (w # x # y # z # rest) =
     (case (b64Val w, b64Val x) of
        (Some p, Some q) \<Rightarrow>
          (case b64Val y of
             Some r \<Rightarrow>
               (case b64Val z of
                  Some t \<Rightarrow> map_option (\<lambda>bs. chr (p * 4 + q div 16) # chr (q mod 16 * 16 + r div 4) # chr (r mod 4 * 64 + t) # bs)
                              (b64Groups rest)
                | None \<Rightarrow> if z = CHR ''='' \<and> rest = []
                          then Some [chr (p * 4 + q div 16), chr (q mod 16 * 16 + r div 4)] else None)
           | None \<Rightarrow> if y = CHR ''='' \<and> z = CHR ''='' \<and> rest = [] then Some [chr (p * 4 + q div 16)] else None)
      | _ \<Rightarrow> None)"
| "b64Groups _ = None"

definition b64Decode :: "string \<Rightarrow> bytes option" where
  "b64Decode s = b64Groups (filter (\<lambda>c. c \<noteq> CHR 0x0A \<and> c \<noteq> CHR 0x0D) s)"

text \<open>\<^verbatim>\<open>base64.RawURLEncoding.EncodeToString\<close>: the URL alphabet, no padding.\<close>

definition b64UrlEncode :: "bytes \<Rightarrow> string" where
  "b64UrlEncode bs =
     map (\<lambda>c. if c = CHR ''+'' then CHR ''-'' else if c = CHR ''/'' then CHR ''_'' else c)
       (filter (\<lambda>c. c \<noteq> CHR ''='') (b64Encode bs))"

section \<open>PEM\<close>

record pem_block =
  blockType :: string
  blockHeaders :: "(string \<times> string) list"
  blockBytes :: bytes

function lines64 :: "string \<Rightarrow> string" where
  "lines64 s = (if s = [] then [] else take 64 s @ [CHR 0x0A] @ lines64 (drop 64 s))"
  by pat_completeness auto
termination
  by (relation "measure length") auto

declare lines64.simps [simp del]

text \<open>\<^verbatim>\<open>pem.Encode\<close> and \<^verbatim>\<open>pem.EncodeToMemory\<close> of a block without headers.\<close>

definition pemEncode :: "string \<Rightarrow> bytes \<Rightarrow> bytes" where
  "pemEncode typ bs =
     ''-----BEGIN '' @ typ @ ''-----'' @ [CHR 0x0A] @ lines64 (b64Encode bs)
     @ ''-----END '' @ typ @ ''-----'' @ [CHR 0x0A]"

section \<open>What is encoded is decoded\<close>

lemma indexOf_nth: "distinct xs \<Longrightarrow> n < length xs \<Longrightarrow> indexOf (xs ! n) xs = Some n"
  by (induction xs arbitrary: n) (auto simp: nth_Cons' in_set_conv_nth split: nat.splits)

lemma b64Alphabet_ok: "distinct b64Alphabet" "length b64Alphabet = 64" "CHR ''='' \<notin> set b64Alphabet"
  "CHR 0x0A \<notin> set b64Alphabet" "CHR 0x0D \<notin> set b64Alphabet"
  by code_simp+

lemma b64Val_b64Char: "n < 64 \<Longrightarrow> b64Val (b64Char n) = Some n"
  by (simp add: b64Val_def b64Char_def indexOf_nth b64Alphabet_ok)

lemma indexOf_None: "x \<notin> set xs \<Longrightarrow> indexOf x xs = None"
  by (induction xs) auto

lemma b64Val_pad [simp]: "b64Val CHR ''='' = None"
  by (simp add: b64Val_def indexOf_None b64Alphabet_ok)

lemma b64Char_in: "b64Char n \<in> set b64Alphabet"
  using b64Alphabet_ok(2) by (simp add: b64Char_def)

lemma byte_lt [simp]: "byte c < 256"
  by (rule nat_of_char_less_256)

lemma b64Char_no_break: "b64Char n \<noteq> CHR 0x0A" "b64Char n \<noteq> CHR 0x0D" "b64Char n \<noteq> CHR ''=''"
  using b64Char_in [of n] b64Alphabet_ok by metis+

lemma high_bits [simp]:
  "byte (c::char) div 16 div 16 = 0" "byte c div 16 mod 16 = byte c div 16"
  "byte c div 64 div 4 = 0" "byte c div 64 mod 4 = byte c div 64"
proof -
  have "byte c div 16 < 16" and "byte c div 64 < 4" using byte_lt [of c] by linarith+
  then show "byte c div 16 div 16 = 0" "byte c div 16 mod 16 = byte c div 16"
    "byte c div 64 div 4 = 0" "byte c div 64 mod 4 = byte c div 64"
    by (simp_all only: div_less mod_less)
qed

lemma b64Groups_b64Encode: "b64Groups (b64Encode bs) = Some bs"
proof (induction bs rule: b64Encode.induct)
  case (2 a)
  have "byte a div 4 < 64" and "byte a mod 4 * 16 < 64" using byte_lt [of a] by linarith+
  moreover have "byte a div 4 * 4 + byte a mod 4 * 16 div 16 = byte a" by simp
  ultimately show ?case by (simp add: b64Val_b64Char)
next
  case (3 a b)
  have "byte a div 4 < 64" and "byte a mod 4 * 16 + byte b div 16 < 64" and "byte b mod 16 * 4 < 64"
    using byte_lt [of a] byte_lt [of b] by linarith+
  moreover have "byte a div 4 * 4 + (byte a mod 4 * 16 + byte b div 16) div 16 = byte a"
    and "(byte a mod 4 * 16 + byte b div 16) mod 16 * 16 + byte b mod 16 * 4 div 4 = byte b"
    by simp_all
  ultimately show ?case by (simp add: b64Val_b64Char)
next
  case (4 a b c rest)
  have "byte a div 4 < 64" and "byte a mod 4 * 16 + byte b div 16 < 64"
    and "byte b mod 16 * 4 + byte c div 64 < 64" and "byte c mod 64 < 64"
    using byte_lt [of a] byte_lt [of b] byte_lt [of c] by linarith+
  moreover have "byte a div 4 * 4 + (byte a mod 4 * 16 + byte b div 16) div 16 = byte a"
    and "(byte a mod 4 * 16 + byte b div 16) mod 16 * 16 + (byte b mod 16 * 4 + byte c div 64) div 4 = byte b"
    and "(byte b mod 16 * 4 + byte c div 64) mod 4 * 64 + byte c mod 64 = byte c"
    by simp_all
  ultimately show ?case using 4 by (simp add: b64Val_b64Char)
qed simp

lemma b64Encode_no_break: "c \<in> set (b64Encode bs) \<Longrightarrow> c \<noteq> CHR 0x0A \<and> c \<noteq> CHR 0x0D"
  by (induction bs rule: b64Encode.induct) (auto simp: b64Char_no_break)

lemma b64Decode_b64Encode: "b64Decode (b64Encode bs) = Some bs"
proof -
  have "filter (\<lambda>c. c \<noteq> CHR 0x0A \<and> c \<noteq> CHR 0x0D) (b64Encode bs) = b64Encode bs"
    using b64Encode_no_break by (intro filter_True) blast
  then show ?thesis by (simp add: b64Decode_def b64Groups_b64Encode)
qed


section \<open>A strict PEM reader\<close>

text \<open>
  A reader for exactly what \<^const>\<open>pemEncode\<close> writes, for evaluating definitions that take the
  PEM reader as an argument.
\<close>

definition stripPrefix :: "string \<Rightarrow> string \<Rightarrow> string option" where
  "stripPrefix p s = (if prefix p s then Some (drop (length p) s) else None)"

definition strictPem :: "bytes \<Rightarrow> (pem_block \<times> bytes) option" where
  "strictPem data =
     Option.bind (stripPrefix ''-----BEGIN '' data) (\<lambda>r1.
     let typ = takeWhile (\<lambda>c. c \<noteq> CHR ''-'') r1 in
     Option.bind (stripPrefix (''-----'' @ [CHR 0x0A]) (dropWhile (\<lambda>c. c \<noteq> CHR ''-'') r1)) (\<lambda>r2.
     let body = takeWhile (\<lambda>c. c \<noteq> CHR ''-'') r2 in
     Option.bind (stripPrefix (''-----END '' @ typ @ ''-----'' @ [CHR 0x0A]) (dropWhile (\<lambda>c. c \<noteq> CHR ''-'') r2))
       (\<lambda>rest.
     map_option (\<lambda>bs. (\<lparr>blockType = typ, blockHeaders = [], blockBytes = bs\<rparr>, rest)) (b64Decode body))))"

lemma stripPrefix_append [simp]: "stripPrefix p (p @ s) = Some s"
  by (simp add: stripPrefix_def)

lemma stripPrefix_Some: "stripPrefix p s = Some r \<Longrightarrow> length s = length p + length r"
  by (auto simp: stripPrefix_def prefix_def split: if_splits)

lemma strictPem_shorter: "strictPem data = Some (b, rest) \<Longrightarrow> length rest < length data"
proof -
  assume "strictPem data = Some (b, rest)"
  then obtain r1 r2 ty where 1: "stripPrefix ''-----BEGIN '' data = Some r1"
    and 2: "stripPrefix (''-----'' @ [CHR 0x0A]) (dropWhile (\<lambda>c. c \<noteq> CHR ''-'') r1) = Some r2"
    and 3: "stripPrefix (''-----END '' @ ty @ ''-----'' @ [CHR 0x0A]) (dropWhile (\<lambda>c. c \<noteq> CHR ''-'') r2) = Some rest"
    by (auto simp: strictPem_def Let_def bind_eq_Some_conv)
  show ?thesis
    using stripPrefix_Some [OF 1] stripPrefix_Some [OF 2] stripPrefix_Some [OF 3]
      length_dropWhile_le [of "\<lambda>c. c \<noteq> CHR ''-''" r1] length_dropWhile_le [of "\<lambda>c. c \<noteq> CHR ''-''" r2]
    by simp
qed

lemma lines64_filter: "CHR 0x0A \<notin> set s \<Longrightarrow> filter (\<lambda>c. c \<noteq> CHR 0x0A \<and> P c) (lines64 s) = filter P s"
proof (induction s rule: lines64.induct)
  case (1 s)
  have ps: "CHR 0x0A \<notin> set (take 64 s)" "CHR 0x0A \<notin> set (drop 64 s)"
    using 1(2) by (meson in_set_takeD in_set_dropD)+
  have "filter (\<lambda>c. c \<noteq> CHR 0x0A \<and> P c) (take 64 s) = filter P (take 64 s)"
    using ps(1) by (intro filter_cong) auto
  then have "filter (\<lambda>c. c \<noteq> CHR 0x0A \<and> P c) (lines64 s) = filter P (take 64 s) @ filter P (drop 64 s)" if "s \<noteq> []"
    using 1 that ps(2) by (subst lines64.simps) simp
  moreover have "filter P (take 64 s) @ filter P (drop 64 s) = filter P s"
    by (simp flip: filter_append)
  moreover have "lines64 [] = []" by (subst lines64.simps) simp
  ultimately show ?case by (cases "s = []") simp_all
qed

lemma lines64_set: "set (lines64 s) \<subseteq> insert (CHR 0x0A) (set s)"
proof (induction s rule: lines64.induct)
  case (1 s)
  then show ?case
    by (subst lines64.simps) (auto dest: in_set_takeD in_set_dropD)
qed

lemma b64Encode_set: "set (b64Encode bs) \<subseteq> insert CHR ''='' (set b64Alphabet)"
  by (induction bs rule: b64Encode.induct) (auto simp: b64Char_in)

lemma takeWhile_stop: "c \<notin> set xs \<Longrightarrow> takeWhile (\<lambda>x. x \<noteq> c) (xs @ c # ys) = xs"
  by (induction xs) auto

lemma dropWhile_stop: "c \<notin> set xs \<Longrightarrow> dropWhile (\<lambda>x. x \<noteq> c) (xs @ c # ys) = c # ys"
  by (induction xs) auto

lemma b64Decode_lines64: "b64Decode (lines64 (b64Encode bs)) = Some bs"
proof -
  have no: "CHR 0x0A \<notin> set (b64Encode bs)" "filter (\<lambda>c. c \<noteq> CHR 0x0D) (b64Encode bs) = b64Encode bs"
    using b64Encode_no_break by (blast, intro filter_True, blast)
  show ?thesis by (simp add: b64Decode_def lines64_filter no b64Groups_b64Encode)
qed

lemma strictPem_pemEncode:
  assumes "CHR ''-'' \<notin> set typ"
  shows "strictPem (pemEncode typ bs @ rest) = Some (\<lparr>blockType = typ, blockHeaders = [], blockBytes = bs\<rparr>, rest)"
proof -
  define body where "body = lines64 (b64Encode bs)"
  define tl where "tl = (''-----END '' @ typ @ ''-----'' @ [CHR 0x0A]) @ rest"
  have "CHR ''-'' \<notin> set b64Alphabet" by code_simp
  then have body: "CHR ''-'' \<notin> set body"
    using lines64_set [of "b64Encode bs"] b64Encode_set [of bs] by (auto simp: body_def)
  have tl: "tl = CHR ''-'' # drop 1 tl" by (simp add: tl_def)
  have data: "pemEncode typ bs @ rest = ''-----BEGIN '' @ (typ @ CHR ''-'' # ''----'' @ [CHR 0x0A] @ body @ tl)"
    by (simp add: pemEncode_def body_def tl_def)
  have "stripPrefix (''-----'' @ [CHR 0x0A]) (CHR ''-'' # ''----'' @ [CHR 0x0A] @ body @ tl) = Some (body @ tl)"
    by (simp add: stripPrefix_def)
  moreover have "takeWhile (\<lambda>c. c \<noteq> CHR ''-'') (body @ tl) = body" "dropWhile (\<lambda>c. c \<noteq> CHR ''-'') (body @ tl) = tl"
    using takeWhile_stop [OF body] dropWhile_stop [OF body] tl by metis+
  moreover have "stripPrefix (''-----END '' @ typ @ ''-----'' @ [CHR 0x0A]) tl = Some rest"
    unfolding tl_def by (rule stripPrefix_append)
  ultimately show ?thesis
    unfolding data strictPem_def stripPrefix_append Option.bind.simps Let_def
      takeWhile_stop [OF assms] dropWhile_stop [OF assms]
    by (simp add: body_def b64Decode_lines64)
qed

section \<open>URL-safe encodings\<close>

lemma length_b64Encode_groups:
  "length bs = 3 * n \<Longrightarrow> length (filter (\<lambda>c. c \<noteq> CHR ''='') (b64Encode bs)) = 4 * n"
proof (induction n arbitrary: bs)
  case (Suc n)
  then have "3 \<le> length bs" by simp
  then obtain x y z rest where bs: "bs = x # y # z # rest"
    by (metis Suc_le_length_iff numeral_3_eq_3)
  with Suc.prems have "length rest = 3 * n" by simp
  from Suc.IH [OF this] show ?case unfolding bs by (simp add: b64Char_no_break)
qed simp

lemma length_b64UrlEncode: "length bs = 3 * n \<Longrightarrow> length (b64UrlEncode bs) = 4 * n"
  by (simp add: b64UrlEncode_def length_b64Encode_groups)

definition urlAlphabet :: string where
  "urlAlphabet = ''ABCDEFGHIJKLMNOPQRSTUVWXYZabcdefghijklmnopqrstuvwxyz0123456789-_''"

lemma b64UrlEncode_set: "set (b64UrlEncode bs) \<subseteq> set urlAlphabet"
proof -
  have "(if c = CHR ''+'' then CHR ''-'' else if c = CHR ''/'' then CHR ''_'' else c) \<in> set urlAlphabet"
    if "c \<in> set b64Alphabet" for c
    using that by (auto simp: b64Alphabet_def urlAlphabet_def)
  moreover have "set (filter (\<lambda>c. c \<noteq> CHR ''='') (b64Encode bs)) \<subseteq> set b64Alphabet" using b64Encode_set [of bs] by auto
  ultimately show ?thesis unfolding b64UrlEncode_def set_map by blast
qed

text \<open>A whole number of groups is encoded without padding, and the URL alphabet can be mapped back.\<close>

lemma b64Encode_unpadded: "length bs mod 3 = 0 \<Longrightarrow> CHR ''='' \<notin> set (b64Encode bs)"
  by (induction bs rule: b64Encode.induct) (auto simp: b64Char_no_break [symmetric] mod_Suc split: if_splits)

lemma b64UrlEncode_inj:
  assumes "b64UrlEncode bs = b64UrlEncode cs" and "length bs mod 3 = 0" and "length cs mod 3 = 0"
  shows "bs = cs"
proof -
  let ?u = "\<lambda>c. if c = CHR ''+'' then CHR ''-'' else if c = CHR ''/'' then CHR ''_'' else c"
  have e: "b64UrlEncode xs = map ?u (b64Encode xs)" and a: "set (b64Encode xs) \<subseteq> set b64Alphabet" if "length xs mod 3 = 0" for xs
  proof -
    have "filter (\<lambda>c. c \<noteq> CHR ''='') (b64Encode xs) = b64Encode xs" using b64Encode_unpadded [OF that] by (auto simp: filter_id_conv)
    then show "b64UrlEncode xs = map ?u (b64Encode xs)" by (simp add: b64UrlEncode_def)
    show "set (b64Encode xs) \<subseteq> set b64Alphabet" using b64Encode_set [of xs] b64Encode_unpadded [OF that] by auto
  qed
  have d: "CHR ''-'' \<notin> set b64Alphabet" "CHR ''_'' \<notin> set b64Alphabet" by (simp_all add: b64Alphabet_def)
  have "inj_on ?u (set b64Alphabet)"
  proof (rule inj_onI)
    fix x y
    assume "x \<in> set b64Alphabet" "y \<in> set b64Alphabet" "?u x = ?u y"
    then have "x \<noteq> CHR ''-''" "x \<noteq> CHR ''_''" "y \<noteq> CHR ''-''" "y \<noteq> CHR ''_''" "?u x = ?u y" using d by blast+
    then show "x = y" by (cases "x = CHR ''+''"; cases "x = CHR ''/''"; cases "y = CHR ''+''"; cases "y = CHR ''/''") simp_all
  qed
  then have j: "inj_on ?u (set (b64Encode bs) \<union> set (b64Encode cs))"
    by (rule inj_on_subset) (use a [OF assms(2)] a [OF assms(3)] in blast)
  have m: "map ?u (b64Encode bs) = map ?u (b64Encode cs)" using assms(1) unfolding e [OF assms(2)] e [OF assms(3)] .
  have "b64Encode bs = b64Encode cs" by (rule map_inj_on [OF m j])
  then show ?thesis using b64Groups_b64Encode by (metis option.inject)
qed

end
