(* ===== verification/NetIP.thy ===== *)
theory NetIP
  imports GoStrings
begin

text \<open>
  What the program uses of Go's \<^verbatim>\<open>net.IP\<close>: parsing of IPv4 and IPv6 literals, the textual
  form and the comparison that identifies an IPv4 address with its IPv4-mapped form.
\<close>

type_synonym ip = bytes

definition v4InV6Prefix :: bytes where
  "v4InV6Prefix = replicate 10 (CHR 0x00) @ [CHR 0xFF, CHR 0xFF]"

text \<open>\<^verbatim>\<open>IP.To4\<close>, \<^verbatim>\<open>IP.Equal\<close>.\<close>

definition to4 :: "ip \<Rightarrow> ip option" where
  "to4 i = (if length i = 4 then Some i
            else if length i = 16 \<and> take 12 i = v4InV6Prefix then Some (drop 12 i) else None)"

definition ipEqual :: "ip \<Rightarrow> ip \<Rightarrow> bool" where
  "ipEqual i x =
     (if length i = length x then i = x
      else if length i = 4 \<and> length x = 16 then take 12 x = v4InV6Prefix \<and> i = drop 12 x
      else if length i = 16 \<and> length x = 4 then take 12 i = v4InV6Prefix \<and> drop 12 i = x
      else False)"

section \<open>Parsing\<close>

text \<open>The octets of a dotted quad: the loop of \<^verbatim>\<open>parseIPv4Fields\<close> over its state.\<close>

fun v4Fields :: "string \<Rightarrow> nat \<Rightarrow> nat \<Rightarrow> nat list \<Rightarrow> nat list option" where
  "v4Fields [] val digLen fs = (if length fs = 3 \<and> digLen > 0 then Some (fs @ [val]) else None)"
| "v4Fields (c # s) val digLen fs =
     (if isDigit c then
        (if digLen = 1 \<and> val = 0 then None
         else let val = val * 10 + (byte c - 48)
              in if val > 255 then None else v4Fields s val (Suc digLen) fs)
      else if c = CHR ''.'' then (if digLen = 0 \<or> length fs = 3 then None else v4Fields s 0 0 (fs @ [val]))
      else None)"

definition parseIPv4 :: "string \<Rightarrow> ip option" where
  "parseIPv4 s = map_option (map chr) (v4Fields s 0 0 [])"

definition hexDigitVal :: "char \<Rightarrow> nat option" where
  "hexDigitVal c = (if isDigit c then Some (byte c - 48)
     else if 97 \<le> byte c \<and> byte c \<le> 102 then Some (byte c - 87)
     else if 65 \<le> byte c \<and> byte c \<le> 70 then Some (byte c - 55) else None)"

definition hexGroup :: "string \<Rightarrow> nat" where
  "hexGroup ds = foldl (\<lambda>n c. n * 16 + the (hexDigitVal c)) 0 ds"

text \<open>
  The loop of \<^verbatim>\<open>parseIPv6\<close>: the rest of the text, the bytes read so far and the position of
  the ellipsis. Every turn consumes at least one digit.
\<close>

function v6Loop :: "string \<Rightarrow> bytes \<Rightarrow> nat option \<Rightarrow> (string \<times> bytes \<times> nat option) option" where
  "v6Loop s bs ell =
     (if length bs \<ge> 16 then Some (s, bs, ell)
      else let ds = takeWhile (\<lambda>c. hexDigitVal c \<noteq> None) s; r = dropWhile (\<lambda>c. hexDigitVal c \<noteq> None) s in
        if ds = [] \<or> length ds > 4 then None
        else if r \<noteq> [] \<and> hd r = CHR ''.'' then
          (if (ell = None \<and> length bs \<noteq> 12) \<or> length bs + 4 > 16 then None
           else map_option (\<lambda>v4. ([], bs @ v4, ell)) (parseIPv4 s))
        else let bs = bs @ [chr (hexGroup ds div 256), chr (hexGroup ds mod 256)] in
          (case r of
             [] \<Rightarrow> Some ([], bs, ell)
           | [c] \<Rightarrow> None
           | c # d # r' \<Rightarrow>
               if c \<noteq> CHR '':'' then None
               else if d = CHR '':'' then
                 (if ell \<noteq> None then None
                  else if r' = [] then Some ([], bs, Some (length bs)) else v6Loop r' bs (Some (length bs)))
               else v6Loop (d # r') bs ell))"
  by pat_completeness auto
termination
proof (relation "measure (\<lambda>(s, bs, ell). 16 - length bs)", goal_cases)
  case (2 s bs ell ds r bs' c l d r')
  then show ?case by simp
next
  case (3 s bs ell ds r bs' c l d r')
  then show ?case by simp
qed simp

declare v6Loop.simps [simp del]

definition parseIPv6 :: "string \<Rightarrow> ip option" where
  "parseIPv6 s =
     (let lead = prefix ''::'' s; t = (if lead then drop 2 s else s) in
      if lead \<and> t = [] then Some (replicate 16 (CHR 0x00))
      else case v6Loop t [] (if lead then Some 0 else None) of
        None \<Rightarrow> None
      | Some (rest, bs, ell) \<Rightarrow>
          if rest \<noteq> [] then None
          else if length bs < 16 then
            (case ell of None \<Rightarrow> None
             | Some e \<Rightarrow> Some (take e bs @ replicate (16 - length bs) (CHR 0x00) @ drop e bs))
          else if ell \<noteq> None then None else Some bs)"

text \<open>\<^verbatim>\<open>net.ParseIP\<close>: the 16-byte form; an address with a zone is refused.\<close>

definition parseIP :: "string \<Rightarrow> ip option" where
  "parseIP s = (case find (\<lambda>c. c = CHR ''.'' \<or> c = CHR '':'' \<or> c = CHR ''%'') s of
     None \<Rightarrow> None
   | Some c \<Rightarrow>
     if c = CHR ''.'' then map_option (\<lambda>v4. v4InV6Prefix @ v4) (parseIPv4 s)
     else if c = CHR '':'' \<and> CHR ''%'' \<notin> set s then parseIPv6 s
     else None)"

section \<open>Printing\<close>

definition hexString :: "bytes \<Rightarrow> string" where
  "hexString bs = concat (map (\<lambda>b. [hexDigit (byte b div 16), hexDigit (byte b mod 16)]) bs)"

text \<open>A 16-bit group without leading zeros.\<close>

fun hexDigits :: "nat \<Rightarrow> string" where
  "hexDigits n = (if n < 16 then [hexDigit n] else hexDigits (n div 16) @ [hexDigit (n mod 16)])"

declare hexDigits.simps [simp del]

fun groups16 :: "bytes \<Rightarrow> nat list" where
  "groups16 (a # b # r) = (byte a * 256 + byte b) # groups16 r"
| "groups16 _ = []"

text \<open>The first longest run of at least two zero groups, as a half-open interval.\<close>

definition zeroRun :: "nat list \<Rightarrow> nat \<times> nat" where
  "zeroRun gs = fold (\<lambda>i (zs, ze).
     let j = i + length (takeWhile (\<lambda>g. g = 0) (drop i gs))
     in if j - i \<ge> 2 \<and> j - i > ze - zs then (i, j) else (zs, ze)) [0..<length gs] (255, 255)"

definition v6String :: "ip \<Rightarrow> string" where
  "v6String i =
     (let gs = groups16 i; (zs, ze) = zeroRun gs; hx = (\<lambda>xs. join (map hexDigits xs) '':'')
      in if zs = 255 then hx gs else hx (take zs gs) @ ''::'' @ hx (drop ze gs))"

definition ipString :: "ip \<Rightarrow> string" where
  "ipString i =
     (if i = [] then ''<nil>''
      else if length i \<noteq> 4 \<and> length i \<noteq> 16 then ''?'' @ hexString i
      else case to4 i of
        Some v4 \<Rightarrow> join (map (\<lambda>b. itoa (int (byte b))) v4) ''.''
      | None \<Rightarrow> v6String i)"

section \<open>Lemmas\<close>

lemma ipEqual_refl [simp]: "ipEqual i i"
  by (simp add: ipEqual_def)

lemma ipEqual_sym: "ipEqual i x = ipEqual x i"
  by (auto simp: ipEqual_def)

lemma ipEqual_iff: "ipEqual i x \<longleftrightarrow> i = x \<or> (to4 i \<noteq> None \<and> to4 i = to4 x)"
proof -
  have inj: "take 12 i = take 12 x \<Longrightarrow> drop 12 i = drop 12 x \<Longrightarrow> i = x"
    by (metis append_take_drop_id)
  show ?thesis by (auto simp: ipEqual_def to4_def intro: inj)
qed

end
