(* ===== verification/Chain.thy ===== *)
theory Chain
  imports Response Base64 NetIP
begin

text \<open>
  \<^verbatim>\<open>internal/kmp/chain.go\<close>: reading the certificates out of a response, choosing the one issued
  for the request and ordering the chain above it.

  The DER parsers, the signature checks and the PEM reader of the Go release are not part of
  this repository: they are the fields of the record \<open>crypto_lib\<close>, an argument of every
  definition that calls them. What is relied on of them is stated by \<open>pem_ok\<close> and \<open>x509_ok\<close>.
\<close>

section \<open>Certificates, requests and keys\<close>

text \<open>
  The values a \<^verbatim>\<open>crypto.PublicKey\<close> can have here: \<^verbatim>\<open>nil\<close> when the algorithm is unknown, or one
  of the key types of the standard library with its contents.
\<close>

datatype PublicKey =
    NilKey
  | RSAKey string
  | ECDSAKey string
  | Ed25519Key string
  | ECDHKey string
  | DSAKey string

text \<open>
  The type assertion to \<^verbatim>\<open>publicKeyMatcher\<close>: every key type but \<^verbatim>\<open>*dsa.PublicKey\<close> has an
  \<^verbatim>\<open>Equal\<close> method, which compares the type and the contents.
\<close>

fun publicKeyMatcher :: "PublicKey \<Rightarrow> bool" where
  "publicKeyMatcher NilKey = False"
| "publicKeyMatcher (DSAKey _) = False"
| "publicKeyMatcher _ = True"

text \<open>A private key with what its \<^verbatim>\<open>Public\<close> method returns, if its type has one.\<close>

record private_key =
  keyBytes :: bytes
  keyPublic :: "PublicKey option"

record certificate =
  Raw :: bytes
  RawSubject :: bytes
  RawIssuer :: bytes
  certCommonName :: string
  certOrganization :: "string list"
  certOrganizationalUnit :: "string list"
  certDNSNames :: "string list"
  certIPAddresses :: "ip list"
  certEmailAddresses :: "string list"
  certURIs :: "string list"
  certNotBefore :: int
  certNotAfter :: int
  certPublicKey :: PublicKey

record certificate_request =
  reqCommonName :: string
  reqDNSNames :: "string list"
  reqIPAddresses :: "ip list"
  reqEmailAddresses :: "string list"
  reqURIs :: "string list"
  reqPublicKey :: PublicKey

text \<open>
  The library: each parser returns the text of its error or the value. \<open>checkSignatureFrom child
  parent\<close> and \<open>checkSignature\<close> return the text of the error, if any.
\<close>

record crypto_lib = go_runtime +
  pemDecode :: "bytes \<Rightarrow> (pem_block \<times> bytes) option"
  parseCertificate :: "bytes \<Rightarrow> string + certificate"
  checkSignatureFrom :: "certificate \<Rightarrow> certificate \<Rightarrow> string option"
  parseCertificateRequest :: "bytes \<Rightarrow> string + certificate_request"
  checkSignature :: "certificate_request \<Rightarrow> string option"
  parsePKCS8PrivateKey :: "bytes \<Rightarrow> private_key option"
  parsePKCS1PrivateKey :: "bytes \<Rightarrow> private_key option"
  parseECPrivateKey :: "bytes \<Rightarrow> private_key option"
  marshalPKCS8PrivateKey :: "private_key \<Rightarrow> string + bytes"
  decryptPEMBlock :: "pem_block \<Rightarrow> bytes \<Rightarrow> string + bytes"

text \<open>
  What \<^verbatim>\<open>encoding/pem\<close> documents: \<^verbatim>\<open>Decode\<close> returns the next block and the remainder, which is
  shorter than the input, and reads back what \<^verbatim>\<open>Encode\<close> wrote for a label of capital letters
  and spaces.
\<close>

definition pemLabel :: "string \<Rightarrow> bool" where
  "pemLabel typ = (typ \<noteq> [] \<and> list_all (\<lambda>c. c = CHR '' '' \<or> (65 \<le> byte c \<and> byte c \<le> 90)) typ)"

definition pem_ok :: "(bytes \<Rightarrow> (pem_block \<times> bytes) option) \<Rightarrow> bool" where
  "pem_ok dec \<longleftrightarrow>
     (\<forall>data b rest. dec data = Some (b, rest) \<longrightarrow> length rest < length data) \<and>
     (\<forall>typ bs rest. pemLabel typ \<longrightarrow>
        dec (pemEncode typ bs @ rest) = Some (\<lparr>blockType = typ, blockHeaders = [], blockBytes = bs\<rparr>, rest))"

text \<open>\<^verbatim>\<open>Certificate.Raw\<close> is the complete DER content that was parsed.\<close>

definition x509_ok :: "(bytes \<Rightarrow> string + certificate) \<Rightarrow> bool" where
  "x509_ok p \<longleftrightarrow> (\<forall>der c. p der = Inr c \<longrightarrow> Raw c = der)"

section \<open>Reading certificates\<close>

text \<open>
  The loop \<^verbatim>\<open>block, rest = pem.Decode(rest)\<close> that ends at \<^verbatim>\<open>block == nil\<close>: the blocks it
  sees. The fuel is the length of the input, which the remainder cannot exceed.
\<close>

fun pemBlocksFuel :: "nat \<Rightarrow> 'r crypto_lib_scheme \<Rightarrow> bytes \<Rightarrow> pem_block list" where
  "pemBlocksFuel 0 L rest = []"
| "pemBlocksFuel (Suc n) L rest = (case pemDecode L rest of
     None \<Rightarrow> [] | Some (block, rest') \<Rightarrow> block # pemBlocksFuel n L rest')"

definition pemBlocks :: "'r crypto_lib_scheme \<Rightarrow> bytes \<Rightarrow> pem_block list" where
  "pemBlocks L data = pemBlocksFuel (Suc (length data)) L data"

definition pemCertificateType :: string where
  "pemCertificateType = ''CERTIFICATE''"

text \<open>
  \<^verbatim>\<open>parsePEMCertificates\<close> returns the certificates read so far together with the error, if
  one stopped it.
\<close>

fun parseCertBlocks :: "'r crypto_lib_scheme \<Rightarrow> pem_block list \<Rightarrow> certificate list \<Rightarrow> certificate list \<times> goerr option" where
  "parseCertBlocks L [] certs = (certs, None)"
| "parseCertBlocks L (block # blocks) certs =
     (if blockType block \<noteq> pemCertificateType then parseCertBlocks L blocks certs
      else case parseCertificate L (blockBytes block) of
        Inl e \<Rightarrow> (certs, Some (Wrapf (''parsing certificate: '' @ e) [ErrText e]))
      | Inr cert \<Rightarrow> parseCertBlocks L blocks (certs @ [cert]))"

definition parsePEMCertificates :: "'r crypto_lib_scheme \<Rightarrow> bytes \<Rightarrow> certificate list \<times> goerr option" where
  "parsePEMCertificates L data = parseCertBlocks L (pemBlocks L data) []"

text \<open>\<^verbatim>\<open>strings.Map\<close> with the function that drops line breaks, tabs and spaces.\<close>

definition compact :: "string \<Rightarrow> string" where
  "compact value = concat (map encodeRune (filter (\<lambda>r. r \<noteq> 10 \<and> r \<noteq> 13 \<and> r \<noteq> 9 \<and> r \<noteq> 32) (runes value)))"

definition parseBase64Certificate :: "'r crypto_lib_scheme \<Rightarrow> string \<Rightarrow> certificate option" where
  "parseBase64Certificate L value =
     (if length (compact value) < 128 then None
      else case b64Decode (compact value) of
        None \<Rightarrow> None
      | Some der \<Rightarrow> (case parseCertificate L der of Inl _ \<Rightarrow> None | Inr cert \<Rightarrow> Some cert))"

text \<open>The closure \<^verbatim>\<open>add\<close>: a certificate whose \<^verbatim>\<open>Raw\<close> was seen is not added again.\<close>

definition addCert :: "certificate \<Rightarrow> certificate list \<Rightarrow> certificate list" where
  "addCert cert certs = (if Raw cert \<in> Raw ` set certs then certs else certs @ [cert])"

fun certsLoop :: "'r crypto_lib_scheme \<Rightarrow> string list \<Rightarrow> certificate list \<Rightarrow> goerr option \<Rightarrow> certificate list \<times> goerr option" where
  "certsLoop L [] certs firstErr = (certs, firstErr)"
| "certsLoop L (value # values) certs firstErr =
     (if contains value ''-----BEGIN'' then
        (let (parsed, err) = parsePEMCertificates L value;
             firstErr = (if err \<noteq> None \<and> firstErr = None then err else firstErr)
         in certsLoop L values (fold addCert parsed certs) firstErr)
      else case parseBase64Certificate L value of
        Some cert \<Rightarrow> certsLoop L values (addCert cert certs) firstErr
      | None \<Rightarrow> certsLoop L values certs firstErr)"

definition certificatesFromStrings :: "'r crypto_lib_scheme \<Rightarrow> string list \<Rightarrow> goerr + certificate list" where
  "certificatesFromStrings L values =
     (let (certs, firstErr) = certsLoop L values [] None in
      case firstErr of
        Some e \<Rightarrow> if certs = [] then Inl e else Inr certs
      | None \<Rightarrow> Inr certs)"

section \<open>Building the bundle\<close>

record Bundle =
  ChainPEM :: bytes
  Leaf :: certificate

text \<open>\<^verbatim>\<open>findLeaf\<close> is called with at least one certificate.\<close>

definition findLeaf :: "certificate list \<Rightarrow> PublicKey \<Rightarrow> goerr + certificate" where
  "findLeaf certs csrPublicKey =
     (if csrPublicKey = NilKey then Inr (hd certs)
      else if \<not> publicKeyMatcher csrPublicKey then Inr (hd certs)
      else case find (\<lambda>cert. csrPublicKey = certPublicKey cert) certs of
        Some cert \<Rightarrow> Inr cert
      | None \<Rightarrow> Inl (ErrText ''none of the returned certificates matches the public key of the request''))"

fun popIssuer :: "'r crypto_lib_scheme \<Rightarrow> certificate list \<Rightarrow> certificate \<Rightarrow> (certificate \<times> certificate list) option" where
  "popIssuer L [] child = None"
| "popIssuer L (candidate # candidates) child =
     (if RawSubject candidate = RawIssuer child \<and> checkSignatureFrom L child candidate = None
      then Some (candidate, candidates)
      else map_option (\<lambda>(issuer, rest). (issuer, candidate # rest)) (popIssuer L candidates child))"

definition isSelfSigned :: "'r crypto_lib_scheme \<Rightarrow> certificate \<Rightarrow> bool" where
  "isSelfSigned L cert = (RawSubject cert = RawIssuer cert \<and> checkSignatureFrom L cert cert = None)"

lemma popIssuer_length: "popIssuer L cs child = Some (issuer, rest) \<Longrightarrow> length cs = Suc (length rest)"
  by (induction cs arbitrary: rest) (auto split: if_splits)

text \<open>The loop of \<^verbatim>\<open>BuildBundle\<close>: the certificates it appends above \<open>current\<close>.\<close>

function chainAbove :: "'r crypto_lib_scheme \<Rightarrow> certificate \<Rightarrow> certificate list \<Rightarrow> certificate list" where
  "chainAbove L current remaining = (case popIssuer L remaining current of
     None \<Rightarrow> []
   | Some (issuer, rest) \<Rightarrow> if isSelfSigned L issuer then [issuer] else issuer # chainAbove L issuer rest)"
  by pat_completeness auto
termination
  by (relation "measure (\<lambda>(L, current, remaining). length remaining)") (auto dest: popIssuer_length)

declare chainAbove.simps [simp del]

definition encodeCertificates :: "certificate list \<Rightarrow> bytes" where
  "encodeCertificates certs = concat (map (\<lambda>cert. pemEncode pemCertificateType (Raw cert)) certs)"

definition BuildBundle :: "'r crypto_lib_scheme \<Rightarrow> certificate list \<Rightarrow> PublicKey \<Rightarrow> goerr + Bundle" where
  "BuildBundle L certs csrPublicKey =
     (if certs = [] then Inl (ErrText ''no certificates to build a chain from'')
      else case findLeaf certs csrPublicKey of
        Inl err \<Rightarrow> Inl err
      | Inr leaf \<Rightarrow>
          let remaining = filter (\<lambda>cert. Raw cert \<noteq> Raw leaf) certs
          in Inr \<lparr>ChainPEM = encodeCertificates (leaf # chainAbove L leaf remaining), Leaf = leaf\<rparr>)"

definition ParseCSR :: "'r crypto_lib_scheme \<Rightarrow> bytes \<Rightarrow> goerr + certificate_request" where
  "ParseCSR L csrPEM = (case pemDecode L csrPEM of
     None \<Rightarrow> Inl (ErrText ''the request is not PEM encoded'')
   | Some (block, _) \<Rightarrow>
     if blockType block \<noteq> ''CERTIFICATE REQUEST'' \<and> blockType block \<noteq> ''NEW CERTIFICATE REQUEST''
     then Inl (ErrText (''expected a CERTIFICATE REQUEST PEM block, got '' @ quote L (blockType block)))
     else case parseCertificateRequest L (blockBytes block) of
       Inl e \<Rightarrow> Inl (Wrapf (''parsing certificate request: '' @ e) [ErrText e])
     | Inr csr \<Rightarrow> (case checkSignature L csr of
         Some e \<Rightarrow> Inl (Wrapf (''checking the signature of the certificate request: '' @ e) [ErrText e])
       | None \<Rightarrow> Inr csr))"


section \<open>A chain\<close>

text \<open>
  The specification: \<open>issues\<close> is the relation \<^verbatim>\<open>popIssuer\<close> tests, and \<open>linked\<close> says that each
  certificate of a list was issued by the next one.
\<close>

definition issues :: "'r crypto_lib_scheme \<Rightarrow> certificate \<Rightarrow> certificate \<Rightarrow> bool" where
  "issues L issuer child \<longleftrightarrow> RawSubject issuer = RawIssuer child \<and> checkSignatureFrom L child issuer = None"

fun linked :: "'r crypto_lib_scheme \<Rightarrow> certificate list \<Rightarrow> bool" where
  "linked L (child # issuer # rest) \<longleftrightarrow> issues L issuer child \<and> linked L (issuer # rest)"
| "linked L _ \<longleftrightarrow> True"

text \<open>
  A chain above a leaf, drawn from a pool: it is linked, uses each certificate of the pool at
  most once, stops at the first self-signed issuer and stops before that only when nothing
  left in the pool issued its last certificate.
\<close>

definition chain_above :: "'r crypto_lib_scheme \<Rightarrow> certificate \<Rightarrow> certificate list \<Rightarrow> certificate list \<Rightarrow> bool" where
  "chain_above L leaf pool chain \<longleftrightarrow>
     linked L (leaf # chain) \<and> mset chain \<subseteq># mset pool
     \<and> list_all (\<lambda>c. \<not> isSelfSigned L c) (butlast chain)
     \<and> (chain \<noteq> [] \<and> isSelfSigned L (last chain)
        \<or> (\<forall>c. c \<in># mset pool - mset chain \<longrightarrow> \<not> issues L c (last (leaf # chain))))"

lemma isSelfSigned_issues: "isSelfSigned L c = issues L c c"
  by (simp add: isSelfSigned_def issues_def)

lemma popIssuer_Some:
  "popIssuer L cs child = Some (i, rest) \<Longrightarrow>
   issues L i child \<and> mset cs = add_mset i (mset rest)"
  by (induction cs arbitrary: rest) (auto simp: issues_def split: if_splits)

lemma popIssuer_None: "popIssuer L cs child = None \<longleftrightarrow> (\<forall>c \<in> set cs. \<not> issues L c child)"
  by (induction cs) (auto simp: issues_def)

lemma chainAbove_None: "popIssuer L cs c = None \<Longrightarrow> chainAbove L c cs = []"
  by (subst chainAbove.simps) simp

lemma chainAbove_Some:
  "popIssuer L cs c = Some (i, rest) \<Longrightarrow>
   chainAbove L c cs = (if isSelfSigned L i then [i] else i # chainAbove L i rest)"
  by (subst chainAbove.simps) simp

lemma chain_above_Cons:
  assumes "issues L i c" and "mset pool = add_mset i (mset rest)" and "\<not> isSelfSigned L i"
    and "chain_above L i rest chain"
  shows "chain_above L c pool (i # chain)"
  using assms by (auto simp: chain_above_def)

lemma chainAbove_chain_above: "chain_above L current remaining (chainAbove L current remaining)"
proof (induction L current remaining rule: chainAbove.induct)
  case (1 L current remaining)
  show ?case
  proof (cases "popIssuer L remaining current")
    case None
    then show ?thesis by (simp add: chainAbove_None chain_above_def popIssuer_None)
  next
    case (Some p)
    then obtain i rest where pop: "popIssuer L remaining current = Some (i, rest)" by (cases p) auto
    then have "chain_above L i rest (chainAbove L i rest)" if "\<not> isSelfSigned L i"
      using 1 that by blast
    then show ?thesis
      using popIssuer_Some [OF pop] by (auto simp: chainAbove_Some [OF pop] chain_above_Cons chain_above_def)
  qed
qed

lemma findLeaf_Inr:
  "certs \<noteq> [] \<Longrightarrow> findLeaf certs key = Inr leaf \<Longrightarrow>
   leaf \<in> set certs \<and> (publicKeyMatcher key \<longrightarrow> certPublicKey leaf = key)"
  by (auto simp: findLeaf_def find_Some_iff split: if_splits option.splits)

lemma findLeaf_Inl:
  "(\<exists>e. findLeaf certs key = Inl e) \<longleftrightarrow> publicKeyMatcher key \<and> (\<forall>c \<in> set certs. certPublicKey c \<noteq> key)"
  by (auto simp: findLeaf_def find_None_iff find_Some_iff split: option.splits)


section \<open>The order of the certificates\<close>

definition one_issuer :: "'r crypto_lib_scheme \<Rightarrow> certificate list \<Rightarrow> certificate \<Rightarrow> bool" where
  "one_issuer L pool child \<longleftrightarrow>
     (\<forall>c \<in> set pool. \<forall>d \<in> set pool. issues L c child \<longrightarrow> issues L d child \<longrightarrow> c = d)"

lemma popIssuer_perm:
  assumes "mset cs = mset cs'" and "one_issuer L cs child" and "popIssuer L cs child = Some (i, rest)"
  obtains rest' where "popIssuer L cs' child = Some (i, rest')" and "mset rest = mset rest'"
proof -
  have i: "issues L i child" "mset cs = add_mset i (mset rest)" using popIssuer_Some [OF assms(3)] by simp_all
  have eq: "set cs = set cs'" using assms(1) by (rule mset_eq_setD)
  have in_cs: "i \<in> set cs" using i(2) by (metis set_mset_mset union_single_eq_member)
  with eq i(1) have "popIssuer L cs' child \<noteq> None" by (auto simp: popIssuer_None)
  then obtain i' rest' where pop: "popIssuer L cs' child = Some (i', rest')" by auto
  note i' = popIssuer_Some [OF pop]
  then have "i' \<in> set cs" using eq by (metis set_mset_mset union_single_eq_member)
  with in_cs i(1) i' assms(2) have "i' = i" by (auto simp: one_issuer_def)
  moreover from this i(2) i' assms(1) have "mset rest = mset rest'" by simp
  ultimately show ?thesis using that pop by blast
qed

lemma one_issuer_subset: "one_issuer L cs c \<Longrightarrow> set rest \<subseteq> set cs \<Longrightarrow> one_issuer L rest c"
  by (auto simp: one_issuer_def)

lemma chainAbove_perm:
  assumes "mset cs = mset cs'" and "\<And>c. c \<in> insert current (set cs) \<Longrightarrow> one_issuer L cs c"
  shows "chainAbove L current cs = chainAbove L current cs'"
  using assms
proof (induction L current cs arbitrary: cs' rule: chainAbove.induct)
  case (1 L current cs)
  show ?case
  proof (cases "popIssuer L cs current")
    case None
    moreover have "set cs = set cs'" using "1.prems"(1) by (rule mset_eq_setD)
    ultimately have "popIssuer L cs' current = None" by (simp add: popIssuer_None)
    with None show ?thesis by (simp add: chainAbove_None)
  next
    case (Some p)
    then obtain i rest where pop: "popIssuer L cs current = Some (i, rest)" by (cases p) auto
    have "one_issuer L cs current" using "1.prems"(2) by blast
    then obtain rest' where pop': "popIssuer L cs' current = Some (i, rest')" and eq: "mset rest = mset rest'"
      using popIssuer_perm [OF "1.prems"(1) _ pop] by blast
    have "set cs = insert i (set rest)"
      using popIssuer_Some [OF pop] by (metis set_mset_add_mset_insert set_mset_mset)
    then have "one_issuer L rest c" if "c \<in> insert i (set rest)" for c
      using that "1.prems"(2) by (blast intro: one_issuer_subset)
    then have "chainAbove L i rest = chainAbove L i rest'" if "\<not> isSelfSigned L i"
      using "1.IH" [OF pop refl that eq] by blast
    then show ?thesis by (simp add: chainAbove_Some [OF pop] chainAbove_Some [OF pop'])
  qed
qed

lemma find_perm:
  assumes "set xs = set ys" and "\<And>x y. x \<in> set xs \<Longrightarrow> y \<in> set xs \<Longrightarrow> P x \<Longrightarrow> P y \<Longrightarrow> x = y"
  shows "find P xs = find P ys"
proof (cases "find P xs")
  case None
  then have "find P ys = None" using assms(1) by (simp add: find_None_iff)
  with None show ?thesis by simp
next
  case (Some x)
  then have x: "x \<in> set xs" "P x" by (auto simp: find_Some_iff)
  then obtain y where y: "find P ys = Some y" using assms(1) by (metis find_None_iff not_Some_eq)
  then have "y \<in> set xs" "P y" using assms(1) by (auto simp: find_Some_iff)
  with x assms(2) Some y show ?thesis by auto
qed

section \<open>Reading back\<close>

lemma pemBlocksFuel_enough:
  "pem_ok (pemDecode L) \<Longrightarrow> length data < n \<Longrightarrow> pemBlocksFuel n L data = pemBlocks L data"
proof (induction "length data" arbitrary: data n rule: less_induct)
  case less
  obtain m where n: "n = Suc m" using less.prems(2) by (cases n) auto
  show ?case
  proof (cases "pemDecode L data")
    case None
    then show ?thesis by (simp add: pemBlocks_def n)
  next
    case (Some p)
    then obtain b rest where p: "pemDecode L data = Some (b, rest)" by (cases p) auto
    then have short: "length rest < length data" using less.prems(1) by (auto simp: pem_ok_def)
    then have "pemBlocksFuel m L rest = pemBlocks L rest" "pemBlocksFuel (length data) L rest = pemBlocks L rest"
      using less.hyps [OF short less.prems(1)] less.prems(2) n by simp_all
    then show ?thesis using p by (simp add: pemBlocks_def n)
  qed
qed

text \<open>The loops over PEM blocks see every block until \<^verbatim>\<open>pem.Decode\<close> finds none.\<close>

lemma pemBlocks_unfold:
  assumes "pem_ok (pemDecode L)"
  shows "pemBlocks L data = (case pemDecode L data of None \<Rightarrow> [] | Some (b, rest) \<Rightarrow> b # pemBlocks L rest)"
proof (cases "pemDecode L data")
  case (Some p)
  then obtain b rest where p: "pemDecode L data = Some (b, rest)" by (cases p) auto
  then have "length rest < length data" using assms by (auto simp: pem_ok_def)
  then show ?thesis using p pemBlocksFuel_enough [OF assms] by (simp add: pemBlocks_def [of L data])
qed (simp add: pemBlocks_def)

lemma pemLabel_certificate: "pemLabel pemCertificateType"
  by (simp add: pemLabel_def pemCertificateType_def)

lemma pemBlocks_encodeCertificates:
  assumes "pem_ok (pemDecode L)" and "pemDecode L [] = None"
  shows "pemBlocks L (encodeCertificates certs)
     = map (\<lambda>c. \<lparr>blockType = pemCertificateType, blockHeaders = [], blockBytes = Raw c\<rparr>) certs"
proof (induction certs)
  case Nil
  then show ?case using assms by (simp add: encodeCertificates_def pemBlocks_unfold)
next
  case (Cons c certs)
  have "pemDecode L (pemEncode pemCertificateType (Raw c) @ encodeCertificates certs)
      = Some (\<lparr>blockType = pemCertificateType, blockHeaders = [], blockBytes = Raw c\<rparr>, encodeCertificates certs)"
    using assms(1) pemLabel_certificate by (simp add: pem_ok_def)
  then show ?case using Cons by (subst pemBlocks_unfold [OF assms(1)]) (simp add: encodeCertificates_def)
qed

lemma pem_ok_Nil: "pem_ok dec \<Longrightarrow> dec [] = None"
  by (cases "dec []") (fastforce simp: pem_ok_def)+

lemma parseCertBlocks_all:
  "(\<And>c. c \<in> set certs \<Longrightarrow> parseCertificate L (Raw c) = Inr c) \<Longrightarrow>
   parseCertBlocks L (map (\<lambda>c. \<lparr>blockType = pemCertificateType, blockHeaders = [], blockBytes = Raw c\<rparr>) certs) acc
   = (acc @ certs, None)"
  by (induction certs arbitrary: acc) auto

lemma parsePEM_encodeCertificates:
  assumes "pem_ok (pemDecode L)" and "\<And>c. c \<in> set certs \<Longrightarrow> parseCertificate L (Raw c) = Inr c"
  shows "parsePEMCertificates L (encodeCertificates certs) = (certs, None)"
  using assms
  by (simp add: parsePEMCertificates_def pemBlocks_encodeCertificates pem_ok_Nil parseCertBlocks_all)


section \<open>What is read\<close>

text \<open>The certificates one string of a response contributes, and its error.\<close>

definition certsIn :: "'r crypto_lib_scheme \<Rightarrow> string \<Rightarrow> certificate list" where
  "certsIn L value = (if contains value ''-----BEGIN'' then fst (parsePEMCertificates L value)
     else case parseBase64Certificate L value of Some cert \<Rightarrow> [cert] | None \<Rightarrow> [])"

definition certErr :: "'r crypto_lib_scheme \<Rightarrow> string \<Rightarrow> goerr option" where
  "certErr L value = (if contains value ''-----BEGIN'' then snd (parsePEMCertificates L value) else None)"

lemma certsLoop_Cons:
  "certsLoop L (v # vs) certs firstErr =
     certsLoop L vs (fold addCert (certsIn L v) certs) (case firstErr of Some e \<Rightarrow> Some e | None \<Rightarrow> certErr L v)"
  by (auto simp: certsIn_def certErr_def split: option.splits prod.splits)

lemma certsLoop_eq:
  "certsLoop L vs certs firstErr =
     (fold addCert (concat (map (certsIn L) vs)) certs,
      case firstErr of Some e \<Rightarrow> Some e | None \<Rightarrow> first_some (certErr L) vs)"
  by (induction vs arbitrary: certs firstErr)
    (simp_all add: certsLoop_Cons del: certsLoop.simps(2) split: option.splits)

lemma fold_addCert_distinct: "distinct (map Raw acc) \<Longrightarrow> distinct (map Raw (fold addCert certs acc))"
  by (induction certs arbitrary: acc) (auto simp: addCert_def)

lemma fold_addCert_Raw: "Raw ` set (fold addCert certs acc) = Raw ` set certs \<union> Raw ` set acc"
  by (induction certs arbitrary: acc) (auto simp: addCert_def)

lemma fold_addCert_set: "set (fold addCert certs acc) \<subseteq> set certs \<union> set acc"
proof (induction certs arbitrary: acc)
  case (Cons c certs)
  have "set (addCert c acc) \<subseteq> insert c (set acc)" by (auto simp: addCert_def)
  with Cons [of "addCert c acc"] show ?case by auto
qed simp

lemma fold_addCert_Nil: "fold addCert certs acc = [] \<longleftrightarrow> certs = [] \<and> acc = []"
  using fold_addCert_Raw [of certs acc] by (cases "fold addCert certs acc") auto

lemma parseCertBlocks_parsed:
  "c \<in> set (fst (parseCertBlocks L blocks acc)) \<Longrightarrow> c \<in> set acc \<or> (\<exists>der. parseCertificate L der = Inr c)"
  by (induction L blocks acc rule: parseCertBlocks.induct) (auto split: if_splits sum.splits)

lemma certsIn_parsed: "c \<in> set (certsIn L value) \<Longrightarrow> \<exists>der. parseCertificate L der = Inr c"
  using parseCertBlocks_parsed [of c L _ "[]"]
  by (auto simp: certsIn_def parsePEMCertificates_def parseBase64Certificate_def split: if_splits option.splits sum.splits)

lemma certificatesFromStrings_Inr:
  assumes "certificatesFromStrings L vs = Inr certs"
  shows "certs = fold addCert (concat (map (certsIn L) vs)) []"
  using assms by (auto simp: certificatesFromStrings_def certsLoop_eq split: option.splits if_splits)

lemma certificatesFromStrings_parsed:
  assumes "x509_ok (parseCertificate L)" and "certificatesFromStrings L vs = Inr certs" and "c \<in> set certs"
  shows "parseCertificate L (Raw c) = Inr c"
proof -
  have "c \<in> set (concat (map (certsIn L) vs))"
    using certificatesFromStrings_Inr [OF assms(2)] fold_addCert_set [of "concat (map (certsIn L) vs)" "[]"] assms(3)
    by auto
  then obtain der where "parseCertificate L der = Inr c" by (auto dest: certsIn_parsed)
  with assms(1) show ?thesis by (auto simp: x509_ok_def)
qed

section \<open>A concrete library\<close>

text \<open>
  Three certificates, a request and a key with the library that knows them: a leaf issued by
  a self-signed root, and a certificate of another authority. The theorems with hypotheses on
  the library are evaluated on it.
\<close>

definition demo_leaf :: certificate where
  "demo_leaf = \<lparr>Raw = ''leaf'', RawSubject = ''app'', RawIssuer = ''ca'', certCommonName = ''app.example'', certOrganization = [], certOrganizationalUnit = [],
     certDNSNames = [''app.example'', ''www.example''], certIPAddresses = [], certEmailAddresses = [], certURIs = [],
     certNotBefore = 0, certNotAfter = 1000, certPublicKey = ECDSAKey ''k''\<rparr>"

definition demo_root :: certificate where
  "demo_root = \<lparr>Raw = ''root'', RawSubject = ''ca'', RawIssuer = ''ca'', certCommonName = ''CA'', certOrganization = [], certOrganizationalUnit = [],
     certDNSNames = [], certIPAddresses = [], certEmailAddresses = [], certURIs = [],
     certNotBefore = 0, certNotAfter = 5000, certPublicKey = RSAKey ''r''\<rparr>"

definition demo_other :: certificate where
  "demo_other = \<lparr>Raw = ''other'', RawSubject = ''x'', RawIssuer = ''y'', certCommonName = ''other.example'', certOrganization = [], certOrganizationalUnit = [],
     certDNSNames = [], certIPAddresses = [], certEmailAddresses = [], certURIs = [],
     certNotBefore = 0, certNotAfter = 5000, certPublicKey = ECDSAKey ''o''\<rparr>"

definition demo_request :: certificate_request where
  "demo_request = \<lparr>reqCommonName = ''app.example'', reqDNSNames = [''WWW.example''], reqIPAddresses = [],
     reqEmailAddresses = [], reqURIs = [], reqPublicKey = ECDSAKey ''k''\<rparr>"

definition demo_key :: private_key where
  "demo_key = \<lparr>keyBytes = ''key'', keyPublic = Some (ECDSAKey ''k'')\<rparr>"

definition demo_lib :: crypto_lib where
  "demo_lib = \<lparr>toLowerRune = (\<lambda>r. r), foldEqRune = (\<lambda>a b. False), isPrintRune = (\<lambda>r. False),
     formatFloat = (\<lambda>f. ''0.5''), float64ToInt64 = (\<lambda>f. - (2 ^ 63)),
     jsonErrorText = (\<lambda>b. ''invalid character''), rangeOrder = (\<lambda>n fs. fs),
     pemDecode = strictPem,
     parseCertificate = (\<lambda>der. case find (\<lambda>c. Raw c = der) [demo_leaf, demo_root, demo_other] of
        Some c \<Rightarrow> Inr c | None \<Rightarrow> Inl ''x509: malformed certificate''),
     checkSignatureFrom = (\<lambda>child parent. if Raw parent = ''root'' \<and> Raw child \<noteq> ''other'' then None
        else Some ''x509: verification error''),
     parseCertificateRequest = (\<lambda>der. if der = ''csr'' then Inr demo_request else Inl ''x509: malformed request''),
     checkSignature = (\<lambda>csr. None),
     parsePKCS8PrivateKey = (\<lambda>der. if der = ''key'' then Some demo_key else None),
     parsePKCS1PrivateKey = (\<lambda>der. None),
     parseECPrivateKey = (\<lambda>der. None),
     marshalPKCS8PrivateKey = (\<lambda>k. if k = demo_key then Inr ''key'' else Inl ''x509: unknown key type''),
     decryptPEMBlock = (\<lambda>b pw. Inl ''x509: decryption password incorrect'')\<rparr>"

lemma pemLabel_no_dash: "pemLabel ty \<Longrightarrow> CHR ''-'' \<notin> set ty"
proof
  assume "pemLabel ty" and "CHR ''-'' \<in> set ty"
  then have "CHR ''-'' = CHR '' '' \<or> 65 \<le> byte CHR ''-''" unfolding pemLabel_def list_all_iff by blast
  then show False by simp
qed

lemma demo_lib_pem: "pem_ok (pemDecode demo_lib)"
  using strictPem_shorter strictPem_pemEncode pemLabel_no_dash by (auto simp: pem_ok_def demo_lib_def)

lemma demo_lib_x509: "x509_ok (parseCertificate demo_lib)"
  by (auto simp: x509_ok_def demo_lib_def find_Some_iff split: option.splits)

lemmas demo_certs = demo_leaf_def demo_root_def demo_other_def demo_request_def demo_key_def

section \<open>Properties\<close>

lemma BuildBundle_chain:
  assumes "BuildBundle L certs key = Inr b" and "pem_ok (pemDecode L)"
    and "\<And>c. c \<in> set certs \<Longrightarrow> parseCertificate L (Raw c) = Inr c"
  shows "\<exists>chain. parsePEMCertificates L (ChainPEM b) = (Leaf b # chain, None)
    \<and> Leaf b \<in> set certs \<and> (publicKeyMatcher key \<longrightarrow> certPublicKey (Leaf b) = key)
    \<and> chain_above L (Leaf b) (filter (\<lambda>c. Raw c \<noteq> Raw (Leaf b)) certs) chain"
proof -
  from assms(1) obtain leaf where ne: "certs \<noteq> []" and leaf: "findLeaf certs key = Inr leaf"
    and b: "b = \<lparr>ChainPEM = encodeCertificates (leaf # chainAbove L leaf (filter (\<lambda>c. Raw c \<noteq> Raw leaf) certs)), Leaf = leaf\<rparr>"
    by (auto simp: BuildBundle_def Let_def split: if_splits sum.splits)
  define pool where "pool = filter (\<lambda>c. Raw c \<noteq> Raw leaf) certs"
  have ch: "chain_above L leaf pool (chainAbove L leaf pool)" by (rule chainAbove_chain_above)
  then have "mset (chainAbove L leaf pool) \<subseteq># mset pool" by (simp add: chain_above_def)
  then have "set (chainAbove L leaf pool) \<subseteq> set pool" by (metis set_mset_mono set_mset_mset)
  then have "set (leaf # chainAbove L leaf pool) \<subseteq> set certs"
    using findLeaf_Inr [OF ne leaf] by (auto simp: pool_def)
  then have "parsePEMCertificates L (encodeCertificates (leaf # chainAbove L leaf pool)) = (leaf # chainAbove L leaf pool, None)"
    using assms(2,3) by (intro parsePEM_encodeCertificates) auto
  then show ?thesis using b ch findLeaf_Inr [OF ne leaf] by (auto simp: pool_def)
qed

text \<open>
  C5. The bundle of a successful \<^verbatim>\<open>BuildBundle\<close>, read back by a PEM reader, is the leaf and a
  single chain above it: the leaf is one of the given certificates and carries the public key
  of the request, every other certificate of the bundle issued the one before it, comes from
  the given certificates, is used once, and the chain goes on until a self-signed issuer or
  until no remaining certificate is the issuer of its end.
\<close>

theorem BuildBundle_spec:
  assumes "BuildBundle L certs key = Inr b" and "pem_ok (pemDecode L)"
    and "\<And>c. c \<in> set certs \<Longrightarrow> parseCertificate L (Raw c) = Inr c"
  shows "\<exists>chain. parsePEMCertificates L (ChainPEM b) = (Leaf b # chain, None)
    \<and> Leaf b \<in> set certs \<and> (publicKeyMatcher key \<longrightarrow> certPublicKey (Leaf b) = key)
    \<and> chain_above L (Leaf b) (filter (\<lambda>c. Raw c \<noteq> Raw (Leaf b)) certs) chain"
  using assms by (rule BuildBundle_chain)

lemma demo_parse: "c \<in> {demo_other, demo_root, demo_leaf} \<Longrightarrow> parseCertificate demo_lib (Raw c) = Inr c"
  by (elim insertE) (simp_all add: demo_lib_def demo_certs)

definition demo_bundle :: Bundle where
  "demo_bundle = \<lparr>ChainPEM = encodeCertificates [demo_leaf, demo_root], Leaf = demo_leaf\<rparr>"

lemma demo_BuildBundle: "BuildBundle demo_lib [demo_other, demo_root, demo_leaf] (ECDSAKey ''k'') = Inr demo_bundle"
  by (simp add: BuildBundle_def findLeaf_def chainAbove.simps isSelfSigned_def demo_bundle_def demo_lib_def demo_certs)

theorem BuildBundle_spec_witness:
  "BuildBundle demo_lib [demo_other, demo_root, demo_leaf] (ECDSAKey ''k'') = Inr demo_bundle \<and>
   certPublicKey (Leaf demo_bundle) = ECDSAKey ''k''"
  using BuildBundle_spec [OF demo_BuildBundle demo_lib_pem] demo_parse demo_BuildBundle by auto

text \<open>
  \<^verbatim>\<open>BuildBundle\<close> fails exactly when there is no certificate, or when the request's key can be
  compared and no certificate carries it.
\<close>

theorem BuildBundle_error:
  "(\<exists>e. BuildBundle L certs key = Inl e) \<longleftrightarrow>
     certs = [] \<or> (publicKeyMatcher key \<and> key \<notin> certPublicKey ` set certs)"
  using findLeaf_Inl [of certs key] by (auto simp: BuildBundle_def Let_def split: sum.splits)


text \<open>
  C29. The order of the certificates in a response does not matter: when one certificate carries
  the key of the request and every certificate has at most one issuer among the others, any
  permutation of the certificates gives the same bundle or the same error.
\<close>

theorem BuildBundle_order:
  assumes perm: "mset certs = mset certs'" and key: "publicKeyMatcher key"
    and one: "\<And>c d. c \<in> set certs \<Longrightarrow> d \<in> set certs \<Longrightarrow> certPublicKey c = key \<Longrightarrow> certPublicKey d = key \<Longrightarrow> c = d"
    and iss: "\<And>c. c \<in> set certs \<Longrightarrow> one_issuer L certs c"
  shows "BuildBundle L certs key = BuildBundle L certs' key"
proof -
  have eq: "set certs = set certs'" using perm by (rule mset_eq_setD)
  have "find (\<lambda>c. key = certPublicKey c) certs = find (\<lambda>c. key = certPublicKey c) certs'"
    using eq one by (intro find_perm) auto
  then have leaf: "findLeaf certs key = findLeaf certs' key" using key by (auto simp: findLeaf_def)
  have above: "chainAbove L l (filter (\<lambda>c. Raw c \<noteq> Raw l) certs) = chainAbove L l (filter (\<lambda>c. Raw c \<noteq> Raw l) certs')"
    if "l \<in> set certs" for l
  proof (rule chainAbove_perm)
    show "mset (filter (\<lambda>c. Raw c \<noteq> Raw l) certs) = mset (filter (\<lambda>c. Raw c \<noteq> Raw l) certs')"
      using perm by (simp flip: filter_mset_eq_conv add: mset_filter)
    show "one_issuer L (filter (\<lambda>c. Raw c \<noteq> Raw l) certs) c"
      if "c \<in> insert l (set (filter (\<lambda>c. Raw c \<noteq> Raw l) certs))" for c
    proof -
      have "c \<in> set certs" using that \<open>l \<in> set certs\<close> by auto
      then show ?thesis by (rule one_issuer_subset [OF iss]) simp
    qed
  qed
  show ?thesis
  proof (cases "certs = []")
    case False
    then have "certs' \<noteq> []" using eq by auto
    with False show ?thesis
      using leaf above findLeaf_Inr [OF False, of key]
      by (auto simp: BuildBundle_def Let_def split: sum.splits)
  qed (use eq in simp)
qed

theorem BuildBundle_order_witness:
  "BuildBundle demo_lib [demo_other, demo_root, demo_leaf] (ECDSAKey ''k'')
     = BuildBundle demo_lib [demo_leaf, demo_other, demo_root] (ECDSAKey ''k'')"
proof (rule BuildBundle_order)
  show "mset [demo_other, demo_root, demo_leaf] = mset [demo_leaf, demo_other, demo_root]" by simp
  have "\<not> issues demo_lib demo_other c" "\<not> issues demo_lib demo_leaf c" for c
    by (simp_all add: issues_def demo_lib_def demo_certs)
  then have root: "d = demo_root" if "d \<in> set [demo_other, demo_root, demo_leaf]" "issues demo_lib d c" for c d
    using that by auto
  show "one_issuer demo_lib [demo_other, demo_root, demo_leaf] c" for c
    unfolding one_issuer_def using root by blast
  show "c = d" if "c \<in> set [demo_other, demo_root, demo_leaf]" "d \<in> set [demo_other, demo_root, demo_leaf]"
    "certPublicKey c = ECDSAKey ''k''" "certPublicKey d = ECDSAKey ''k''" for c d
  proof -
    have "certPublicKey demo_other \<noteq> ECDSAKey ''k''" "certPublicKey demo_root \<noteq> ECDSAKey ''k''"
      by (simp_all add: demo_certs)
    then show ?thesis using that by auto
  qed
qed simp

text \<open>
  \<^verbatim>\<open>certificatesFromStrings\<close> returns every certificate that some string of the response
  holds, whichever of the two encodings it uses, once each, and nothing else; each is the
  value its own DER bytes parse to.
\<close>

theorem certificatesFromStrings_spec:
  assumes "x509_ok (parseCertificate L)" and "certificatesFromStrings L vs = Inr certs"
  shows "distinct (map Raw certs)
    \<and> Raw ` set certs = (\<Union>v \<in> set vs. Raw ` set (certsIn L v))
    \<and> (\<forall>c. c \<in> set certs \<longrightarrow> parseCertificate L (Raw c) = Inr c)"
proof -
  have eq: "certs = fold addCert (concat (map (certsIn L) vs)) []"
    by (rule certificatesFromStrings_Inr [OF assms(2)])
  have "distinct (map Raw certs)" unfolding eq by (rule fold_addCert_distinct) simp
  moreover have "Raw ` set certs = (\<Union>v \<in> set vs. Raw ` set (certsIn L v))"
    unfolding eq fold_addCert_Raw by auto
  ultimately show ?thesis using certificatesFromStrings_parsed [OF assms] by blast
qed

lemma demo_certificatesFromStrings:
  "certificatesFromStrings demo_lib [''note'', ChainPEM demo_bundle, ChainPEM demo_bundle] = Inr [demo_leaf, demo_root]"
proof -
  have p: "parsePEMCertificates demo_lib (ChainPEM demo_bundle) = ([demo_leaf, demo_root], None)"
    unfolding demo_bundle_def Bundle.select_convs
    by (rule parsePEM_encodeCertificates [OF demo_lib_pem], rule demo_parse) auto
  have "contains (ChainPEM demo_bundle) ''-----BEGIN''" "\<not> contains ''note'' ''-----BEGIN''"
    by (simp_all add: demo_bundle_def encodeCertificates_def pemEncode_def)
  moreover have "parseBase64Certificate demo_lib ''note'' = None" by code_simp
  ultimately show ?thesis using p
    by (simp add: certificatesFromStrings_def addCert_def demo_certs)
qed

theorem certificatesFromStrings_spec_witness:
  "certificatesFromStrings demo_lib [''note'', ChainPEM demo_bundle, ChainPEM demo_bundle] = Inr [demo_leaf, demo_root]
   \<and> distinct (map Raw [demo_leaf, demo_root])"
  using certificatesFromStrings_spec [OF demo_lib_x509 demo_certificatesFromStrings] demo_certificatesFromStrings
  by blast

end
