(* ===== verification/Verify.thy ===== *)
theory Verify
  imports Chain
begin

text \<open>
  \<^verbatim>\<open>internal/kmp/verify.go\<close>: the check that the issued certificate carries every identity the
  request asked for. The locale \<open>name_check\<close> is the contract shared by the two checks of the
  package, this one and \<^verbatim>\<open>verifyProvisionedNames\<close> of the escrowed-key flow.
\<close>

section \<open>The check\<close>

definition containsFold :: "'r unicode_tables_scheme \<Rightarrow> string list \<Rightarrow> string \<Rightarrow> bool" where
  "containsFold U vals want = list_ex (\<lambda>value. equalFold U value want) vals"

text \<open>The loops over the issued addresses that set \<^verbatim>\<open>found\<close>.\<close>

definition containsIP :: "ip list \<Rightarrow> ip \<Rightarrow> bool" where
  "containsIP ips i = list_ex (\<lambda>issued. ipEqual issued i) ips"

definition missingCommonName :: "'r unicode_tables_scheme \<Rightarrow> string \<Rightarrow> string \<Rightarrow> string" where
  "missingCommonName U requested has =
     ''common name '' @ quote U requested @ '' (the certificate has '' @ quote U has @ '')''"

text \<open>The variable \<^verbatim>\<open>missing\<close> at the end of \<^verbatim>\<open>verifyRequestedNames\<close>.\<close>

definition missingNames :: "'r unicode_tables_scheme \<Rightarrow> certificate_request \<Rightarrow> certificate \<Rightarrow> string list" where
  "missingNames U csr leaf =
     (if reqCommonName csr \<noteq> [] \<and> \<not> equalFold U (reqCommonName csr) (certCommonName leaf)
      then [missingCommonName U (reqCommonName csr) (certCommonName leaf)] else [])
     @ map (\<lambda>name. ''DNS name '' @ quote U name)
         (filter (\<lambda>name. \<not> containsFold U (certDNSNames leaf) name) (reqDNSNames csr))
     @ map (\<lambda>i. ''IP address '' @ quote U (ipString i))
         (filter (\<lambda>i. \<not> containsIP (certIPAddresses leaf) i) (reqIPAddresses csr))
     @ map (\<lambda>email. ''email address '' @ quote U email)
         (filter (\<lambda>email. \<not> containsFold U (certEmailAddresses leaf) email) (reqEmailAddresses csr))
     @ map (\<lambda>uri. ''URI '' @ quote U uri)
         (filter (\<lambda>uri. \<not> list_ex (\<lambda>issued. issued = uri) (certURIs leaf)) (reqURIs csr))"

definition missingError :: "string list \<Rightarrow> goerr" where
  "missingError missing = errorfW ErrUnusableResponse
     ('': key manager plus returned a certificate that is missing '' @ join missing '', '' @ ''. ''
      @ ''A Microsoft CA template only keeps the subject and the subject alternative names of a request ''
      @ ''when it is configured to supply them from the request'')"

definition verifyRequestedNames :: "'r unicode_tables_scheme \<Rightarrow> certificate_request \<Rightarrow> certificate \<Rightarrow> goerr option" where
  "verifyRequestedNames U csr leaf =
     (let missing = missingNames U csr leaf in if missing = [] then None else Some (missingError missing))"

section \<open>The contract\<close>

datatype identity =
    CommonNameId string
  | DNSNameId string
  | IPAddressId ip
  | EmailId string
  | URIId string

text \<open>When a certificate carries an identity: up to case, and up to the form of an address.\<close>

fun carries :: "'r unicode_tables_scheme \<Rightarrow> certificate \<Rightarrow> identity \<Rightarrow> bool" where
  "carries U c (CommonNameId n) = equalFold U n (certCommonName c)"
| "carries U c (DNSNameId n) = (\<exists>v. v \<in> set (certDNSNames c) \<and> equalFold U v n)"
| "carries U c (IPAddressId i) = (\<exists>v. v \<in> set (certIPAddresses c) \<and> ipEqual v i)"
| "carries U c (EmailId n) = (\<exists>v. v \<in> set (certEmailAddresses c) \<and> equalFold U v n)"
| "carries U c (URIId u) = (u \<in> set (certURIs c))"

locale name_check =
  fixes tables :: "'r unicode_tables_scheme"
    and requested :: "'req \<Rightarrow> identity list"
    and missing :: "'req \<Rightarrow> certificate \<Rightarrow> string list"
    and check :: "'req \<Rightarrow> certificate \<Rightarrow> goerr option"
  assumes missing_iff: "missing r c = [] \<longleftrightarrow> (\<forall>i. i \<in> set (requested r) \<longrightarrow> carries tables c i)"
    and check_eq: "check r c = (if missing r c = [] then None else Some (missingError (missing r c)))"
begin

lemma accepts_iff: "check r c = None \<longleftrightarrow> (\<forall>i. i \<in> set (requested r) \<longrightarrow> carries tables c i)"
  by (simp add: check_eq missing_iff)

lemma rejects_permanently: "check r c = Some e \<Longrightarrow> IsPermanent e \<and> errIs e ErrUnusableResponse"
  by (auto simp: check_eq missingError_def error_simps split: if_splits)

end

text \<open>The identities a certificate signing request asks for.\<close>

definition requestedNames :: "certificate_request \<Rightarrow> identity list" where
  "requestedNames csr =
     (if reqCommonName csr = [] then [] else [CommonNameId (reqCommonName csr)])
     @ map DNSNameId (reqDNSNames csr) @ map IPAddressId (reqIPAddresses csr)
     @ map EmailId (reqEmailAddresses csr) @ map URIId (reqURIs csr)"

lemma containsFold_iff: "containsFold U vals w \<longleftrightarrow> (\<exists>v. v \<in> set vals \<and> equalFold U v w)"
  by (auto simp: containsFold_def list_ex_iff)

lemma containsIP_iff: "containsIP ips i \<longleftrightarrow> (\<exists>v. v \<in> set ips \<and> ipEqual v i)"
  by (auto simp: containsIP_def list_ex_iff)

lemma missingNames_iff:
  "missingNames U csr leaf = [] \<longleftrightarrow> (\<forall>i. i \<in> set (requestedNames csr) \<longrightarrow> carries U leaf i)"
  by (auto simp: missingNames_def requestedNames_def filter_empty_conv containsFold_iff containsIP_iff list_ex_iff)

interpretation csrNames: name_check U requestedNames "missingNames U" "verifyRequestedNames U" for U
  by unfold_locales (rule missingNames_iff, simp add: verifyRequestedNames_def Let_def)

section \<open>Properties\<close>

text \<open>
  C25. \<^verbatim>\<open>verifyRequestedNames\<close> accepts a certificate exactly when it carries the common name (if
  one was asked for), every DNS name, IP address, e-mail address and URI of the request; any
  refusal is permanent and wraps \<^verbatim>\<open>ErrUnusableResponse\<close>.
\<close>

theorem verifyRequestedNames_spec:
  "(verifyRequestedNames U csr leaf = None \<longleftrightarrow> set (requestedNames csr) \<subseteq> {i. carries U leaf i})
   \<and> {e. verifyRequestedNames U csr leaf = Some e} \<subseteq> {e. IsPermanent e \<and> errIs e ErrUnusableResponse}"
  using csrNames.accepts_iff [of U csr leaf] csrNames.rejects_permanently [of U csr leaf] by blast

end
