(* ===== verification/Client.thy ===== *)
theory Client
  imports Verify
begin

text \<open>
  \<^verbatim>\<open>internal/kmp/client.go\<close> and \<^verbatim>\<open>internal/kmp/create.go\<close>: the client of the Key Manager Plus PKI
  REST API. A request goes out through \<open>httpDo\<close>, an argument that stands for the HTTP client,
  the network and the server: it takes the state of the world and returns the answer and the
  next state. Everything the client does before and after that call is written out.
\<close>

section \<open>URLs and requests\<close>

text \<open>\<^verbatim>\<open>url.URL\<close>: the fields the program reads or writes, and the others.\<close>

record url =
  Scheme :: string
  Host :: string
  Path :: string
  RawQuery :: string
  urlOther :: string

record http_request =
  httpMethod :: string
  httpURL :: string
  httpHeaders :: "(string \<times> string) list"
  httpBody :: bytes

record tls_config =
  MinVersion :: nat
  InsecureSkipVerify :: bool
  RootCAs :: "certificate list option"

datatype transport = CustomTransport string | TLSTransport tls_config

record http_client =
  Transport :: transport
  Timeout :: int

text \<open>
  What \<^verbatim>\<open>httpClient.Do\<close> and reading the body can give: a transport failure, or a status code
  with the whole body, or with an error while reading it.
\<close>

datatype http_outcome =
    TransportFailed string
  | Answered int bytes
  | ReadFailed int string

text \<open>
  The environment: the URL package, the request constructor's check of method and URL, the
  boundary a multipart writer draws, the HTTP exchange, \<^verbatim>\<open>time.Now\<close> in nanoseconds, and the
  \<^verbatim>\<open>select\<close> between \<^verbatim>\<open>ctx.Done()\<close> (with the text of \<^verbatim>\<open>ctx.Err()\<close>) and \<^verbatim>\<open>time.After\<close>.
\<close>

record 'w env = crypto_lib +
  urlParse :: "string \<Rightarrow> string + url"
  urlString :: "url \<Rightarrow> string"
  newRequestError :: "string \<Rightarrow> string \<Rightarrow> string option"
  boundary :: "'w \<Rightarrow> string \<times> 'w"
  httpDo :: "http_client \<Rightarrow> http_request \<Rightarrow> 'w \<Rightarrow> http_outcome \<times> 'w"
  clock :: "'w \<Rightarrow> int \<times> 'w"
  waitFor :: "int \<Rightarrow> 'w \<Rightarrow> string option \<times> 'w"

text \<open>\<^verbatim>\<open>path.Join\<close>: the non-empty elements with slashes between them, cleaned.\<close>

fun splitOn :: "char \<Rightarrow> string \<Rightarrow> string list" where
  "splitOn c [] = [[]]"
| "splitOn c (x # xs) =
     (if x = c then [] # splitOn c xs
      else case splitOn c xs of [] \<Rightarrow> [[x]] | y # ys \<Rightarrow> (x # y) # ys)"

fun cleanElems :: "bool \<Rightarrow> string list \<Rightarrow> string list \<Rightarrow> string list" where
  "cleanElems rooted [] acc = acc"
| "cleanElems rooted (e # es) acc =
     (if e = [] \<or> e = ''.'' then cleanElems rooted es acc
      else if e = ''..'' then
        (if acc \<noteq> [] \<and> last acc \<noteq> ''..'' then cleanElems rooted es (butlast acc)
         else if rooted then cleanElems rooted es acc
         else cleanElems rooted es (acc @ [e]))
      else cleanElems rooted es (acc @ [e]))"

definition pathClean :: "string \<Rightarrow> string" where
  "pathClean p =
     (if p = [] then ''.''
      else let rooted = prefix ''/'' p;
               out = (if rooted then ''/'' else []) @ join (cleanElems rooted (splitOn CHR ''/'' p) []) ''/''
           in if out = [] then ''.'' else out)"

definition pathJoin :: "string list \<Rightarrow> string" where
  "pathJoin elems = (let es = filter (\<lambda>e. e \<noteq> []) elems in if es = [] then [] else pathClean (join es ''/''))"

text \<open>\<^verbatim>\<open>url.QueryEscape\<close>, and \<^verbatim>\<open>Values.Encode\<close> of a single parameter.\<close>

definition isUnreserved :: "char \<Rightarrow> bool" where
  "isUnreserved c = (isDigit c \<or> (65 \<le> byte c \<and> byte c \<le> 90) \<or> (97 \<le> byte c \<and> byte c \<le> 122)
     \<or> c = CHR ''-'' \<or> c = CHR ''_'' \<or> c = CHR ''.'' \<or> c = CHR ''~'')"

definition upperHexDigit :: "nat \<Rightarrow> char" where
  "upperHexDigit n = chr (if n < 10 then 48 + n else 55 + n)"

definition escapeQueryChar :: "char \<Rightarrow> string" where
  "escapeQueryChar c =
     (if isUnreserved c then [c] else if c = CHR '' '' then [CHR ''+'']
      else [CHR ''%'', upperHexDigit (byte c div 16), upperHexDigit (byte c mod 16)])"

definition queryEscape :: "string \<Rightarrow> string" where
  "queryEscape s = concat (map escapeQueryChar s)"

definition encodeQuery :: "(string \<times> string) list \<Rightarrow> string" where
  "encodeQuery q = join (map (\<lambda>(k, v). queryEscape k @ ''='' @ queryEscape v) q) ''&''"

text \<open>\<^verbatim>\<open>Header.Set\<close> stores its key in canonical form.\<close>

fun canonicalHeader :: "bool \<Rightarrow> string \<Rightarrow> string" where
  "canonicalHeader up [] = []"
| "canonicalHeader up (c # cs) =
     (if up \<and> 97 \<le> byte c \<and> byte c \<le> 122 then chr (byte c - 32)
      else if \<not> up \<and> 65 \<le> byte c \<and> byte c \<le> 90 then chr (byte c + 32) else c)
     # canonicalHeader (c = CHR ''-'') cs"

definition headerSet :: "string \<Rightarrow> string \<Rightarrow> (string \<times> string) list \<Rightarrow> (string \<times> string) list" where
  "headerSet k v h = setField (canonicalHeader True k) v h"

section \<open>The client\<close>

definition apiBasePath :: string where
  "apiBasePath = ''/api/pki/restapi''"

definition authTokenHeader :: string where
  "authTokenHeader = ''AUTHTOKEN''"

definition inputDataParam :: string where
  "inputDataParam = ''INPUT_DATA''"

text \<open>Durations are nanoseconds.\<close>

definition second :: int where
  "second = 1000000000"

definition defaultTimeout :: int where
  "defaultTimeout = 30 * second"

definition maxResponseBytes :: nat where
  "maxResponseBytes = 8 * 2 ^ 20"

definition opImportCSR :: string where "opImportCSR = ''importCSR''"
definition opSignCSR :: string where "opSignCSR = ''signCSR''"
definition opGetCertificate :: string where "opGetCertificate = ''getCertificate''"
definition opCreateCSR :: string where "opCreateCSR = ''createCSR''"
definition opExportCSR :: string where "opExportCSR = ''exportCSR''"

record Config =
  BaseURL :: string
  AuthToken :: string
  CABundle :: bytes
  InsecureSkipTLSVerify :: bool
  cfgTimeout :: int
  UserAgent :: string
  cfgTransport :: "string option"

record Client =
  baseURL :: url
  authToken :: string
  httpClient :: http_client
  userAgent :: string

text \<open>\<^verbatim>\<open>CertPool.AppendCertsFromPEM\<close>: the certificates that can be read are added.\<close>

definition certsFromPEM :: "'r crypto_lib_scheme \<Rightarrow> bytes \<Rightarrow> certificate list" where
  "certsFromPEM L pem = concat (map (\<lambda>block.
     if blockType block \<noteq> pemCertificateType \<or> blockHeaders block \<noteq> [] then []
     else case parseCertificate L (blockBytes block) of Inl _ \<Rightarrow> [] | Inr c \<Rightarrow> [c]) (pemBlocks L pem))"

text \<open>\<^verbatim>\<open>tls.VersionTLS12\<close>.\<close>

definition versionTLS12 :: nat where
  "versionTLS12 = 0x0303"

definition newTransport :: "'r crypto_lib_scheme \<Rightarrow> Config \<Rightarrow> goerr + transport" where
  "newTransport L cfg = (case cfgTransport cfg of
     Some t \<Rightarrow> Inr (CustomTransport t)
   | None \<Rightarrow>
     if CABundle cfg \<noteq> [] then
       (if certsFromPEM L (CABundle cfg) = []
        then Inl (ErrText ''no certificates found in the configured CA bundle'')
        else Inr (TLSTransport \<lparr>MinVersion = versionTLS12, InsecureSkipVerify = InsecureSkipTLSVerify cfg,
                                RootCAs = Some (certsFromPEM L (CABundle cfg))\<rparr>))
     else Inr (TLSTransport \<lparr>MinVersion = versionTLS12, InsecureSkipVerify = InsecureSkipTLSVerify cfg, RootCAs = None\<rparr>))"

definition NewClient :: "('w, 'r) env_scheme \<Rightarrow> Config \<Rightarrow> goerr + Client" where
  "NewClient E cfg =
     (if trimSpace (BaseURL cfg) = [] then Inl (ErrText ''key manager plus URL is empty'')
      else case urlParse E (trimSpace (BaseURL cfg)) of
        Inl e \<Rightarrow> Inl (Wrapf (''parsing key manager plus URL: '' @ e) [ErrText e])
      | Inr parsed \<Rightarrow>
        if Scheme parsed \<noteq> ''http'' \<and> Scheme parsed \<noteq> ''https''
        then Inl (ErrText (''key manager plus URL '' @ quote E (BaseURL cfg) @ '' must use http or https''))
        else if Host parsed = []
        then Inl (ErrText (''key manager plus URL '' @ quote E (BaseURL cfg) @ '' has no host''))
        else if trimSpace (AuthToken cfg) = [] then Inl (ErrText ''key manager plus auth token is empty'')
        else case newTransport E cfg of
          Inl err \<Rightarrow> Inl err
        | Inr t \<Rightarrow>
          Inr \<lparr>baseURL = parsed, authToken = trimSpace (AuthToken cfg),
               httpClient = \<lparr>Transport = t,
                  Timeout = (if cfgTimeout cfg \<le> 0 then defaultTimeout else cfgTimeout cfg)\<rparr>,
               userAgent = UserAgent cfg\<rparr>)"

definition endpoint :: "Client \<Rightarrow> string \<Rightarrow> url" where
  "endpoint c op = (baseURL c)\<lparr>Path := pathJoin [Path (baseURL c), apiBasePath, op], RawQuery := []\<rparr>"

text \<open>\<^verbatim>\<open>json.Marshal\<close> does not fail on the maps of strings, booleans and integers built here.\<close>

definition inputData :: "(string \<times> goany) list \<Rightarrow> goerr + string" where
  "inputData details = Inr (marshal (AMap [(''operation'', AMap [(''Details'', AMap details)])]))"

text \<open>A permanent \<^verbatim>\<open>*Error\<close> that wraps \<open>e\<close>; its other fields have their zero value.\<close>

definition permanentError :: "string \<Rightarrow> goerr \<Rightarrow> goerr" where
  "permanentError op e = KmpError (Error op 0 [] [] [] True (Some e))"

definition requestHeaders :: "Client \<Rightarrow> string \<Rightarrow> (string \<times> string) list" where
  "requestHeaders c contentType =
     (let h = headerSet ''Accept'' ''application/json'' (headerSet authTokenHeader (authToken c) []);
          h = (if contentType \<noteq> [] then headerSet ''Content-Type'' contentType h else h)
      in if userAgent c \<noteq> [] then headerSet ''User-Agent'' (userAgent c) h else h)"

text \<open>\<^verbatim>\<open>do\<close>: an empty query and an empty body stand for the nil ones.\<close>

definition doRequest :: "('w, 'r) env_scheme \<Rightarrow> Client \<Rightarrow> string \<Rightarrow> string \<Rightarrow> (string \<times> string) list
    \<Rightarrow> bytes \<Rightarrow> string \<Rightarrow> 'w \<Rightarrow> (goerr + int \<times> bytes) \<times> 'w" where
  "doRequest E c meth op query bdy contentType w =
     (let ep = (if query \<noteq> [] then (endpoint c op)\<lparr>RawQuery := encodeQuery query\<rparr> else endpoint c op) in
      case newRequestError E meth (urlString E ep) of
        Some e \<Rightarrow> (Inl (permanentError op (Wrapf (''building request: '' @ e) [ErrText e])), w)
      | None \<Rightarrow>
        let req = \<lparr>httpMethod = meth, httpURL = urlString E ep, httpHeaders = requestHeaders c contentType,
                   httpBody = bdy\<rparr>
        in case httpDo E (httpClient c) req w of
          (TransportFailed e, w') \<Rightarrow> (Inl (KmpError (Error op 0 [] [] [] False (Some (ErrText e)))), w')
        | (ReadFailed st e, w') \<Rightarrow>
            (Inl (KmpError (Error op st [] [] [] False (Some (Wrapf (''reading response: '' @ e) [ErrText e])))), w')
        | (Answered st raw, w') \<Rightarrow> (Inr (st, take maxResponseBytes raw), w'))"


section \<open>Calls\<close>

text \<open>
  The error of a non-2xx answer; the status and message of the body are recorded when it
  parses. Each query of the response is a \<^verbatim>\<open>range\<close> of its own, so each has its own index.
\<close>

definition httpStatusError :: "'r go_runtime_scheme \<Rightarrow> string \<Rightarrow> int \<Rightarrow> bytes \<Rightarrow> goerr" where
  "httpStatusError R op st raw = (case parseResponse R raw of
     Inr parsed \<Rightarrow> KmpError (Error op st (status R 0 parsed) (message R 1 parsed)
                     (truncate_str raw maxRecordedBody) (permanentStatus st) None)
   | Inl _ \<Rightarrow> KmpError (Error op st [] [] (truncate_str raw maxRecordedBody) (permanentStatus st) None))"

definition reportedFailure :: "'r go_runtime_scheme \<Rightarrow> string \<Rightarrow> int \<Rightarrow> response \<Rightarrow> goerr" where
  "reportedFailure R op st parsed =
     KmpError (Error op st (status R 4 parsed) (message R 5 parsed) (truncatedBody parsed) True None)"

definition isSuccessCode :: "int \<Rightarrow> bool" where
  "isSuccessCode st = (\<not> (st < 200 \<or> st > 299))"

definition call :: "('w, 'r) env_scheme \<Rightarrow> Client \<Rightarrow> string \<Rightarrow> string \<Rightarrow> (string \<times> string) list
    \<Rightarrow> bytes \<Rightarrow> string \<Rightarrow> 'w \<Rightarrow> (goerr + response) \<times> 'w" where
  "call E c meth op query bdy contentType w = (case doRequest E c meth op query bdy contentType w of
     (Inl err, w') \<Rightarrow> (Inl err, w')
   | (Inr (st, raw), w') \<Rightarrow>
     if \<not> isSuccessCode st then (Inl (httpStatusError E op st raw), w')
     else case parseResponse E raw of
       Inl parseErr \<Rightarrow> (Inl (KmpError (Error op st [] [] (truncate_str raw maxRecordedBody) True (Some parseErr))), w')
     | Inr parsed \<Rightarrow>
       if \<not> succeeded E 2 parsed then (Inl (reportedFailure E op st parsed), w')
       else (Inr parsed, w'))"

definition callRaw :: "('w, 'r) env_scheme \<Rightarrow> Client \<Rightarrow> string \<Rightarrow> string \<Rightarrow> (string \<times> string) list
    \<Rightarrow> 'w \<Rightarrow> (goerr + bytes) \<times> 'w" where
  "callRaw E c meth op query w = (case doRequest E c meth op query [] [] w of
     (Inl err, w') \<Rightarrow> (Inl err, w')
   | (Inr (st, raw), w') \<Rightarrow>
     if \<not> isSuccessCode st then (Inl (httpStatusError E op st raw), w')
     else case parseResponse E raw of
       Inr parsed \<Rightarrow>
         if \<not> succeeded E 2 parsed then (Inl (reportedFailure E op st parsed), w')
         else if raw = [] then
           (Inl (KmpError (Error op st [] [] [] False (Some (ErrText ''the response is empty'')))), w')
         else (Inr raw, w')
     | Inl _ \<Rightarrow>
         if raw = [] then
           (Inl (KmpError (Error op st [] [] [] False (Some (ErrText ''the response is empty'')))), w')
         else (Inr raw, w'))"

section \<open>Operations\<close>

record CSR =
  CSR_ID :: string
  CSR_CommonName :: string
  CSR_Response :: string

definition csrIDKeys :: "string list" where
  "csrIDKeys = [''CSR_ID'', ''csrId'', ''csrID'', ''csrid'', ''certificateRequestId'', ''id'']"

definition commonNameKeys :: "string list" where
  "commonNameKeys = [''commonName'', ''common_name'', ''CNAME'', ''cn'', ''subjectCommonName'']"

definition serialNumberKeys :: "string list" where
  "serialNumberKeys = [''serialNumber'', ''serial_number'', ''serialNo'', ''serial'']"

definition certificateIDKeys :: "string list" where
  "certificateIDKeys = [''Certificate_ID'', ''certificateId'', ''certificateID'', ''certId'']"

text \<open>
  The multipart body of \<^verbatim>\<open>importCSR\<close>. Writing to a \<^verbatim>\<open>bytes.Buffer\<close> never fails, so the error
  branches of the writer are unreachable.
\<close>

definition crlf :: string where
  "crlf = [CHR 0x0D, CHR 0x0A]"

definition dquote :: string where
  "dquote = [CHR 0x22]"

definition importBody :: "string \<Rightarrow> bytes \<Rightarrow> string \<Rightarrow> bytes" where
  "importBody bnd csrPEM input =
     ''--'' @ bnd @ crlf
     @ ''Content-Disposition: form-data; name='' @ dquote @ ''CSR'' @ dquote
     @ ''; filename='' @ dquote @ ''request.csr'' @ dquote @ crlf
     @ ''Content-Type: application/octet-stream'' @ crlf @ crlf
     @ csrPEM @ crlf
     @ ''--'' @ bnd @ crlf
     @ ''Content-Disposition: form-data; name='' @ dquote @ inputDataParam @ dquote @ crlf @ crlf
     @ input @ crlf
     @ ''--'' @ bnd @ ''--'' @ crlf"

definition ImportCSR :: "('w, 'r) env_scheme \<Rightarrow> Client \<Rightarrow> bytes \<Rightarrow> string \<Rightarrow> 'w \<Rightarrow> (goerr + CSR) \<times> 'w" where
  "ImportCSR E c csrPEM email w =
     (if csrPEM = [] then (Inl (permanentError opImportCSR (ErrText ''CSR is empty'')), w)
      else case inputData (if email \<noteq> [] then [(''Email'', AStr email)] else []) of
        Inl err \<Rightarrow> (Inl (permanentError opImportCSR err), w)
      | Inr encodedInput \<Rightarrow>
        (let (bnd, w) = boundary E w in
         case call E c ''POST'' opImportCSR [] (importBody bnd csrPEM encodedInput)
                ((''multipart/form-data; boundary='') @ bnd) w of
           (Inl err, w') \<Rightarrow> (Inl err, w')
         | (Inr parsed, w') \<Rightarrow>
             (Inr \<lparr>CSR_ID = orEmpty (findString E 10 parsed csrIDKeys),
                   CSR_CommonName = orEmpty (findString E 11 parsed commonNameKeys),
                   CSR_Response = truncatedBody parsed\<rparr>, w')))"

definition FindCSRID :: "('w, 'r) env_scheme \<Rightarrow> Client \<Rightarrow> string \<Rightarrow> string \<Rightarrow> 'w \<Rightarrow> (goerr + string) \<times> 'w" where
  "FindCSRID E c operation commonName w =
     (if operation = [] then
        (Inl (permanentError ''findCSRID'' (ErrText ''no CSR lookup operation is configured'')), w)
      else if commonName = [] then
        (Inl (permanentError operation (ErrText ''the request has no common name to look up'')), w)
      else case inputData [(''common_name'', AStr commonName), (''CNAME'', AStr commonName)] of
        Inl err \<Rightarrow> (Inl (permanentError operation err), w)
      | Inr encodedInput \<Rightarrow>
        (case call E c ''GET'' operation [(inputDataParam, encodedInput)] [] [] w of
           (Inl err, w') \<Rightarrow> (Inl err, w')
         | (Inr parsed, w') \<Rightarrow>
           (case findIDForCommonName E 12 parsed commonName csrIDKeys commonNameKeys of
              Some i \<Rightarrow> (Inr i, w')
            | None \<Rightarrow>
              let ids = collectStringsFor E parsed csrIDKeys in
              if length ids = 1 \<and> collectStringsFor E parsed commonNameKeys = [] then (Inr (hd ids), w')
              else (Inl (KmpError (Error operation 0 [] (message E 13 parsed) (truncatedBody parsed) False
                     (Some (ErrText (''no CSR id for common name '' @ quote E commonName @ '' in the response''))))), w'))))"

record SignRequest =
  CSRID :: string
  SignType :: string
  ServerName :: string
  CAName :: string
  TemplateName :: string
  AgentName :: string
  AgentResponseTimeoutSeconds :: "int option"
  RootCertificateCommonName :: string
  RootCertificateSerialNumber :: string
  ValidityDays :: "int option"
  IsIntermediate :: "bool option"

record SignResult =
  CertificateID :: string
  SR_CommonName :: string
  SR_SerialNumber :: string

text \<open>A field that is sent when the pointer is not nil.\<close>

definition ifSet :: "string \<Rightarrow> ('a \<Rightarrow> goany) \<Rightarrow> 'a option \<Rightarrow> (string \<times> goany) list" where
  "ifSet k f p = (case p of Some v \<Rightarrow> [(k, f v)] | None \<Rightarrow> [])"

definition SignRequest_details :: "SignRequest \<Rightarrow> (string \<times> goany) list" where
  "SignRequest_details r =
     (let signType = (if SignType r = [] then ''MSCA'' else SignType r);
          msca = [(''serverName'', AStr (ServerName r)), (''caName'', AStr (CAName r)),
                  (''templateName'', AStr (TemplateName r))]
      in [(''CSR_ID'', AStr (CSRID r)), (''signType'', AStr signType)]
         @ (if signType = ''signWithRoot'' then
              [(''rootCertificateCommonName'', AStr (RootCertificateCommonName r))]
              @ (if RootCertificateSerialNumber r \<noteq> []
                 then [(''rootCertificateSerialNumber'', AStr (RootCertificateSerialNumber r))] else [])
              @ ifSet ''Validity'' (\<lambda>d. AStr (itoa d)) (ValidityDays r)
              @ ifSet ''isIntermediate'' ABool (IsIntermediate r)
            else if signType = ''MSCAusingAgent'' then
              msca @ [(''agentName'', AStr (AgentName r))]
              @ ifSet ''agentResponseTimeout'' AInt (AgentResponseTimeoutSeconds r)
            else msca))"

definition SignCSR :: "('w, 'r) env_scheme \<Rightarrow> Client \<Rightarrow> SignRequest \<Rightarrow> 'w \<Rightarrow> (goerr + SignResult) \<times> 'w" where
  "SignCSR E c req w =
     (if CSRID req = [] then (Inl (permanentError opSignCSR (ErrText ''CSR id is empty'')), w)
      else case inputData (SignRequest_details req) of
        Inl err \<Rightarrow> (Inl (permanentError opSignCSR err), w)
      | Inr encodedInput \<Rightarrow>
        (case call E c ''POST'' opSignCSR [(inputDataParam, encodedInput)] [] [] w of
           (Inl err, w') \<Rightarrow> (Inl err, w')
         | (Inr parsed, w') \<Rightarrow>
           let result = \<lparr>CertificateID = orEmpty (findString E 14 parsed certificateIDKeys),
                         SR_CommonName = orEmpty (findString E 15 parsed commonNameKeys),
                         SR_SerialNumber = orEmpty (findString E 16 parsed serialNumberKeys)\<rparr>
           in if SR_CommonName result = [] \<and> SR_SerialNumber result = [] \<and> CertificateID result = []
              then (Inl (KmpError (Error opSignCSR 0 [] (message E 17 parsed) (truncatedBody parsed) True
                     (Some (ErrText ''the response identifies no signed certificate'')))), w')
              else (Inr result, w')))"

definition GetCertificate :: "('w, 'r) env_scheme \<Rightarrow> Client \<Rightarrow> string \<Rightarrow> string \<Rightarrow> 'w
    \<Rightarrow> (goerr + certificate list) \<times> 'w" where
  "GetCertificate E c commonName serialNumber w =
     (if commonName = [] \<and> serialNumber = [] then
        (Inl (permanentError opGetCertificate (ErrText ''neither common name nor serial number is known'')), w)
      else case inputData ((if commonName \<noteq> [] then [(''common_name'', AStr commonName)] else [])
                  @ (if serialNumber \<noteq> [] then [(''serial_number'', AStr serialNumber)] else [])) of
        Inl err \<Rightarrow> (Inl (permanentError opGetCertificate err), w)
      | Inr encodedInput \<Rightarrow>
        (case call E c ''GET'' opGetCertificate [(inputDataParam, encodedInput)] [] [] w of
           (Inl err, w') \<Rightarrow> (Inl err, w')
         | (Inr parsed, w') \<Rightarrow>
           (case certificatesFromStrings E (collectStrings parsed) of
              Inl err \<Rightarrow> (Inl (KmpError (Error opGetCertificate 0 [] [] (truncatedBody parsed) True (Some err))), w')
            | Inr certs \<Rightarrow>
              if certs = [] then
                (Inl (KmpError (Error opGetCertificate 0 [] (message E 18 parsed) (truncatedBody parsed) False
                   (Some (ErrText ''the response carries no certificate'')))), w')
              else (Inr certs, w'))))"

definition Ping :: "('w, 'r) env_scheme \<Rightarrow> Client \<Rightarrow> 'w \<Rightarrow> goerr option \<times> 'w" where
  "Ping E c w = (case GetCertificate E c ''kmp-issuer-connectivity-probe.invalid'' [] w of
     (Inr _, w') \<Rightarrow> (None, w')
   | (Inl err, w') \<Rightarrow>
     if IsAuthFailure E err then (Some err, w')
     else case errAs err of
       None \<Rightarrow> (Some err, w')
     | Some kmpErr \<Rightarrow>
       if isSuccessCode (StatusCode kmpErr) \<and> Op kmpErr = opGetCertificate
          \<and> (case Err kmpErr of Some e \<Rightarrow> contains (errorText E e) ''no certificate'' | None \<Rightarrow> False)
       then (None, w')
       else if isSuccessCode (StatusCode kmpErr) \<and> APIStatus kmpErr \<noteq> [] then (None, w')
       else (Some err, w'))"

record CreateCSRRequest =
  CC_CommonName :: string
  CC_AltNames :: "string list"
  CC_Organization :: string
  CC_OrganizationalUnit :: string
  CC_Location :: string
  CC_State :: string
  CC_Country :: string
  CC_Password :: string
  CC_KeyAlgorithm :: string
  CC_KeyLength :: int
  CC_SignatureAlgorithm :: string
  CC_StoreType :: string
  CC_ValidityType :: string
  CC_ValidityDays :: "int option"

text \<open>
  The order in which the \<^verbatim>\<open>optional\<close> map is ranged over does not matter: its keys are distinct
  and \<^verbatim>\<open>json.Marshal\<close> sorts them.
\<close>

definition CreateCSRRequest_details :: "CreateCSRRequest \<Rightarrow> (string \<times> goany) list" where
  "CreateCSRRequest_details r =
     [(''CNAME'', AStr (CC_CommonName r))]
     @ map (\<lambda>(k, v). (k, AStr v)) (filter (\<lambda>(k, v). v \<noteq> [])
         [(''ALT_NAMES'', join (CC_AltNames r) '',''), (''ORG'', CC_Organization r),
          (''ORGUNIT'', CC_OrganizationalUnit r), (''LOCATION'', CC_Location r), (''STATE'', CC_State r),
          (''COUNTRY'', CC_Country r), (''PASSWORD'', CC_Password r), (''ALG'', CC_KeyAlgorithm r),
          (''SIGALG'', CC_SignatureAlgorithm r), (''StoreType'', CC_StoreType r)])
     @ (if CC_KeyLength r > 0 then [(''LEN'', AStr (itoa (CC_KeyLength r)))] else [])
     @ (if CC_ValidityType r \<noteq> [] then [(''VALIDITY_TYPE'', AStr (CC_ValidityType r))] else [])
     @ ifSet ''VALIDITY'' (\<lambda>d. AStr (itoa d)) (CC_ValidityDays r)"

definition CreateCSR :: "('w, 'r) env_scheme \<Rightarrow> Client \<Rightarrow> CreateCSRRequest \<Rightarrow> 'w \<Rightarrow> (goerr + CSR) \<times> 'w" where
  "CreateCSR E c req w =
     (if trimSpace (CC_CommonName req) = [] then
        (Inl (permanentError opCreateCSR (ErrText ''the request has no common name'')), w)
      else case inputData (CreateCSRRequest_details req) of
        Inl err \<Rightarrow> (Inl (permanentError opCreateCSR err), w)
      | Inr encodedInput \<Rightarrow>
        (case call E c ''POST'' opCreateCSR [(inputDataParam, encodedInput)] [] [] w of
           (Inl err, w') \<Rightarrow> (Inl err, w')
         | (Inr parsed, w') \<Rightarrow>
           let commonName = orEmpty (findString E 20 parsed commonNameKeys)
           in (Inr \<lparr>CSR_ID = orEmpty (findString E 19 parsed csrIDKeys),
                    CSR_CommonName = (if commonName = [] then CC_CommonName req else commonName),
                    CSR_Response = truncatedBody parsed\<rparr>, w')))"

definition FileTypePrivateKey :: string where
  "FileTypePrivateKey = ''PrivateKey''"

definition ExportCSR :: "('w, 'r) env_scheme \<Rightarrow> Client \<Rightarrow> string \<Rightarrow> string \<Rightarrow> 'w \<Rightarrow> (goerr + bytes) \<times> 'w" where
  "ExportCSR E c csrID fileType w =
     (if csrID = [] then (Inl (permanentError opExportCSR (ErrText ''no CSR id to export'')), w)
      else case inputData [(''CSR_ID'', AStr csrID),
                  (''fileType'', AStr (if fileType = [] then FileTypePrivateKey else fileType))] of
        Inl err \<Rightarrow> (Inl (permanentError opExportCSR err), w)
      | Inr encodedInput \<Rightarrow> callRaw E c ''GET'' opExportCSR [(inputDataParam, encodedInput)] w)"

end
