(* ===== verification/ClientSpec.thy ===== *)
theory ClientSpec
  imports Client
begin

text \<open>
  What the API operations promise: which error every failure is, what a retry can expect of it,
  what the server receives, and which certificate signing request an identifier stands for.
  The locale \<open>api_operation\<close> is the contract of one operation; it is interpreted on the six
  operations of the client, and the signer relies on it alone.
\<close>

section \<open>The contract of an operation\<close>

text \<open>The error of operation \<open>op\<close>: an \<^verbatim>\<open>*Error\<close> of that operation with a bounded body that wraps no sentinel.\<close>

definition maxErrorBody :: nat where
  "maxErrorBody = maxRecordedBody + length ''... (truncated)''"

definition plainErr :: "goerr option \<Rightarrow> bool" where
  "plainErr e \<longleftrightarrow> (case e of None \<Rightarrow> True | Some x \<Rightarrow> (\<exists>s. x = ErrText s \<or> (\<exists>t. x = Wrapf t [ErrText s])))"

definition api_error :: "string \<Rightarrow> goerr \<Rightarrow> bool" where
  "api_error op e \<longleftrightarrow>
     (\<exists>k. e = KmpError k \<and> Op k = op \<and> length (Body k) \<le> maxErrorBody \<and> plainErr (Err k))"

lemma api_errorI:
  "Op k = op \<Longrightarrow> length (Body k) \<le> maxErrorBody \<Longrightarrow> plainErr (Err k) \<Longrightarrow> api_error op (KmpError k)"
  by (simp add: api_error_def)

lemma plainErr_simps [simp]:
  "plainErr None" "plainErr (Some (ErrText s))" "plainErr (Some (Wrapf t [ErrText s]))"
  by (simp_all add: plainErr_def)

lemma plainErr_no_sentinel:
  "plainErr (Some x) \<Longrightarrow> \<not> errIs x ErrInvalidConfig \<and> \<not> errIs x ErrUnusableResponse"
  by (auto simp: plainErr_def)

lemma IsPermanent_plain: "plainErr (Err k) \<Longrightarrow> IsPermanent (KmpError k) = Permanent k"
  using plainErr_no_sentinel by (cases "Err k") (auto simp: IsPermanent_def)

locale api_operation =
  fixes op :: string
    and run :: "'a \<Rightarrow> 'w \<Rightarrow> (goerr + 'b) \<times> 'w"
  assumes failure: "run a w = (Inl e, w') \<Longrightarrow> api_error op e"
begin

lemma permanent_iff:
  assumes "run a w = (Inl e, w')"
  obtains k where "errAs e = Some k" and "Op k = op" and "IsPermanent e = Permanent k"
proof -
  from failure [OF assms] obtain k where k: "e = KmpError k" "Op k = op" "plainErr (Err k)"
    by (auto simp: api_error_def)
  show ?thesis using that k by (auto simp: IsPermanent_plain)
qed

text \<open>Wrapping the error with \<^verbatim>\<open>%w\<close>, as the callers do, keeps what the controllers look at.\<close>

lemma wrapped:
  assumes "run a w = (Inl e, w')"
  shows "errAs (Wrapf s [e]) = errAs e" and "IsPermanent (Wrapf s [e]) = IsPermanent e"
    and "IsAuthFailure U (Wrapf s [e]) = IsAuthFailure U e" and "\<not> errIs (Wrapf s [e]) ErrInvalidConfig"
proof -
  from failure [OF assms] obtain k where k: "e = KmpError k" "plainErr (Err k)" by (auto simp: api_error_def)
  then show "errAs (Wrapf s [e]) = errAs e" "IsPermanent (Wrapf s [e]) = IsPermanent e"
    "IsAuthFailure U (Wrapf s [e]) = IsAuthFailure U e" by (simp_all add: IsAuthFailure_def)
  show "\<not> errIs (Wrapf s [e]) ErrInvalidConfig" using k plainErr_no_sentinel by (cases "Err k") auto
qed

end

section \<open>Bounds\<close>

lemma truncate_str_length: "length (truncate_str s mx) \<le> mx + length ''... (truncated)''"
  by (simp add: truncate_str_def Let_def)

lemma recorded_length [simp]: "length (truncate_str s maxRecordedBody) \<le> maxErrorBody"
  using truncate_str_length [of s maxRecordedBody] by (simp add: maxErrorBody_def)

lemma truncatedBody_length [simp]: "length (truncatedBody r) \<le> maxErrorBody"
  by (simp add: truncatedBody_def)

section \<open>Every failure of a call\<close>

lemma api_error_permanentError [simp]:
  "api_error op (permanentError op (ErrText s))" "api_error op (permanentError op (Wrapf t [ErrText s]))"
  by (simp_all add: permanentError_def api_error_def)

lemma httpStatusError_api [simp]: "api_error op (httpStatusError R op st raw)"
  by (simp add: httpStatusError_def api_error_def split: sum.splits)

lemma reportedFailure_api [simp]: "api_error op (reportedFailure R op st p)"
  by (simp add: reportedFailure_def api_error_def)

lemma doRequest_failure:
  "doRequest E c meth op q b ct w = (Inl e, w') \<Longrightarrow> api_error op e"
  by (auto simp: doRequest_def Let_def api_error_def permanentError_def split: option.splits http_outcome.splits prod.splits)

lemma parseResponse_plain: "parseResponse R raw = Inl e \<Longrightarrow> plainErr (Some e)"
  by (auto simp: parseResponse_def split: option.splits)

lemma call_failure:
  assumes "call E c meth op q b ct w = (Inl e, w')"
  shows "api_error op e"
proof (cases "doRequest E c meth op q b ct w")
  case (Pair r w1)
  show ?thesis
  proof (cases r)
    case (Inl e1)
    with Pair assms have "e1 = e" by (simp add: call_def)
    with Inl Pair show ?thesis by (auto intro: doRequest_failure)
  next
    case (Inr p)
    then obtain st raw where p: "r = Inr (st, raw)" by (cases p) auto
    show ?thesis
    proof (cases "parseResponse E raw")
      case (Inl pe)
      with assms Pair p have "e = httpStatusError E op st raw
        \<or> e = KmpError (Error op st [] [] (truncate_str raw maxRecordedBody) True (Some pe))"
        by (simp add: call_def split: if_splits)
      then show ?thesis using parseResponse_plain [OF Inl] by (auto intro: api_errorI)
    next
      case (Inr parsed)
      with assms Pair p show ?thesis by (auto simp: call_def split: if_splits)
    qed
  qed
qed

lemma callRaw_failure:
  assumes "callRaw E c meth op q w = (Inl e, w')"
  shows "api_error op e"
proof (cases "doRequest E c meth op q [] [] w")
  case (Pair r w1)
  show ?thesis
  proof (cases r)
    case (Inl e1)
    with Pair assms have "e1 = e" by (simp add: callRaw_def)
    with Inl Pair show ?thesis by (auto intro: doRequest_failure)
  next
    case (Inr p)
    then obtain st raw where p: "r = Inr (st, raw)" by (cases p) auto
    with assms Pair show ?thesis
      by (cases "parseResponse E raw") (auto simp: callRaw_def api_error_def [of _ "KmpError _"] split: if_splits)
  qed
qed


section \<open>The operations fulfil the contract\<close>

lemma parseCertBlocks_plain: "parseCertBlocks L bs acc = (cs, Some e) \<Longrightarrow> plainErr (Some e)"
  by (induction L bs acc rule: parseCertBlocks.induct) (auto split: if_splits sum.splits)

lemma certErr_plain: "certErr L v = Some e \<Longrightarrow> plainErr (Some e)"
  by (cases "parsePEMCertificates L v")
    (auto simp: certErr_def parsePEMCertificates_def split: if_splits dest: parseCertBlocks_plain)

lemma certificatesFromStrings_plain: "certificatesFromStrings L vs = Inl e \<Longrightarrow> plainErr (Some e)"
  by (auto simp: certificatesFromStrings_def certsLoop_eq split: option.splits if_splits
      dest!: first_some_SomeD certErr_plain)

lemmas op_splits = if_splits sum.splits prod.splits option.splits

lemma ImportCSR_failure: "ImportCSR E c csrPEM email w = (Inl e, w') \<Longrightarrow> api_error opImportCSR e"
  by (auto simp: ImportCSR_def inputData_def split: op_splits dest: call_failure)

lemma SignCSR_failure: "SignCSR E c req w = (Inl e, w') \<Longrightarrow> api_error opSignCSR e"
  by (auto simp: SignCSR_def inputData_def Let_def split: op_splits dest: call_failure intro!: api_errorI)

lemma GetCertificate_failure: "GetCertificate E c cn sn w = (Inl e, w') \<Longrightarrow> api_error opGetCertificate e"
  by (auto simp: GetCertificate_def inputData_def split: op_splits dest: call_failure certificatesFromStrings_plain
      intro!: api_errorI)

lemma CreateCSR_failure: "CreateCSR E c req w = (Inl e, w') \<Longrightarrow> api_error opCreateCSR e"
  by (auto simp: CreateCSR_def inputData_def Let_def split: op_splits dest: call_failure)

lemma ExportCSR_failure: "ExportCSR E c i ft w = (Inl e, w') \<Longrightarrow> api_error opExportCSR e"
  by (auto simp: ExportCSR_def inputData_def split: op_splits dest: callRaw_failure)

definition lookupOp :: "string \<Rightarrow> string" where
  "lookupOp operation = (if operation = [] then ''findCSRID'' else operation)"

lemma FindCSRID_failure: "FindCSRID E c operation cn w = (Inl e, w') \<Longrightarrow> api_error (lookupOp operation) e"
  by (auto simp: FindCSRID_def lookupOp_def inputData_def Let_def split: op_splits dest: call_failure intro!: api_errorI)

interpretation importCSR: api_operation opImportCSR "\<lambda>(csrPEM, email). ImportCSR E c csrPEM email" for E c
  by unfold_locales (auto dest: ImportCSR_failure)

interpretation signCSR: api_operation opSignCSR "SignCSR E c" for E c
  by unfold_locales (rule SignCSR_failure)

interpretation getCertificate: api_operation opGetCertificate "\<lambda>(cn, sn). GetCertificate E c cn sn" for E c
  by unfold_locales (auto dest: GetCertificate_failure)

interpretation createCSR: api_operation opCreateCSR "CreateCSR E c" for E c
  by unfold_locales (rule CreateCSR_failure)

interpretation exportCSR: api_operation opExportCSR "\<lambda>(i, ft). ExportCSR E c i ft" for E c
  by unfold_locales (auto dest: ExportCSR_failure)

interpretation findCSRID: api_operation "lookupOp operation" "FindCSRID E c operation" for E c operation
  by unfold_locales (rule FindCSRID_failure)


section \<open>A concrete environment\<close>

text \<open>
  The demonstration library with a scripted server: the world is the time, the answers still to
  come and whatever else a caller keeps. An exchange takes no time and a wait takes exactly its
  duration.
\<close>

type_synonym 'x demo_world = "int \<times> http_outcome list \<times> 'x"

definition demo_httpDo :: "http_client \<Rightarrow> http_request \<Rightarrow> 'x demo_world \<Rightarrow> http_outcome \<times> 'x demo_world" where
  "demo_httpDo cl req w = (case w of (t, as, st) \<Rightarrow> (case as of
     [] \<Rightarrow> (TransportFailed ''connection refused'', w) | a # as \<Rightarrow> (a, (t, as, st))))"

definition demo_urlString :: "url \<Rightarrow> string" where
  "demo_urlString u = Scheme u @ ''://'' @ Host u @ Path u @ (if RawQuery u = [] then [] else ''?'' @ RawQuery u)"

definition demo_env :: "'x demo_world env" where
  "demo_env = \<lparr>toLowerRune = (\<lambda>r. r), foldEqRune = (\<lambda>a b. False), isPrintRune = (\<lambda>r. False),
     formatFloat = (\<lambda>f. ''0.5''), float64ToInt64 = (\<lambda>f. - (2 ^ 63)),
     jsonErrorText = (\<lambda>b. ''invalid character''), rangeOrder = (\<lambda>n fs. fs),
     pemDecode = pemDecode demo_lib, parseCertificate = parseCertificate demo_lib,
     checkSignatureFrom = checkSignatureFrom demo_lib,
     parseCertificateRequest = parseCertificateRequest demo_lib, checkSignature = checkSignature demo_lib,
     parsePKCS8PrivateKey = parsePKCS8PrivateKey demo_lib, parsePKCS1PrivateKey = parsePKCS1PrivateKey demo_lib,
     parseECPrivateKey = parseECPrivateKey demo_lib, marshalPKCS8PrivateKey = marshalPKCS8PrivateKey demo_lib,
     decryptPEMBlock = decryptPEMBlock demo_lib,
     urlParse = (\<lambda>s. Inr \<lparr>Scheme = ''https'', Host = ''kmp:6565'', Path = [], RawQuery = [], urlOther = []\<rparr>),
     urlString = demo_urlString, newRequestError = (\<lambda>m u. None), boundary = (\<lambda>w. (''b'', w)),
     httpDo = demo_httpDo, clock = (\<lambda>w. (fst w, w)), waitFor = (\<lambda>d w. (None, (fst w + d, snd w)))\<rparr>"

definition demo_client :: Client where
  "demo_client = \<lparr>baseURL = \<lparr>Scheme = ''https'', Host = ''kmp:6565'', Path = [], RawQuery = [], urlOther = []\<rparr>,
     authToken = ''token'', httpClient = \<lparr>Transport = TLSTransport \<lparr>MinVersion = versionTLS12, InsecureSkipVerify = False, RootCAs = None\<rparr>,
     Timeout = defaultTimeout\<rparr>, userAgent = ''kmp-issuer''\<rparr>"

abbreviation demo_unit :: "unit demo_world env" where
  "demo_unit \<equiv> demo_env"

section \<open>Properties\<close>

text \<open>The failures of the client: an operation, whatever its arguments and the state of the world, and its error.\<close>

inductive api_failure :: "('w, 'r) env_scheme \<Rightarrow> Client \<Rightarrow> string \<Rightarrow> goerr \<Rightarrow> bool" for E c where
  "ImportCSR E c csrPEM email w = (Inl e, w') \<Longrightarrow> api_failure E c opImportCSR e"
| "FindCSRID E c operation cn w = (Inl e, w') \<Longrightarrow> api_failure E c (lookupOp operation) e"
| "SignCSR E c req w = (Inl e, w') \<Longrightarrow> api_failure E c opSignCSR e"
| "GetCertificate E c cn sn w = (Inl e, w') \<Longrightarrow> api_failure E c opGetCertificate e"
| "CreateCSR E c creq w = (Inl e, w') \<Longrightarrow> api_failure E c opCreateCSR e"
| "ExportCSR E c i ft w = (Inl e, w') \<Longrightarrow> api_failure E c opExportCSR e"

text \<open>
  Every failure of every API operation is an \<^verbatim>\<open>*Error\<close> that names the operation, records at
  most 2063 bytes of the response, and is permanent exactly when its \<^verbatim>\<open>Permanent\<close> field says so.
\<close>

theorem api_failure_is_Error:
  assumes "api_failure E c op e"
  shows "\<exists>k. e = KmpError k \<and> Op k = op \<and> length (Body k) \<le> 2063 \<and> IsPermanent e = Permanent k"
proof -
  have "api_error op e"
    using assms
    by cases (simp_all add: ImportCSR_failure FindCSRID_failure SignCSR_failure GetCertificate_failure
        CreateCSR_failure ExportCSR_failure)
  moreover have "maxErrorBody = 2063" by (simp add: maxErrorBody_def maxRecordedBody_def)
  ultimately show ?thesis by (auto simp: api_error_def IsPermanent_plain)
qed

theorem api_failure_is_Error_witness:
  "\<exists>e k. api_failure demo_unit demo_client opGetCertificate e \<and> e = KmpError k
     \<and> Op k = opGetCertificate \<and> \<not> IsPermanent e"
proof -
  let ?e = "KmpError (Error opGetCertificate 0 [] [] [] False (Some (ErrText ''connection refused'')))"
  have "GetCertificate demo_unit demo_client ''a'' [] (0, [], ()) = (Inl ?e, (0, [], ()))"
    by (simp add: GetCertificate_def inputData_def call_def doRequest_def Let_def demo_env_def demo_httpDo_def)
  then have f: "api_failure demo_unit demo_client opGetCertificate ?e" by (rule api_failure.intros)
  from api_failure_is_Error [OF this] have "IsPermanent ?e = False" by auto
  with f show ?thesis by (intro exI conjI) auto
qed

text \<open>The URL and the request of an exchange.\<close>

definition requestURL :: "Client \<Rightarrow> string \<Rightarrow> (string \<times> string) list \<Rightarrow> url" where
  "requestURL c op query = (if query \<noteq> [] then (endpoint c op)\<lparr>RawQuery := encodeQuery query\<rparr> else endpoint c op)"

definition sentRequest :: "('w, 'r) env_scheme \<Rightarrow> Client \<Rightarrow> string \<Rightarrow> string \<Rightarrow> (string \<times> string) list \<Rightarrow> bytes \<Rightarrow> string \<Rightarrow> http_request" where
  "sentRequest E c meth op query bdy contentType =
     \<lparr>httpMethod = meth, httpURL = urlString E (requestURL c op query),
      httpHeaders = requestHeaders c contentType, httpBody = bdy\<rparr>"

text \<open>How a caller may treat the result of a call.\<close>

datatype verdict = Done | Retry | GiveUp

definition verdict :: "goerr + 'a \<Rightarrow> verdict" where
  "verdict r = (case r of Inr _ \<Rightarrow> Done | Inl e \<Rightarrow> if IsPermanent e then GiveUp else Retry)"

text \<open>The verdict the answer of the server calls for.\<close>

definition expected :: "'r go_runtime_scheme \<Rightarrow> http_outcome \<Rightarrow> verdict" where
  "expected R out = (case out of
     TransportFailed _ \<Rightarrow> Retry
   | ReadFailed _ _ \<Rightarrow> Retry
   | Answered st raw \<Rightarrow>
     if st < 200 \<or> 299 < st then
       (if 400 \<le> st \<and> st < 500 \<and> st \<noteq> 408 \<and> st \<noteq> 429 then GiveUp else Retry)
     else case unmarshal (take maxResponseBytes raw) of
       None \<Rightarrow> GiveUp
     | Some d \<Rightarrow> if succeeded R 2 \<lparr>doc = d, body = take maxResponseBytes raw\<rparr> then Done else GiveUp)"

lemma IsPermanent_httpStatusError: "IsPermanent (httpStatusError R op st raw) = permanentStatus st"
  by (simp add: httpStatusError_def IsPermanent_plain split: sum.splits)

text \<open>
  C20. One exchange decides the outcome of a call. Transport and read failures, and statuses
  other than 2xx and 4xx as well as 408 and 429, can be retried; any other 4xx, a 2xx body that is
  not JSON and a 2xx body that reports a failure are permanent; otherwise the call succeeds.
\<close>

theorem call_verdict:
  assumes "newRequestError E meth (urlString E (requestURL c op query)) = None"
    and "httpDo E (httpClient c) (sentRequest E c meth op query bdy contentType) w = (out, w')"
  shows "verdict (fst (call E c meth op query bdy contentType w)) = expected E out
    \<and> snd (call E c meth op query bdy contentType w) = w'"
proof -
  have d: "doRequest E c meth op query bdy contentType w = (case out of
      TransportFailed e \<Rightarrow> (Inl (KmpError (Error op 0 [] [] [] False (Some (ErrText e)))), w')
    | ReadFailed st e \<Rightarrow>
        (Inl (KmpError (Error op st [] [] [] False (Some (Wrapf (''reading response: '' @ e) [ErrText e])))), w')
    | Answered st raw \<Rightarrow> (Inr (st, take maxResponseBytes raw), w'))"
    using assms by (simp add: doRequest_def sentRequest_def requestURL_def Let_def split: http_outcome.splits)
  show ?thesis
  proof (cases out)
    case (Answered st raw)
    then show ?thesis
      by (cases "unmarshal (take maxResponseBytes raw)")
        (auto simp: d call_def verdict_def expected_def isSuccessCode_def parseResponse_def IsPermanent_httpStatusError
          permanentStatus_iff reportedFailure_def IsPermanent_plain)
  qed (simp_all add: d call_def verdict_def expected_def IsPermanent_plain)
qed

theorem call_verdict_witness:
  "verdict (fst (call demo_unit demo_client ''GET'' opGetCertificate [] [] [] (0, [Answered 404 ''gone''], ()))) = GiveUp"
proof -
  have "newRequestError demo_unit ''GET'' (urlString demo_unit (requestURL demo_client opGetCertificate [])) = None"
    by (simp add: demo_env_def)
  moreover have "httpDo demo_unit (httpClient demo_client)
      (sentRequest demo_unit demo_client ''GET'' opGetCertificate [] [] []) (0, [Answered 404 ''gone''], ()) = (Answered 404 ''gone'', (0, [], ()))"
    by (simp add: demo_env_def demo_httpDo_def)
  ultimately show ?thesis using call_verdict [of demo_unit] by (simp add: expected_def)
qed


section \<open>What the server receives\<close>

text \<open>The server's reading of a query parameter.\<close>

fun queryUnescape :: "string \<Rightarrow> string option" where
  "queryUnescape [] = Some []"
| "queryUnescape (c # s) =
     (if c = CHR ''%'' then (case s of
        a # b # s' \<Rightarrow> (case (hexDigitVal a, hexDigitVal b) of
            (Some x, Some y) \<Rightarrow> map_option ((#) (chr (x * 16 + y))) (queryUnescape s')
          | _ \<Rightarrow> None)
      | _ \<Rightarrow> None)
      else map_option ((#) (if c = CHR ''+'' then CHR '' '' else c)) (queryUnescape s))"

lemma hexDigitVal_upperHexDigit: "n < 16 \<Longrightarrow> hexDigitVal (upperHexDigit n) = Some n"
  by (auto simp: hexDigitVal_def upperHexDigit_def isDigit_def)

lemma queryUnescape_escapeQueryChar:
  "queryUnescape (escapeQueryChar c @ s) = map_option ((#) c) (queryUnescape s)"
proof -
  have "byte c div 16 < 16" and "byte c mod 16 < 16" using byte_lt [of c] by linarith+
  then have hex: "hexDigitVal (upperHexDigit (byte c div 16)) = Some (byte c div 16)"
    "hexDigitVal (upperHexDigit (byte c mod 16)) = Some (byte c mod 16)"
    by (simp_all only: hexDigitVal_upperHexDigit)
  have "\<not> isUnreserved CHR ''%''" "\<not> isUnreserved CHR ''+''" by (simp_all add: isUnreserved_def isDigit_def)
  then have un: "isUnreserved c \<Longrightarrow> c \<noteq> CHR ''%'' \<and> c \<noteq> CHR ''+''" by metis
  consider "isUnreserved c" | "\<not> isUnreserved c" "c = CHR '' ''" | "\<not> isUnreserved c" "c \<noteq> CHR '' ''" by blast
  then show ?thesis using un by cases (simp_all add: escapeQueryChar_def hex)
qed

lemma queryUnescape_queryEscape: "queryUnescape (queryEscape s) = Some s"
  by (induction s) (simp_all add: queryEscape_def queryUnescape_escapeQueryChar)

lemma inputData_received:
  assumes "inputData details = Inr s" and "any_ok (AMap details)" and "any_depth (AMap details) \<le> 9998"
  shows "Option.bind (queryUnescape (queryEscape s)) unmarshal
    = Some (JObj [(''operation'', JObj [(''Details'', toJson (AMap details))])])"
proof -
  have "unmarshal (marshal (AMap [(''operation'', AMap [(''Details'', AMap details)])]))
      = Some (toJson (AMap [(''operation'', AMap [(''Details'', AMap details)])]))"
    using assms(2,3)
    by (intro unmarshal_marshal) (simp_all add: maxNestingDepth_def validUTF8_ascii isASCII_def del: Max_insert)
  with assms(1) show ?thesis by (auto simp: inputData_def queryUnescape_queryEscape)
qed

text \<open>A request whose strings are UTF-8 and whose numbers fit an int32.\<close>

definition sign_ok :: "SignRequest \<Rightarrow> bool" where
  "sign_ok r \<longleftrightarrow> list_all validUTF8 [CSRID r, SignType r, ServerName r, CAName r, TemplateName r, AgentName r,
       RootCertificateCommonName r, RootCertificateSerialNumber r]
     \<and> (case AgentResponseTimeoutSeconds r of None \<Rightarrow> True | Some t \<Rightarrow> \<bar>t\<bar> \<le> 2 ^ 31)"

definition effectiveType :: "SignRequest \<Rightarrow> string" where
  "effectiveType r = (if SignType r = [] then ''MSCA'' else SignType r)"

lemma itoa_ascii: "isASCII (itoa i)"
  using natDigits_digits [of "nat i"] natDigits_digits [of "nat (- i)"]
  by (auto simp: isASCII_def itoa_def list_all_iff isDigit_def)

lemma validUTF8_lit: "validUTF8 s" if "isASCII s" for s
  using that by (rule validUTF8_ascii)

lemma details_any_ok:
  assumes "sign_ok r"
  shows "any_ok (AMap (SignRequest_details r))" and "any_depth (AMap (SignRequest_details r)) \<le> 9998"
  using assms
  by (auto simp: sign_ok_def SignRequest_details_def Let_def ifSet_def validUTF8_ascii isASCII_def itoa_ascii [unfolded isASCII_def]
      split: option.splits if_splits)

text \<open>The fields of \<^verbatim>\<open>operation.Details\<close>, each with the part of the request it carries, as the API documents them.\<close>

definition documentedField :: "SignRequest \<Rightarrow> string \<Rightarrow> json option" where
  "documentedField r k =
     (let ty = effectiveType r; root = (ty = ''signWithRoot''); agent = (ty = ''MSCAusingAgent'') in
      if k = ''CSR_ID'' then Some (JStr (CSRID r))
      else if k = ''signType'' then Some (JStr ty)
      else if k = ''rootCertificateCommonName'' \<and> root then Some (JStr (RootCertificateCommonName r))
      else if k = ''rootCertificateSerialNumber'' \<and> root \<and> RootCertificateSerialNumber r \<noteq> [] then
        Some (JStr (RootCertificateSerialNumber r))
      else if k = ''Validity'' \<and> root then map_option (\<lambda>d. JStr (itoa d)) (ValidityDays r)
      else if k = ''isIntermediate'' \<and> root then map_option JBool (IsIntermediate r)
      else if k = ''serverName'' \<and> \<not> root then Some (JStr (ServerName r))
      else if k = ''caName'' \<and> \<not> root then Some (JStr (CAName r))
      else if k = ''templateName'' \<and> \<not> root then Some (JStr (TemplateName r))
      else if k = ''agentName'' \<and> agent then Some (JStr (AgentName r))
      else if k = ''agentResponseTimeout'' \<and> agent then map_option (\<lambda>t. JNum (intFloat t)) (AgentResponseTimeoutSeconds r)
      else None)"

lemma details_documented: "map_of (map (\<lambda>(k, v). (k, toJson v)) (SignRequest_details r)) k = documentedField r k"
proof -
  consider "effectiveType r = ''signWithRoot''" | "effectiveType r = ''MSCAusingAgent''"
    | "effectiveType r \<noteq> ''signWithRoot''" "effectiveType r \<noteq> ''MSCAusingAgent''" by blast
  then show ?thesis
  proof cases
    case 1
    then show ?thesis
      by (cases "RootCertificateSerialNumber r = []"; cases "ValidityDays r"; cases "IsIntermediate r")
        (simp_all add: SignRequest_details_def documentedField_def effectiveType_def [symmetric] Let_def ifSet_def)
  next
    case 2
    then show ?thesis
      by (cases "AgentResponseTimeoutSeconds r")
        (simp_all add: SignRequest_details_def documentedField_def effectiveType_def [symmetric] Let_def ifSet_def)
  next
    case 3
    then show ?thesis
      by (simp add: SignRequest_details_def documentedField_def effectiveType_def [symmetric] Let_def ifSet_def)
  qed
qed

text \<open>
  C24. The server reads from the query of a \<^verbatim>\<open>signCSR\<close> request the JSON document
  \<^verbatim>\<open>operation.Details\<close> with exactly the fields of the sign type, each once and each with the value
  of its own part of the request: optional parts only when they are set, the validity as decimal
  text, the timeout of the agent as a number that is not rounded.
\<close>

theorem SignRequest_received:
  assumes "sign_ok r"
  shows "\<exists>s q fs. inputData (SignRequest_details r) = Inr s
    \<and> RawQuery (requestURL c opSignCSR [(inputDataParam, s)]) = ''INPUT_DATA='' @ q
    \<and> Option.bind (queryUnescape q) unmarshal = Some (JObj [(''operation'', JObj [(''Details'', JObj fs)])])
    \<and> distinct (map fst fs) \<and> map_of fs = documentedField r
    \<and> (\<forall>t. AgentResponseTimeoutSeconds r = Some t \<longrightarrow> floatInt (intFloat t) = Some t)"
proof -
  define m where "m = map (\<lambda>(k, v). (k, toJson v)) (SignRequest_details r)"
  define fs where "fs = sort_key fst m"
  obtain s where s: "inputData (SignRequest_details r) = Inr s" by (simp add: inputData_def)
  have "Option.bind (queryUnescape (queryEscape s)) unmarshal = Some (JObj [(''operation'', JObj [(''Details'', JObj fs)])])"
    using inputData_received [OF s details_any_ok [OF assms]] by (simp add: fs_def m_def)
  moreover have "RawQuery (requestURL c opSignCSR [(inputDataParam, s)]) = ''INPUT_DATA='' @ queryEscape s"
    by (simp add: requestURL_def encodeQuery_def inputDataParam_def queryEscape_def escapeQueryChar_def
        isUnreserved_def isDigit_def)
  moreover have set_fs: "set fs = set m" by (simp add: fs_def)
  moreover have "map fst m = map fst (SignRequest_details r)" by (auto simp: m_def)
  then have dm: "distinct (map fst m)" using details_any_ok(1) [OF assms] by simp
  then have df: "distinct (map fst fs)" using set_fs by (simp add: fs_def distinct_map)
  moreover have "map_of fs = documentedField r"
  proof
    fix k
    have "map_of fs k = map_of m k"
      using map_of_eq_Some_iff [OF df] map_of_eq_Some_iff [OF dm] set_fs by (metis not_Some_eq)
    then show "map_of fs k = documentedField r k" by (simp add: m_def details_documented)
  qed
  moreover have "floatInt (intFloat t) = Some t" if "AgentResponseTimeoutSeconds r = Some t" for t
    using assms that by (intro floatInt_intFloat) (simp add: sign_ok_def)
  ultimately show ?thesis using s by blast
qed

definition demo_sign :: SignRequest where
  "demo_sign = \<lparr>CSRID = ''42'', SignType = ''signWithRoot'', ServerName = [], CAName = [], TemplateName = [],
     AgentName = [], AgentResponseTimeoutSeconds = None, RootCertificateCommonName = ''Root CA'',
     RootCertificateSerialNumber = [], ValidityDays = Some 90, IsIntermediate = None\<rparr>"

theorem SignRequest_received_witness:
  "\<exists>s q fs. inputData (SignRequest_details demo_sign) = Inr s
     \<and> Option.bind (queryUnescape q) unmarshal = Some (JObj [(''operation'', JObj [(''Details'', JObj fs)])])
     \<and> map_of fs ''CSR_ID'' = Some (JStr ''42'') \<and> map_of fs ''Validity'' = Some (JStr ''90'') \<and> map_of fs ''caName'' = None"
proof -
  have ok: "sign_ok demo_sign" by (simp add: sign_ok_def demo_sign_def validUTF8_ascii isASCII_def)
  have "documentedField demo_sign ''CSR_ID'' = Some (JStr ''42'')" "documentedField demo_sign ''Validity'' = Some (JStr ''90'')"
    "documentedField demo_sign ''caName'' = None" by code_simp+
  with SignRequest_received [OF ok, of demo_client] show ?thesis by metis
qed

section \<open>The identifier of a stored request\<close>

text \<open>
  C6. An id \<^verbatim>\<open>FindCSRID\<close> returns stands in a successful response of the lookup operation, either
  in a record that names the common name, in which case no such record holds a larger number, or
  as the only id of a response that names no certificate request at all.
\<close>

theorem FindCSRID_safe:
  assumes "range_visits_all (rangeOrder E)" and "FindCSRID E c operation cn w = (Inr i, w')"
  shows "\<exists>s parsed. call E c ''GET'' operation [(inputDataParam, s)] [] [] w = (Inr parsed, w') \<and>
    (let isID = idOfMatch E (wantedKeys E csrIDKeys) (wantedKeys E commonNameKeys) cn (doc parsed)
     in isID i \<and> (\<forall>j m. isID j \<longrightarrow> parseInt64 j = Some m \<longrightarrow> 0 \<le> m \<longrightarrow> (\<exists>k. parseInt64 i = Some k \<and> m \<le> k))
        \<or> collectStringsFor E parsed csrIDKeys = [i] \<and> collectStringsFor E parsed commonNameKeys = [])"
proof -
  obtain s where s: "inputData [(''common_name'', AStr cn), (''CNAME'', AStr cn)] = Inr s" by (simp add: inputData_def)
  obtain r w1 where c: "call E c ''GET'' operation [(inputDataParam, s)] [] [] w = (r, w1)" by fastforce
  have ne: "operation \<noteq> []" "cn \<noteq> []" using assms(2) by (auto simp: FindCSRID_def split: if_splits)
  with assms(2) s c obtain parsed where r: "r = Inr parsed" by (cases r) (simp_all add: FindCSRID_def)
  let ?f = "findIDForCommonName E 12 parsed cn csrIDKeys commonNameKeys"
  have w1: "w1 = w'" using assms(2) ne s c r
    by (auto simp: FindCSRID_def Let_def split: option.splits if_splits)
  show ?thesis
  proof (cases ?f)
    case None
    with assms(2) ne s c r have "length (collectStringsFor E parsed csrIDKeys) = 1" "collectStringsFor E parsed commonNameKeys = []"
      "i = hd (collectStringsFor E parsed csrIDKeys)"
      by (auto simp: FindCSRID_def Let_def split: if_splits)
    then have "collectStringsFor E parsed csrIDKeys = [i]" by (auto simp: length_Suc_conv)
    then show ?thesis using c r w1 \<open>collectStringsFor E parsed commonNameKeys = []\<close> by (auto simp: Let_def)
  next
    case (Some j)
    with assms(2) ne s c r have "j = i" by (simp add: FindCSRID_def)
    note f = findIDForCommonName_found [OF assms(1) Some [unfolded \<open>j = i\<close>] refl]
    show ?thesis
      using c r w1 f(1) f(2) by (intro exI [of _ s] exI [of _ parsed]) (simp add: Let_def)
  qed
qed


definition demo_list_body :: string where
  "demo_list_body = ''['' @ marshal (AMap [(''CSR_ID'', AStr ''301''), (''cn'', AStr ''b.test'')]) @ '',''
     @ marshal (AMap [(''CSR_ID'', AStr ''77''), (''cn'', AStr ''a.test'')]) @ '']''"

lemma demo_FindCSRID:
  "FindCSRID demo_unit demo_client ''getCSRs'' ''a.test'' (0, [Answered 200 demo_list_body], ()) = (Inr ''77'', (0, [], ()))"
  by code_simp


lemma range_visits_demo: "range_visits_all (rangeOrder demo_env)"
  by (simp add: range_visits_all_def demo_env_def)

theorem FindCSRID_safe_witness:
  "FindCSRID demo_unit demo_client ''getCSRs'' ''a.test'' (0, [Answered 200 demo_list_body], ()) = (Inr ''77'', (0, [], ()))
   \<and> (\<exists>s parsed. call demo_unit demo_client ''GET'' ''getCSRs'' [(inputDataParam, s)] [] [] (0, [Answered 200 demo_list_body], ())
        = (Inr parsed, (0, [], ())))"
  using demo_FindCSRID FindCSRID_safe [OF range_visits_demo demo_FindCSRID] by blast

section \<open>The health check\<close>

definition probeName :: string where
  "probeName = ''kmp-issuer-connectivity-probe.invalid''"

lemma GetCertificate_call:
  assumes "cn \<noteq> []"
  obtains s where "inputData ((''common_name'', AStr cn) # (if sn \<noteq> [] then [(''serial_number'', AStr sn)] else [])) = Inr s"
    and "GetCertificate E c cn sn w = (case call E c ''GET'' opGetCertificate [(inputDataParam, s)] [] [] w of
      (Inl err, w') \<Rightarrow> (Inl err, w')
    | (Inr parsed, w') \<Rightarrow> (case certificatesFromStrings E (collectStrings parsed) of
        Inl err \<Rightarrow> (Inl (KmpError (Error opGetCertificate 0 [] [] (truncatedBody parsed) True (Some err))), w')
      | Inr certs \<Rightarrow> if certs = [] then (Inl (KmpError (Error opGetCertificate 0 [] (message E 18 parsed)
            (truncatedBody parsed) False (Some (ErrText ''the response carries no certificate'')))), w')
          else (Inr certs, w')))"
  using assms by (auto simp: GetCertificate_def inputData_def)

definition answeredOK :: "http_outcome \<Rightarrow> bool" where
  "answeredOK out = (case out of TransportFailed _ \<Rightarrow> False | Answered st _ \<Rightarrow> isSuccessCode st | ReadFailed st _ \<Rightarrow> isSuccessCode st)"

lemma isSuccessCode_0 [simp]: "\<not> isSuccessCode 0"
  by (simp add: isSuccessCode_def)

lemma StatusCode_httpStatusError: "errAs (httpStatusError R op st raw) = Some k \<Longrightarrow> StatusCode k = st"
  by (auto simp: httpStatusError_def split: sum.splits)

lemma call_2xx:
  assumes "call E c meth op q b ct w = (r, w')"
    and "case r of Inr _ \<Rightarrow> True | Inl e \<Rightarrow> (\<exists>k. errAs e = Some k \<and> isSuccessCode (StatusCode k))"
  shows "\<exists>out. httpDo E (httpClient c) (sentRequest E c meth op q b ct) w = (out, w') \<and> answeredOK out"
proof -
  obtain out w1 where o: "httpDo E (httpClient c) (sentRequest E c meth op q b ct) w = (out, w1)" by fastforce
  have n: "newRequestError E meth (urlString E (requestURL c op q)) = None"
    using assms by (cases "newRequestError E meth (urlString E (requestURL c op q))")
      (auto simp: call_def doRequest_def requestURL_def Let_def permanentError_def)
  have d: "doRequest E c meth op q b ct w = (case out of
      TransportFailed e \<Rightarrow> (Inl (KmpError (Error op 0 [] [] [] False (Some (ErrText e)))), w1)
    | ReadFailed st e \<Rightarrow>
        (Inl (KmpError (Error op st [] [] [] False (Some (Wrapf (''reading response: '' @ e) [ErrText e])))), w1)
    | Answered st raw \<Rightarrow> (Inr (st, take maxResponseBytes raw), w1))"
    using o n by (simp add: doRequest_def sentRequest_def requestURL_def Let_def split: http_outcome.splits)
  have "w1 = w'" using assms(1) by (cases out) (auto simp: call_def d split: op_splits)
  moreover have "answeredOK out"
    using assms by (cases out) (auto simp: call_def d answeredOK_def split: op_splits dest: StatusCode_httpStatusError)
  ultimately show ?thesis using o by blast
qed

text \<open>
  C32. A health check that passes has sent the probe, the server answered it with a 2xx status,
  and the answer was no authentication failure.
\<close>

theorem Ping_passes:
  assumes "Ping E c w = (None, w')"
  shows "\<exists>s out. httpDo E (httpClient c) (sentRequest E c ''GET'' opGetCertificate [(inputDataParam, s)] [] []) w = (out, w')
    \<and> answeredOK out
    \<and> (\<nexists>e. GetCertificate E c probeName [] w = (Inl e, w') \<and> IsAuthFailure E e)"
proof -
  obtain s where g: "GetCertificate E c probeName [] w = (case call E c ''GET'' opGetCertificate [(inputDataParam, s)] [] [] w of
      (Inl err, w') \<Rightarrow> (Inl err, w')
    | (Inr parsed, w') \<Rightarrow> (case certificatesFromStrings E (collectStrings parsed) of
        Inl err \<Rightarrow> (Inl (KmpError (Error opGetCertificate 0 [] [] (truncatedBody parsed) True (Some err))), w')
      | Inr certs \<Rightarrow> if certs = [] then (Inl (KmpError (Error opGetCertificate 0 [] (message E 18 parsed)
            (truncatedBody parsed) False (Some (ErrText ''the response carries no certificate'')))), w')
          else (Inr certs, w')))"
    using GetCertificate_call [of probeName "[]" E c w] by (auto simp: probeName_def)
  obtain r w1 where r: "call E c ''GET'' opGetCertificate [(inputDataParam, s)] [] [] w = (r, w1)" by fastforce
  have ping: "Ping E c w = (case GetCertificate E c probeName [] w of
      (Inr _, w') \<Rightarrow> (None, w')
    | (Inl err, w') \<Rightarrow> if IsAuthFailure E err then (Some err, w') else
        case errAs err of None \<Rightarrow> (Some err, w') | Some k \<Rightarrow>
          if isSuccessCode (StatusCode k) \<and> Op k = opGetCertificate
             \<and> (case Err k of Some e \<Rightarrow> contains (errorText E e) ''no certificate'' | None \<Rightarrow> False) then (None, w')
          else if isSuccessCode (StatusCode k) \<and> APIStatus k \<noteq> [] then (None, w') else (Some err, w'))"
    by (simp add: Ping_def probeName_def)
  have "w1 = w'" and ok: "case r of Inr _ \<Rightarrow> True | Inl e \<Rightarrow> (\<exists>k. errAs e = Some k \<and> isSuccessCode (StatusCode k))"
    using assms unfolding ping g r by (auto split: op_splits)
  moreover have "\<nexists>e. GetCertificate E c probeName [] w = (Inl e, w') \<and> IsAuthFailure E e"
    using assms unfolding ping by auto
  ultimately show ?thesis using call_2xx [OF r ok] by blast
qed

theorem Ping_passes_witness:
  "Ping demo_unit demo_client (0, [Answered 200 (marshal (AMap [(''status'', AStr ''Failed'')]))], ()) = (None, (0, [], ()))
   \<and> (\<exists>s out. demo_httpDo (httpClient demo_client)
          (sentRequest demo_unit demo_client ''GET'' opGetCertificate [(inputDataParam, s)] [] [])
          (0, [Answered 200 (marshal (AMap [(''status'', AStr ''Failed'')]))], ()) = (out, (0, [], ())) \<and> answeredOK out)"
proof -
  have p: "Ping demo_unit demo_client (0, [Answered 200 (marshal (AMap [(''status'', AStr ''Failed'')]))], ()) = (None, (0, [], ()))"
    by code_simp
  have "httpDo demo_unit = demo_httpDo" by (simp add: demo_env_def)
  with p Ping_passes [OF p] show ?thesis by auto
qed

text \<open>
  C33. A successful answer that holds no certificate does not pass the health check: the error of
  \<^verbatim>\<open>GetCertificate\<close> for it carries no status code, so the branch of \<^verbatim>\<open>Ping\<close> that accepts a
  2xx answer with "no certificate" is not taken.
\<close>

theorem Ping_fails_on_empty_result:
  assumes "inputData [(''common_name'', AStr probeName)] = Inr s"
    and "call E c ''GET'' opGetCertificate [(inputDataParam, s)] [] [] w = (Inr parsed, w')"
    and "certificatesFromStrings E (collectStrings parsed) = Inr []"
  shows "\<exists>e. Ping E c w = (Some e, w') \<and> \<not> IsPermanent e"
  using assms by (simp add: Ping_def GetCertificate_def probeName_def inputData_def IsPermanent_plain)

definition demo_empty_body :: string where
  "demo_empty_body = marshal (AMap [(''status'', AStr ''Success'')])"

definition demo_empty :: response where
  "demo_empty = \<lparr>doc = JObj [(''status'', JStr ''Success'')], body = demo_empty_body\<rparr>"

theorem Ping_fails_on_empty_result_witness:
  "\<exists>e. Ping demo_unit demo_client (0, [Answered 200 demo_empty_body], ()) = (Some e, (0, [], ())) \<and> \<not> IsPermanent e"
proof (rule Ping_fails_on_empty_result)
  let ?s = "marshal (AMap [(''operation'', AMap [(''Details'', AMap [(''common_name'', AStr probeName)])])])"
  show "inputData [(''common_name'', AStr probeName)] = Inr ?s" by (simp add: inputData_def)
  show "call demo_unit demo_client ''GET'' opGetCertificate [(inputDataParam, ?s)] [] [] (0, [Answered 200 demo_empty_body], ())
      = (Inr demo_empty, (0, [], ()))" by code_simp
  show "certificatesFromStrings demo_env (collectStrings demo_empty) = Inr []" by code_simp
qed

text \<open>
  C34. Every response a call hands to its callers is well formed: its document is the JSON value of
  its recorded body, no object in it has a key twice, and the body is no longer than the limit at
  which the client stops reading.
\<close>

theorem call_wellformed:
  assumes "call E c meth op query bdy contentType w = (Inr parsed, w')"
  shows "json_ok (doc parsed) \<and> unmarshal (body parsed) = Some (doc parsed) \<and> length (body parsed) \<le> maxResponseBytes"
proof -
  obtain st raw w1 where "doRequest E c meth op query bdy contentType w = (Inr (st, raw), w1)"
    and parsed: "parseResponse E raw = Inr parsed"
    using assms by (auto simp: call_def split: prod.splits sum.splits if_splits)
  then have "length raw \<le> maxResponseBytes"
    by (auto simp: doRequest_def Let_def split: option.splits prod.splits http_outcome.splits)
  moreover have "unmarshal raw = Some (doc parsed)" "body parsed = raw"
    using parsed by (auto simp: parseResponse_def split: option.splits)
  ultimately show ?thesis by (simp add: unmarshal_ok)
qed

theorem call_wellformed_witness:
  "json_ok (doc demo_empty) \<and> unmarshal (body demo_empty) = Some (doc demo_empty) \<and> length (body demo_empty) \<le> maxResponseBytes"
proof (rule call_wellformed)
  show "call demo_unit demo_client ''GET'' opGetCertificate [] [] [] (0, [Answered 200 demo_empty_body], ())
      = (Inr demo_empty, (0, [], ()))" by code_simp
qed


section \<open>The configuration of a client\<close>

text \<open>
  \<^verbatim>\<open>NewClient\<close> accepts exactly the configurations with an http or https URL that has a host,
  a token that is not blank and, unless the transport is overridden, a CA bundle that is empty or
  holds a certificate.
\<close>

theorem NewClient_accepts:
  "(\<exists>c. NewClient E cfg = Inr c) \<longleftrightarrow>
     trimSpace (BaseURL cfg) \<noteq> [] \<and> trimSpace (AuthToken cfg) \<noteq> []
     \<and> (\<exists>u. urlParse E (trimSpace (BaseURL cfg)) = Inr u \<and> Scheme u \<in> {''http'', ''https''} \<and> Host u \<noteq> [])
     \<and> \<not> (cfgTransport cfg = None \<and> CABundle cfg \<noteq> [] \<and> certsFromPEM E (CABundle cfg) = [])"
  by (auto simp: NewClient_def newTransport_def split: op_splits)

lemma NewClient_fields:
  assumes "NewClient E cfg = Inr c"
  shows "0 < Timeout (httpClient c)" and "authToken c = trimSpace (AuthToken cfg)" and "authToken c \<noteq> []"
    and "newTransport E cfg = Inr (Transport (httpClient c))"
  using assms by (auto simp: NewClient_def defaultTimeout_def second_def split: op_splits)

text \<open>
  The client bounds every exchange in time, sends the trimmed token, and verifies the server
  unless the configuration disables it: against the certificates of the CA bundle when there is
  one, against the system roots otherwise.
\<close>

theorem NewClient_secure:
  assumes "NewClient E cfg = Inr c" and "cfgTransport cfg = None"
  shows "0 < Timeout (httpClient c) \<and> authToken c = trimSpace (AuthToken cfg) \<and> authToken c \<noteq> []
    \<and> Transport (httpClient c) = TLSTransport \<lparr>MinVersion = versionTLS12, InsecureSkipVerify = InsecureSkipTLSVerify cfg,
         RootCAs = (if CABundle cfg = [] then None else Some (certsFromPEM E (CABundle cfg)))\<rparr>
    \<and> \<not> (CABundle cfg \<noteq> [] \<and> certsFromPEM E (CABundle cfg) = [])"
  using NewClient_fields [OF assms(1)] assms(2) by (auto simp: newTransport_def split: if_splits)

definition demo_config :: Config where
  "demo_config = \<lparr>BaseURL = '' https://kmp:6565 '', AuthToken = '' token '', CABundle = encodeCertificates [demo_root],
     InsecureSkipTLSVerify = False, cfgTimeout = 0, UserAgent = [], cfgTransport = None\<rparr>"

theorem NewClient_secure_witness:
  "\<exists>c. NewClient demo_unit demo_config = Inr c \<and> authToken c = ''token''
     \<and> Transport (httpClient c) = TLSTransport \<lparr>MinVersion = versionTLS12, InsecureSkipVerify = False, RootCAs = Some [demo_root]\<rparr>"
proof -
  have c: "certsFromPEM demo_unit (encodeCertificates [demo_root]) = [demo_root]"
  proof -
    have "pemBlocks demo_unit (encodeCertificates [demo_root])
        = [\<lparr>blockType = pemCertificateType, blockHeaders = [], blockBytes = Raw demo_root\<rparr>]"
      using pemBlocks_encodeCertificates [of demo_unit "[demo_root]"] demo_lib_pem pem_ok_Nil [OF demo_lib_pem]
      by (simp add: demo_env_def)
    then show ?thesis using demo_parse [of demo_root] by (simp add: certsFromPEM_def demo_env_def)
  qed
  have t: "trimSpace '' token '' = ''token''" "trimSpace '' https://kmp:6565 '' = ''https://kmp:6565''" by code_simp+
  have ne: "encodeCertificates [demo_root] \<noteq> []" by (simp add: encodeCertificates_def pemEncode_def)
  have nt: "newTransport demo_unit demo_config
      = Inr (TLSTransport \<lparr>MinVersion = versionTLS12, InsecureSkipVerify = False, RootCAs = Some [demo_root]\<rparr>)"
    using c ne by (simp add: newTransport_def demo_config_def)
  have u: "urlParse demo_unit s = Inr \<lparr>Scheme = ''https'', Host = ''kmp:6565'', Path = [], RawQuery = [], urlOther = []\<rparr>" for s
    by (simp add: demo_env_def)
  have "trimSpace (BaseURL demo_config) \<noteq> []" "trimSpace (AuthToken demo_config) \<noteq> []"
    using t by (simp_all add: demo_config_def)
  then obtain cl where cl: "NewClient demo_unit demo_config = Inr cl"
    by (simp add: NewClient_def nt u)
  from NewClient_secure [OF cl] cl show ?thesis by (simp add: demo_config_def t c ne)
qed

end
