(* ===== verification/GoFloat.thy ===== *)
theory GoFloat
  imports Json
begin

text \<open>
  The float64 arithmetic behind the conversion of a duration into days: addition, division and
  \<^verbatim>\<open>math.Ceil\<close> on the non-negative numbers of \<^typ>\<open>float64\<close>, and what rounding keeps.
\<close>

text \<open>The value of a non-negative float64 as a fraction.\<close>

fun floatRat :: "float64 \<Rightarrow> nat \<times> nat" where
  "floatRat (F64 m e) = (if 0 \<le> e then (nat m * 2 ^ nat e, 1) else (nat m, 2 ^ nat (- e)))"

definition floatQuot :: "float64 \<Rightarrow> nat \<Rightarrow> float64 option" where
  "floatQuot f k = (let (n, d) = floatRat f in roundFloat False n (d * k))"

definition floatAddNat :: "nat \<Rightarrow> float64 \<Rightarrow> float64 option" where
  "floatAddNat h f = (let (n, d) = floatRat f in roundFloat False (h * d + n) d)"

definition floatCeil :: "float64 \<Rightarrow> nat" where
  "floatCeil f = (let (n, d) = floatRat f in (n + d - 1) div d)"

section \<open>Rounding stays between the integers around it\<close>

definition ratBetween :: "nat \<Rightarrow> nat \<Rightarrow> nat \<times> nat \<Rightarrow> bool" where
  "ratBetween lo hi q \<longleftrightarrow> 0 < snd q \<and> lo * snd q \<le> fst q \<and> fst q \<le> hi * snd q"

lemma divNearest_lower: "c * b \<le> a \<Longrightarrow> 0 < b \<Longrightarrow> c \<le> divNearest a b"
proof -
  assume "c * b \<le> a" "0 < b"
  then have "c \<le> a div b" by (simp add: less_eq_div_iff_mult_less_eq)
  then show ?thesis by (auto simp: divNearest_def Let_def)
qed

lemma divNearest_upper: "a \<le> c * b \<Longrightarrow> 0 < b \<Longrightarrow> divNearest a b \<le> c"
proof (cases "a = c * b")
  case True
  assume "0 < b"
  with True show ?thesis by (simp add: divNearest_def)
next
  case False
  assume "a \<le> c * b" "0 < b"
  with False have "a < c * b" by simp
  then have "a div b < c" using less_mult_imp_div_less by blast
  then show ?thesis by (auto simp: divNearest_def Let_def)
qed

lemma floatExp_nonpos:
  assumes "n < 2 ^ 53 * d" and "0 < n"
  shows "floatExp n d \<le> 0"
proof -
  have d: "0 < d" using assms(1) by (cases d) auto
  have n1: "2 ^ (bitLen n - 1) \<le> n" "0 < bitLen n" and d1: "d < 2 ^ bitLen d"
    using bitLen_bounds [of n] bitLen_bounds [of d] assms(2) d by auto
  have "(2::nat) ^ 53 * d < 2 ^ 53 * 2 ^ bitLen d" using d1 by simp
  then have "(2::nat) ^ (bitLen n - 1) < 2 ^ (53 + bitLen d)"
    using n1(1) assms(1) by (simp add: power_add)
  then have "bitLen n - 1 < 53 + bitLen d" by (rule power_less_imp_less_exp [rotated]) simp
  then have le: "int (bitLen n) - int (bitLen d) - 53 \<le> 0" using n1(2) by linarith
  show ?thesis
  proof (cases "int (bitLen n) - int (bitLen d) - 53 = 0")
    case True
    then show ?thesis using assms(1) by (simp add: floatExp_def scaled_def)
  next
    case False
    with le show ?thesis by (simp add: floatExp_def Let_def split: prod.splits)
  qed
qed

lemma roundFloat_between:
  assumes "ratBetween lo hi (n, d)" and "hi < 2 ^ 53"
  obtains f where "roundFloat False n d = Some f" and "ratBetween lo hi (floatRat f)"
proof (cases "n = 0")
  case True
  with assms that [of "F64 0 0"] show ?thesis by (auto simp: roundFloat_def ratBetween_def)
next
  case False
  from assms(1) have d: "0 < d" "lo * d \<le> n" "n \<le> hi * d" by (simp_all add: ratBetween_def)
  have "hi * d < 2 ^ 53 * d" using assms(2) d(1) by simp
  with d(3) have "n < 2 ^ 53 * d" by linarith
  with False have e: "floatExp n d \<le> 0" by (intro floatExp_nonpos) auto
  define j where "j = nat (- floatExp n d)"
  have ej: "floatExp n d = - int j" using e by (simp add: j_def)
  have sc: "scaled n d (- int j) = (n * 2 ^ j, d)" by (simp add: scaled_def)
  let ?m = "divNearest (n * 2 ^ j) d"
  have r: "roundFloat False n d = Some (F64 (int ?m) (- int j))"
    using False by (simp add: roundFloat_def ej sc)
  have "lo * 2 ^ j * d \<le> n * 2 ^ j" "n * 2 ^ j \<le> hi * 2 ^ j * d"
    using mult_right_mono [OF d(2), of "2 ^ j"] mult_right_mono [OF d(3), of "2 ^ j"] by (simp_all add: ac_simps)
  then have "lo * 2 ^ j \<le> ?m" "?m \<le> hi * 2 ^ j" using d(1) by (simp_all add: divNearest_lower divNearest_upper)
  then have "ratBetween lo hi (floatRat (F64 (int ?m) (- int j)))" by (auto simp: ratBetween_def)
  with r that show ?thesis by blast
qed

lemma floatCeil_between:
  assumes "ratBetween lo hi (floatRat f)"
  shows "lo \<le> floatCeil f \<and> floatCeil f \<le> hi"
proof -
  obtain n d where q: "floatRat f = (n, d)" by fastforce
  with assms have d: "0 < d" "lo * d \<le> n" "n \<le> hi * d" by (simp_all add: ratBetween_def)
  have "lo * d \<le> n + d - 1" using d by linarith
  then have "lo \<le> (n + d - 1) div d" using d(1) by (simp add: less_eq_div_iff_mult_less_eq)
  moreover have "n + d - 1 < Suc hi * d" using d by simp
  then have "(n + d - 1) div d < Suc hi" by (rule less_mult_imp_div_less)
  ultimately show ?thesis by (simp add: floatCeil_def q)
qed

lemma floatQuot_between:
  assumes "ratBetween (lo * k) (hi * k) (floatRat f)" and "hi < 2 ^ 53" and "0 < k"
  obtains g where "floatQuot f k = Some g" and "ratBetween lo hi (floatRat g)"
proof -
  obtain n d where q: "floatRat f = (n, d)" by fastforce
  with assms have "ratBetween lo hi (n, d * k)" by (simp add: ratBetween_def ac_simps)
  from roundFloat_between [OF this assms(2)] that show ?thesis by (auto simp: floatQuot_def q)
qed

lemma floatAddNat_between:
  assumes "ratBetween lo hi (floatRat f)" and "h + hi < 2 ^ 53"
  obtains g where "floatAddNat h f = Some g" and "ratBetween (h + lo) (h + hi) (floatRat g)"
proof -
  obtain n d where q: "floatRat f = (n, d)" by fastforce
  with assms have "ratBetween (h + lo) (h + hi) (h * d + n, d)" by (simp add: ratBetween_def algebra_simps)
  from roundFloat_between [OF this assms(2)] that show ?thesis by (auto simp: floatAddNat_def q)
qed

section \<open>Rounding up survives\<close>

text \<open>The exponent of a normal number leaves it a significand of 53 bits.\<close>

lemma floatExp_normal:
  assumes "0 < n" and "0 < d" and "floatExp n d = - int j" and "j < 1074"
  shows "2 ^ 52 * d \<le> n * 2 ^ j"
proof -
  define e where "e = int (bitLen n) - int (bitLen d) - 53"
  have n1: "2 ^ (bitLen n - 1) \<le> n" "0 < bitLen n" and d1: "d < 2 ^ bitLen d"
    using bitLen_bounds [of n] bitLen_bounds [of d] assms(1,2) by auto
  obtain a b where ab: "scaled n d e = (a, b)" by fastforce
  have fe: "floatExp n d = (if 2 ^ 53 * b \<le> a then e + 1 else e)"
    using assms(3,4) ab by (auto simp: floatExp_def e_def Let_def max_def split: if_splits)
  show ?thesis
  proof (cases "2 ^ 53 * b \<le> a")
    case True
    then have e: "e = - int (Suc j)" using fe assms(3) by simp
    then have "a = n * 2 ^ Suc j" "b = d" using ab by (auto simp: scaled_def nat_add_distrib)
    with True show ?thesis by simp
  next
    case False
    then have "int (bitLen n) + int j = int (bitLen d) + 53" using fe assms(3) by (simp add: e_def)
    then have l: "bitLen n - 1 + j = bitLen d + 52" using n1(2) by linarith
    have "2 ^ 52 * d \<le> 2 ^ 52 * 2 ^ bitLen d" using d1 by simp
    also have "\<dots> = 2 ^ (bitLen n - 1) * 2 ^ j" by (simp only: power_add [symmetric] l add.commute [of 52])
    also have "\<dots> \<le> n * 2 ^ j" using n1(1) by simp
    finally show ?thesis .
  qed
qed

text \<open>Rounding does not fall below a number with few bits.\<close>

lemma roundFloat_above:
  assumes "c * d \<le> n * 2 ^ k" and "c < 2 ^ 53" and "k < 1074" and "0 < n" and "0 < d" and "n < 2 ^ 53 * d"
    and "roundFloat False n d = Some f"
  shows "c * snd (floatRat f) \<le> fst (floatRat f) * 2 ^ k"
proof -
  have e: "floatExp n d \<le> 0" using assms(4,6) by (intro floatExp_nonpos)
  define j where "j = nat (- floatExp n d)"
  have ej: "floatExp n d = - int j" using e by (simp add: j_def)
  let ?m = "divNearest (n * 2 ^ j) d"
  have sc: "scaled n d (- int j) = (n * 2 ^ j, d)" by (simp add: scaled_def)
  have f: "f = F64 (int ?m) (- int j)"
    using assms(4,7) by (simp add: roundFloat_def ej sc)
  have "c * 2 ^ j \<le> ?m * 2 ^ k"
  proof (cases "k \<le> j")
    case True
    then have j: "(2::nat) ^ j = 2 ^ (j - k) * 2 ^ k" by (simp add: power_add [symmetric])
    have "c * 2 ^ (j - k) * d * 2 ^ k \<le> n * 2 ^ j * 2 ^ k"
      using mult_right_mono [OF assms(1), of "2 ^ j"] by (simp add: j ac_simps)
    then have "c * 2 ^ (j - k) * d \<le> n * 2 ^ j" by simp
    then have "c * 2 ^ (j - k) \<le> ?m" using assms(5) by (rule divNearest_lower)
    then show ?thesis by (simp add: j mult_right_mono ac_simps)
  next
    case False
    have "2 ^ 52 * d \<le> n * 2 ^ j" using floatExp_normal [OF assms(4,5) ej] False assms(3) by simp
    then have m: "2 ^ 52 \<le> ?m" using assms(5) by (rule divNearest_lower)
    have "(2::nat) ^ Suc j \<le> 2 ^ k" using False by (intro power_increasing) auto
    have "c * 2 ^ j \<le> 2 ^ 53 * 2 ^ j" using assms(2) by simp
    also have "\<dots> = 2 ^ 52 * 2 ^ Suc j" by simp
    also have "\<dots> \<le> ?m * 2 ^ k" by (rule mult_mono) (use m \<open>2 ^ Suc j \<le> 2 ^ k\<close> in auto)
    finally show ?thesis .
  qed
  then show ?thesis by (auto simp: f)
qed

lemma floatCeil_above:
  assumes "ratBetween lo hi (floatRat f)" and "(N * 2 ^ k + 1) * snd (floatRat f) \<le> fst (floatRat f) * 2 ^ k"
  shows "N + 1 \<le> floatCeil f"
proof -
  obtain n d where q: "floatRat f = (n, d)" by fastforce
  with assms have d: "0 < d" "(N * 2 ^ k + 1) * d \<le> n * 2 ^ k" by (simp_all add: ratBetween_def)
  have "N * d < n"
  proof (rule ccontr)
    assume "\<not> N * d < n"
    then have "n * 2 ^ k \<le> N * d * 2 ^ k" by simp
    also have "\<dots> < (N * 2 ^ k + 1) * d" using d(1) by (simp add: algebra_simps)
    finally show False using d(2) by simp
  qed
  then have "(N + 1) * d \<le> n + d - 1" using d(1) by (simp add: algebra_simps)
  then show ?thesis using d(1) by (simp add: floatCeil_def q less_eq_div_iff_mult_less_eq)
qed

end
