(* ===== verification/Signer.thy ===== *)
theory Signer
  imports ClientSpec GoFloat
begin

text \<open>
  \<^verbatim>\<open>internal/kmp/signer.go\<close>: turning a certificate signing request into a signed certificate:
  import, lookup of the id, signing, polling for the certificate and assembling the bundle.

  The polling loop may run forever when the clock stands still; it is a partial function into
  \<open>option\<close>, \<^const>\<open>None\<close> standing for a call that does not return.
\<close>

section \<open>Options\<close>

definition SignTypeMSCA :: string where "SignTypeMSCA = ''MSCA''"
definition SignTypeMSCAUsingAgent :: string where "SignTypeMSCAUsingAgent = ''MSCAusingAgent''"
definition SignTypeWithRoot :: string where "SignTypeWithRoot = ''signWithRoot''"

record SigningOptions =
  optSignType :: string
  optServerName :: string
  optCAName :: string
  optTemplateName :: string
  optAgentName :: string
  optAgentResponseTimeoutSeconds :: "int option"
  optRootCertificateCommonName :: string
  optRootCertificateSerialNumber :: string
  optValidityDays :: "int option"
  optIsIntermediate :: "bool option"
  optEmail :: string
  optCSRLookupOperation :: string

definition signType :: "SigningOptions \<Rightarrow> string" where
  "signType o' = (if optSignType o' = [] then SignTypeMSCA else optSignType o')"

text \<open>The \<^verbatim>\<open>%v\<close> verb on a slice of strings.\<close>

definition sliceText :: "string list \<Rightarrow> string" where
  "sliceText xs = ''['' @ join xs '' '' @ '']''"

definition requireMSCAFields :: "SigningOptions \<Rightarrow> goerr option" where
  "requireMSCAFields o' =
     (let missing = (if optServerName o' = [] then [''signing.serverName''] else [])
                  @ (if optCAName o' = [] then [''signing.caName''] else [])
                  @ (if optTemplateName o' = [] then [''signing.templateName''] else [])
      in if missing \<noteq> []
         then Some (errorfW ErrInvalidConfig ('': signType '' @ signType o' @ '' requires '' @ sliceText missing))
         else None)"

definition Validate :: "'r unicode_tables_scheme \<Rightarrow> SigningOptions \<Rightarrow> goerr option" where
  "Validate U o' =
     (if signType o' = SignTypeMSCA then requireMSCAFields o'
      else if signType o' = SignTypeMSCAUsingAgent then
        (case requireMSCAFields o' of
           Some err \<Rightarrow> Some err
         | None \<Rightarrow>
           if optAgentName o' = []
           then Some (errorfW ErrInvalidConfig ('': signType '' @ SignTypeMSCAUsingAgent @ '' requires signing.agentName''))
           else None)
      else if signType o' = SignTypeWithRoot then
        (if optRootCertificateCommonName o' = []
         then Some (errorfW ErrInvalidConfig
                ('': signType '' @ SignTypeWithRoot @ '' requires signing.rootCertificateCommonName''))
         else None)
      else Some (errorfW ErrInvalidConfig
             ('': unknown signType '' @ quote U (optSignType o') @ '', expected one of '' @ SignTypeMSCA @ '', ''
              @ SignTypeMSCAUsingAgent @ '', '' @ SignTypeWithRoot)))"

section \<open>The signer\<close>

definition defaultPollInterval :: int where
  "defaultPollInterval = 2 * second"

definition defaultPollTimeout :: int where
  "defaultPollTimeout = 60 * second"

record Signer =
  client :: Client
  opts :: SigningOptions
  PollInterval :: int
  PollTimeout :: int

definition NewSigner :: "'r unicode_tables_scheme \<Rightarrow> Client option \<Rightarrow> SigningOptions \<Rightarrow> goerr + Signer" where
  "NewSigner U cl o' = (case cl of
     None \<Rightarrow> Inl (errorfW ErrInvalidConfig '': no key manager plus client'')
   | Some c \<Rightarrow> (case Validate U o' of
       Some err \<Rightarrow> Inl err
     | None \<Rightarrow> Inr \<lparr>client = c, opts = o', PollInterval = 0, PollTimeout = 0\<rparr>))"

record Request =
  CSRPEM :: bytes
  Duration :: int
  IsCA :: bool

definition resolveCSRID :: "('w, 'r) env_scheme \<Rightarrow> Signer \<Rightarrow> CSR \<Rightarrow> string \<Rightarrow> 'w \<Rightarrow> (goerr + string) \<times> 'w" where
  "resolveCSRID E s stored fallbackCommonName w =
     (if CSR_ID stored \<noteq> [] then (Inr (CSR_ID stored), w)
      else let commonName = (if CSR_CommonName stored = [] then fallbackCommonName else CSR_CommonName stored) in
        if optCSRLookupOperation (opts s) = [] then
          (Inl (errorfW ErrInvalidConfig
             ('': key manager plus accepted the request but reported no CSR id, ''
              @ ''which signCSR needs. Set signing.csrLookupOperation to the operation that lists CSRs on this ''
              @ ''build so the id can be looked up by common name. The import response was: '' @ CSR_Response stored)), w)
        else case FindCSRID E (client s) (optCSRLookupOperation (opts s)) commonName w of
          (Inl err, w') \<Rightarrow>
            (Inl (Wrapf (''looking up the id of the imported certificate signing request: '' @ errorText E err) [err]), w')
        | (Inr i, w') \<Rightarrow> (Inr i, w'))"

text \<open>
  \<^verbatim>\<open>int32(math.Ceil(d.Hours() / 24))\<close>, in float64: \<^verbatim>\<open>Hours\<close> adds the whole hours and the rounded
  fraction of an hour. No step overflows for a duration of at most 63 bits, and the result fits
  an int32.
\<close>

definition hourNanos :: nat where
  "hourNanos = 3600000000000"

definition durationDays :: "nat \<Rightarrow> nat option" where
  "durationDays d =
     Option.bind (roundFloat False (d mod hourNanos) hourNanos) (\<lambda>frac.
     Option.bind (floatAddNat (d div hourNanos) frac) (\<lambda>hours.
     map_option floatCeil (floatQuot hours 24)))"

definition requestedDays :: "int \<Rightarrow> int" where
  "requestedDays d = (let days = (case durationDays (nat d) of Some n \<Rightarrow> int n | None \<Rightarrow> 0) in if days < 1 then 1 else days)"

definition signRequest :: "Signer \<Rightarrow> string \<Rightarrow> Request \<Rightarrow> SignRequest" where
  "signRequest s csrID req =
     (let o' = opts s;
          signReq = \<lparr>CSRID = csrID, SignType = signType o', ServerName = optServerName o', CAName = optCAName o',
             TemplateName = optTemplateName o', AgentName = optAgentName o',
             AgentResponseTimeoutSeconds = optAgentResponseTimeoutSeconds o',
             RootCertificateCommonName = optRootCertificateCommonName o',
             RootCertificateSerialNumber = optRootCertificateSerialNumber o',
             ValidityDays = optValidityDays o', IsIntermediate = optIsIntermediate o'\<rparr>
      in if SignType signReq \<noteq> SignTypeWithRoot then signReq
         else let signReq = (if ValidityDays signReq = None \<and> 0 < Duration req
                             then signReq\<lparr>ValidityDays := Some (requestedDays (Duration req))\<rparr> else signReq)
              in if IsIntermediate signReq = None \<and> IsCA req then signReq\<lparr>IsIntermediate := Some True\<rparr> else signReq)"

definition pollInterval :: "Signer \<Rightarrow> int" where
  "pollInterval s = (if PollInterval s \<le> 0 then defaultPollInterval else PollInterval s)"

definition pollTimeout :: "Signer \<Rightarrow> int" where
  "pollTimeout s = (if PollTimeout s \<le> 0 then defaultPollTimeout else PollTimeout s)"

partial_function (option) fetchLoop :: "('w, 'r) env_scheme \<Rightarrow> Client \<Rightarrow> string \<Rightarrow> string \<Rightarrow> int \<Rightarrow> int \<Rightarrow> 'w
    \<Rightarrow> ((goerr + certificate list) \<times> 'w) option" where
  "fetchLoop E c commonName serialNumber interval deadline w =
     (case GetCertificate E c commonName serialNumber w of
        (Inr certs, w1) \<Rightarrow> Some (Inr certs, w1)
      | (Inl err, w1) \<Rightarrow>
        if IsPermanent err then Some (Inl err, w1)
        else (case clock E w1 of (t, w2) \<Rightarrow>
          if deadline < t + interval then Some (Inl err, w2)
          else (case waitFor E interval w2 of
            (Some e, w3) \<Rightarrow> Some (Inl (Joined [err, ErrText e]), w3)
          | (None, w3) \<Rightarrow> fetchLoop E c commonName serialNumber interval deadline w3)))"

definition fetchCertificate :: "('w, 'r) env_scheme \<Rightarrow> Signer \<Rightarrow> string \<Rightarrow> string \<Rightarrow> 'w
    \<Rightarrow> ((goerr + certificate list) \<times> 'w) option" where
  "fetchCertificate E s commonName serialNumber w =
     (let (t, w) = clock E w
      in fetchLoop E (client s) commonName serialNumber (pollInterval s) (t + pollTimeout s) w)"

definition csrCommonName :: "certificate_request \<Rightarrow> string" where
  "csrCommonName csr =
     (if reqCommonName csr \<noteq> [] then reqCommonName csr
      else case reqDNSNames csr of n # _ \<Rightarrow> n | [] \<Rightarrow> [])"

text \<open>The end of \<^verbatim>\<open>Sign\<close>, once the certificates are fetched.\<close>

definition assemble :: "('w, 'r) env_scheme \<Rightarrow> certificate_request \<Rightarrow> certificate list \<Rightarrow> goerr + Bundle" where
  "assemble E csr certs = (case BuildBundle E certs (reqPublicKey csr) of
     Inl err \<Rightarrow> Inl (errorfW ErrUnusableResponse ('': assembling the certificate chain: '' @ errorText E err))
   | Inr bundle \<Rightarrow> (case verifyRequestedNames E csr (Leaf bundle) of
       Some err \<Rightarrow> Inl err | None \<Rightarrow> Inr bundle))"

definition Sign :: "('w, 'r) env_scheme \<Rightarrow> Signer \<Rightarrow> Request \<Rightarrow> 'w \<Rightarrow> ((goerr + Bundle) \<times> 'w) option" where
  "Sign E s req w = (case ParseCSR E (CSRPEM req) of
     Inl err \<Rightarrow> Some (Inl (errorfW ErrInvalidConfig ('': '' @ errorText E err)), w)
   | Inr csr \<Rightarrow> (case ImportCSR E (client s) (CSRPEM req) (optEmail (opts s)) w of
       (Inl err, w) \<Rightarrow> Some (Inl (Wrapf (''importing the certificate signing request: '' @ errorText E err) [err]), w)
     | (Inr stored, w) \<Rightarrow> (case resolveCSRID E s stored (csrCommonName csr) w of
         (Inl err, w) \<Rightarrow> Some (Inl err, w)
       | (Inr csrID, w) \<Rightarrow> (case SignCSR E (client s) (signRequest s csrID req) w of
           (Inl err, w) \<Rightarrow> Some (Inl (Wrapf (''signing the certificate signing request: '' @ errorText E err) [err]), w)
         | (Inr result, w) \<Rightarrow>
           let commonName = SR_CommonName result;
               commonName = (if commonName = [] then CSR_CommonName stored else commonName);
               commonName = (if commonName = [] then reqCommonName csr else commonName)
           in if commonName = [] \<and> SR_SerialNumber result = [] then
                Some (Inl (errorfW ErrInvalidConfig
                  ('': key manager plus signed the request but returned neither a common name nor ''
                   @ ''a serial number to fetch it with'')), w)
              else (case fetchCertificate E s commonName (SR_SerialNumber result) w of
                None \<Rightarrow> None
              | Some (Inl err, w) \<Rightarrow>
                  Some (Inl (Wrapf (''fetching the signed certificate: '' @ errorText E err) [err]), w)
              | Some (Inr certs, w) \<Rightarrow> Some (assemble E csr certs, w))))))"

end
