(* ===== verification/SignerSpec.thy ===== *)
theory SignerSpec
  imports Signer
begin

text \<open>
  What the signer promises: which configurations it accepts, what it asks Key Manager Plus for,
  that its polling ends, that a bundle it returns is for the key and the names of the request,
  and what every failure of it is to a caller that decides about a retry.
\<close>

section \<open>Configuration\<close>

text \<open>The options each sign type needs, as the API documents them.\<close>

definition options_complete :: "SigningOptions \<Rightarrow> bool" where
  "options_complete o' \<longleftrightarrow>
     (let msca = optServerName o' \<noteq> [] \<and> optCAName o' \<noteq> [] \<and> optTemplateName o' \<noteq> []
      in (optSignType o' \<in> {[], ''MSCA''} \<and> msca)
         \<or> (optSignType o' = ''MSCAusingAgent'' \<and> msca \<and> optAgentName o' \<noteq> [])
         \<or> (optSignType o' = ''signWithRoot'' \<and> optRootCertificateCommonName o' \<noteq> []))"

lemmas sign_types = SignTypeMSCA_def SignTypeMSCAUsingAgent_def SignTypeWithRoot_def

lemma requireMSCAFields_None:
  "requireMSCAFields o' = None \<longleftrightarrow> optServerName o' \<noteq> [] \<and> optCAName o' \<noteq> [] \<and> optTemplateName o' \<noteq> []"
  by (simp add: requireMSCAFields_def Let_def)

lemma Validate_config: "Validate U o' = Some e \<Longrightarrow> \<exists>s. e = errorfW ErrInvalidConfig s"
  by (auto simp: Validate_def requireMSCAFields_def Let_def split: if_splits option.splits)

lemma Validate_None: "Validate U o' = None \<longleftrightarrow> options_complete o'"
proof (cases "requireMSCAFields o'")
  case None
  then show ?thesis using requireMSCAFields_None [of o']
    by (auto simp: Validate_def options_complete_def signType_def sign_types Let_def)
next
  case (Some e)
  then show ?thesis using requireMSCAFields_None [of o']
    by (auto simp: Validate_def options_complete_def signType_def sign_types Let_def)
qed

text \<open>
  \<^verbatim>\<open>Validate\<close> accepts exactly the options that are complete for their sign type, and every
  refusal is permanent and wraps \<^verbatim>\<open>ErrInvalidConfig\<close>.
\<close>

theorem Validate_spec:
  "(Validate U o' = None \<longleftrightarrow> options_complete o')
   \<and> {e. Validate U o' = Some e} \<subseteq> {e. IsPermanent e \<and> errIs e ErrInvalidConfig}"
  using Validate_None by (auto dest!: Validate_config simp: error_simps)

section \<open>The validity asked for\<close>

definition dayNanos :: nat where
  "dayNanos = 24 * hourNanos"

lemma hourNanos_pos: "0 < hourNanos"
  by (simp add: hourNanos_def)

lemma ratBetween_widen:
  assumes "ratBetween a b q" "a' \<le> a" "b \<le> b'"
  shows "ratBetween a' b' q"
proof -
  have "a' * snd q \<le> a * snd q" "b * snd q \<le> b' * snd q" using assms(2,3) by simp_all
  then show ?thesis using assms(1) unfolding ratBetween_def by linarith
qed

lemma hours_within_days:
  fixes d :: nat
  assumes "u = (if d mod hourNanos = 0 then 0 else 1 :: nat)"
  shows "d div hourNanos + u \<le> (d + dayNanos - 1) div dayNanos * 24"
proof (rule ccontr)
  let ?h = "d div hourNanos" and ?K = "(d + dayNanos - 1) div dayNanos"
  assume "\<not> ?thesis"
  then have "?K * 24 + 1 \<le> ?h + u" by simp
  then have "(?K * 24 + 1) * hourNanos \<le> (?h + u) * hourNanos" by (rule mult_right_mono) simp
  moreover have "(?h + u) * hourNanos < d + hourNanos"
  proof (cases "d mod hourNanos = 0")
    case False
    with div_mult_mod_eq [of d hourNanos] have "?h * hourNanos < d" by linarith
    with False show ?thesis by (simp add: assms)
  next
    case True
    have "?h * hourNanos \<le> d" by (rule div_times_less_eq_dividend)
    moreover have "(?h + u) * hourNanos = ?h * hourNanos" using True by (simp add: assms)
    ultimately show ?thesis using hourNanos_pos by linarith
  qed
  moreover have "(?K * 24 + 1) * hourNanos = ?K * dayNanos + hourNanos"
    by (simp only: dayNanos_def distrib_right mult.assoc mult_1)
  ultimately have "?K * dayNanos < d" by linarith
  then have "Suc ?K * dayNanos \<le> d + dayNanos - 1" by simp
  then have "Suc ?K \<le> ?K" by (simp add: less_eq_div_iff_mult_less_eq dayNanos_def hourNanos_def)
  then show False by simp
qed

lemma days_bound:
  fixes d :: nat
  assumes "d < 2 ^ 63"
  shows "(d + dayNanos - 1) div dayNanos < 2 ^ 31"
proof -
  have "(d + dayNanos - 1) div dayNanos \<le> (2 ^ 63 + dayNanos) div dayNanos"
    by (rule div_le_mono) (use assms in linarith)
  then show ?thesis by (simp add: dayNanos_def hourNanos_def)
qed

lemma durationDays_bounds:
  assumes "d < 2 ^ 63"
  shows "\<exists>n. durationDays d = Some n \<and> d div dayNanos \<le> n \<and> n \<le> (d + dayNanos - 1) div dayNanos"
proof -
  define h where "h = d div hourNanos"
  define r where "r = d mod hourNanos"
  define u where "u = (if r = 0 then 0 else 1 :: nat)"
  define K where "K = (d + dayNanos - 1) div dayNanos"
  have "h \<le> d div 3600000000000" by (simp add: h_def hourNanos_def)
  then have hlt: "h < 2 ^ 40" using assms by (simp add: less_mult_imp_div_less)
  have lo: "h div 24 = d div dayNanos"
    by (simp add: dayNanos_def h_def div_mult2_eq [symmetric] mult.commute)
  have hi: "h + u \<le> K * 24" unfolding h_def K_def by (rule hours_within_days) (simp add: u_def r_def)
  have "ratBetween 0 u (r, hourNanos)"
    using mod_less_divisor [OF hourNanos_pos, of d] by (auto simp: ratBetween_def u_def r_def)
  then obtain f where f: "roundFloat False r hourNanos = Some f" "ratBetween 0 u (floatRat f)"
    by (rule roundFloat_between) (simp add: u_def)
  obtain s where s: "floatAddNat h f = Some s" "ratBetween (h + 0) (h + u) (floatRat s)"
    by (rule floatAddNat_between [OF f(2)]) (use hlt in \<open>auto simp: u_def\<close>)
  have "ratBetween (h div 24 * 24) (K * 24) (floatRat s)"
    using s(2) by (rule ratBetween_widen) (simp_all add: hi)
  then obtain q where q: "floatQuot s 24 = Some q" "ratBetween (h div 24) K (floatRat q)"
    by (rule floatQuot_between) (use days_bound [OF assms] in \<open>auto simp: K_def\<close>)
  have "durationDays d = Some (floatCeil q)"
    using f(1) s(1) q(1) by (simp add: durationDays_def h_def r_def)
  then show ?thesis using floatCeil_between [OF q(2)] lo K_def by auto
qed

text \<open>A millisecond above whole days is enough to round up, in spite of the two roundings.\<close>

lemma durationDays_up:
  assumes "d < 2 ^ 63" and "N * dayNanos + 1000000 \<le> d"
  shows "\<exists>n. durationDays d = Some n \<and> N + 1 \<le> n"
proof -
  define h where "h = d div hourNanos"
  define r where "r = d mod hourNanos"
  have "h \<le> d div 3600000000000" by (simp add: h_def hourNanos_def)
  then have hlt: "h < 2 ^ 22" using assms(1) by (simp add: less_mult_imp_div_less)
  have hN: "24 * N \<le> h"
    using assms(2) unfolding h_def by (subst less_eq_div_iff_mult_less_eq) (simp_all add: hourNanos_def dayNanos_def)
  have dr: "h * hourNanos + r = d" by (simp add: h_def r_def)
  have "ratBetween 0 1 (r, hourNanos)" using mod_less_divisor [OF hourNanos_pos, of d] by (auto simp: ratBetween_def r_def)
  then obtain f where f: "roundFloat False r hourNanos = Some f" "ratBetween 0 1 (floatRat f)"
    by (rule roundFloat_between) simp
  obtain s where s: "floatAddNat h f = Some s" "ratBetween (h + 0) (h + 1) (floatRat s)"
    by (rule floatAddNat_between [OF f(2)]) (use hlt in auto)
  have A: "(24 * N * 2 ^ 22 + 1) * snd (floatRat s) \<le> fst (floatRat s) * 2 ^ 22"
  proof (cases "24 * N < h")
    case True
    then have "24 * N * 2 ^ 22 + 1 \<le> h * 2 ^ 22" by simp
    then have "(24 * N * 2 ^ 22 + 1) * snd (floatRat s) \<le> h * 2 ^ 22 * snd (floatRat s)" by (rule mult_right_mono) simp
    also have "\<dots> \<le> fst (floatRat s) * 2 ^ 22" using s(2) by (simp add: ratBetween_def ac_simps)
    finally show ?thesis .
  next
    case False
    with hN have h: "h = 24 * N" by simp
    then have r: "1000000 \<le> r" using assms(2) dr by (simp add: dayNanos_def)
    obtain fn fd where fr: "floatRat f = (fn, fd)" by fastforce
    have "1 * snd (floatRat f) \<le> fst (floatRat f) * 2 ^ 22"
    proof (rule roundFloat_above [OF _ _ _ _ hourNanos_pos _ f(1)])
      show "1 * hourNanos \<le> r * 2 ^ 22" using r by (simp add: hourNanos_def)
      show "r < 2 ^ 53 * hourNanos" using mod_less_divisor [OF hourNanos_pos, of d] by (simp add: r_def)
    qed (use r in auto)
    then have "(24 * N * 2 ^ 22 + 1) * fd \<le> (h * fd + fn) * 2 ^ 22" by (simp add: fr h algebra_simps)
    moreover have "0 < fd" "fn \<le> fd" using f(2) by (simp_all add: fr ratBetween_def)
    moreover have "h * fd + fn < 2 ^ 53 * fd"
    proof -
      have "h * fd + fn \<le> (h + 1) * fd" using \<open>fn \<le> fd\<close> by simp
      also have "\<dots> < 2 ^ 53 * fd" using hlt \<open>0 < fd\<close> by simp
      finally show ?thesis .
    qed
    moreover have "0 < h * fd + fn" using calculation(1,2) by (cases "h * fd + fn") auto
    moreover have "24 * N * 2 ^ 22 + 1 < (2 :: nat) ^ 53" using hlt h by simp
    moreover have "roundFloat False (h * fd + fn) fd = Some s" using s(1) by (simp add: floatAddNat_def fr)
    ultimately show ?thesis by (intro roundFloat_above) auto
  qed
  define K where "K = (h + 1) div 24 + 1"
  have "h + 1 \<le> K * 24" "K < 2 ^ 53" using hlt by (auto simp: K_def)
  then have "ratBetween (0 * 24) (K * 24) (floatRat s)" using ratBetween_widen [OF s(2)] by simp
  then obtain q where q: "floatQuot s 24 = Some q" "ratBetween 0 K (floatRat q)"
    by (rule floatQuot_between) (use \<open>K < 2 ^ 53\<close> in auto)
  obtain sn sd where sr: "floatRat s = (sn, sd)" by fastforce
  have sd: "0 < sd" "sn \<le> (h + 1) * sd" using s(2) by (simp_all add: sr ratBetween_def)
  have B: "(N * 2 ^ 27 + 1) * snd (floatRat q) \<le> fst (floatRat q) * 2 ^ 27"
  proof (rule roundFloat_above)
    show "(N * 2 ^ 27 + 1) * (sd * 24) \<le> sn * 2 ^ 27" using A by (simp add: sr algebra_simps)
    then show "0 < sn" using sd(1) by (cases sn) auto
    show "N * 2 ^ 27 + 1 < 2 ^ 53" using hN hlt by simp
    show "roundFloat False sn (sd * 24) = Some q" using q(1) by (simp add: floatQuot_def sr)
    have "sn \<le> (h + 1) * sd" by (fact sd(2))
    also have "\<dots> < 2 ^ 53 * (sd * 24)" using hlt sd(1) by simp
    finally show "sn < 2 ^ 53 * (sd * 24)" .
  qed (use sd in auto)
  have "durationDays d = Some (floatCeil q)"
    using f(1) s(1) q(1) by (simp add: durationDays_def h_def r_def)
  then show ?thesis using floatCeil_above [OF q(2) B] by blast
qed

lemma durationDays_exact:
  assumes "d < 2 ^ 63" and "1000000 dvd d"
  shows "durationDays d = Some ((d + dayNanos - 1) div dayNanos)"
proof -
  obtain n where n: "durationDays d = Some n" "d div dayNanos \<le> n" "n \<le> (d + dayNanos - 1) div dayNanos"
    using durationDays_bounds [OF assms(1)] by blast
  have pos: "0 < dayNanos" by (simp add: dayNanos_def hourNanos_def)
  show ?thesis
  proof (cases "d mod dayNanos = 0")
    case True
    then obtain q where d: "d = q * dayNanos" using div_mult_mod_eq [of d dayNanos] by (metis add.right_neutral)
    have "(d + dayNanos - 1) div dayNanos = q"
      unfolding d by (rule div_nat_eqI) (use pos in \<open>simp_all add: algebra_simps\<close>)
    with n d pos show ?thesis by simp
  next
    case False
    have "1000000 dvd dayNanos" by (simp add: dayNanos_def hourNanos_def)
    then have "1000000 dvd d mod dayNanos" using assms(2) by (simp add: dvd_mod)
    then have "1000000 \<le> d mod dayNanos" using False by (simp add: dvd_imp_le)
    then have "d div dayNanos * dayNanos + 1000000 \<le> d" using div_mult_mod_eq [of d dayNanos] by linarith
    from durationDays_up [OF assms(1) this] n(1) have "d div dayNanos + 1 \<le> n" by simp
    moreover have "(d + dayNanos - 1) div dayNanos \<le> d div dayNanos + 1"
    proof -
      have "(d + dayNanos - 1) div dayNanos \<le> (d + dayNanos) div dayNanos" by (rule div_le_mono) simp
      also have "\<dots> = d div dayNanos + 1" using pos by (subst div_add_self2) simp_all
      finally show ?thesis .
    qed
    ultimately show ?thesis using n by simp
  qed
qed

text \<open>
  C31. The validity a \<^verbatim>\<open>signWithRoot\<close> request asks for, when the issuer does not pin one and the request
  has a lifetime, is that lifetime in days, at least one and within an int32: never less than its
  whole days, never more than the lifetime rounded up, and exactly the lifetime rounded up for
  every lifetime of whole milliseconds, in spite of the floating point arithmetic.
\<close>

theorem signRequest_validity:
  assumes "0 < Duration req" and "Duration req < 2 ^ 63"
    and "signType (opts s) = ''signWithRoot''" and "optValidityDays (opts s) = None"
  shows "\<exists>days. ValidityDays (signRequest s csrID req) = Some days \<and> 1 \<le> days \<and> days < 2 ^ 31
    \<and> Duration req div int dayNanos \<le> days
    \<and> days \<le> (Duration req + int dayNanos - 1) div int dayNanos
    \<and> (1000000 dvd Duration req \<longrightarrow> days = (Duration req + int dayNanos - 1) div int dayNanos)"
proof -
  define d where "d = nat (Duration req)"
  have D: "Duration req = int d" and dlt: "d < 2 ^ 63" using assms(1,2) by (simp_all add: d_def)
  let ?up = "(Duration req + int dayNanos - 1) div int dayNanos"
  obtain n where n: "durationDays d = Some n" "d div dayNanos \<le> n" "n \<le> (d + dayNanos - 1) div dayNanos"
    using durationDays_bounds [OF dlt] by blast
  have "n < 2 ^ 31" using n(3) days_bound [OF dlt] by linarith
  moreover have up: "int ((d + dayNanos - 1) div dayNanos) = ?up"
    by (simp add: D dayNanos_def hourNanos_def of_nat_diff of_nat_div)
  then have "int n \<le> ?up" using n(3) by (metis of_nat_mono)
  moreover have "1 \<le> ?up" using assms(1) by (simp add: dayNanos_def hourNanos_def)
  moreover have "Duration req div int dayNanos \<le> int n" using n(2) by (metis D of_nat_div of_nat_mono)
  moreover have "ValidityDays (signRequest s csrID req) = Some (if int n < 1 then 1 else int n)"
    using assms n(1) by (simp add: signRequest_def Let_def requestedDays_def SignTypeWithRoot_def d_def)
  moreover have "int n = ?up" if "1000000 dvd Duration req"
  proof -
    have "1000000 dvd int d" using that by (simp add: D)
    then have "1000000 dvd d" by (metis int_dvd_int_iff of_nat_numeral)
    from durationDays_exact [OF dlt this] n(1) up show ?thesis by simp
  qed
  ultimately show ?thesis by auto
qed

definition demo_options :: SigningOptions where
  "demo_options = \<lparr>optSignType = ''signWithRoot'', optServerName = [], optCAName = [], optTemplateName = [],
     optAgentName = [], optAgentResponseTimeoutSeconds = None, optRootCertificateCommonName = ''CA'',
     optRootCertificateSerialNumber = [], optValidityDays = None, optIsIntermediate = None, optEmail = [],
     optCSRLookupOperation = []\<rparr>"

definition demo_signer :: Signer where
  "demo_signer = \<lparr>client = demo_client, opts = demo_options, PollInterval = 0, PollTimeout = 0\<rparr>"

definition demo_req :: Request where
  "demo_req = \<lparr>CSRPEM = pemEncode ''CERTIFICATE REQUEST'' ''csr'', Duration = 36 * int hourNanos, IsCA = False\<rparr>"

theorem signRequest_validity_witness:
  "ValidityDays (signRequest demo_signer ''1'' demo_req) = Some 2"
proof -
  have "0 < Duration demo_req" "Duration demo_req < 2 ^ 63" "1000000 dvd Duration demo_req"
    by (simp_all add: demo_req_def hourNanos_def)
  moreover have "signType (opts demo_signer) = ''signWithRoot''" "optValidityDays (opts demo_signer) = None"
    by (simp_all add: demo_signer_def demo_options_def signType_def)
  ultimately have "ValidityDays (signRequest demo_signer ''1'' demo_req) = Some ((Duration demo_req + int dayNanos - 1) div int dayNanos)"
    using signRequest_validity [of demo_req demo_signer "''1''"] by auto
  then show ?thesis by (simp add: demo_req_def dayNanos_def hourNanos_def)
qed

section \<open>Polling ends\<close>

text \<open>
  What the loop relies on of time: reading the clock gives the current time, no operation turns
  it back, and a wait that was not cancelled lets at least its duration pass.
\<close>

definition clock_ok :: "('w, 'r) env_scheme \<Rightarrow> ('w \<Rightarrow> int) \<Rightarrow> bool" where
  "clock_ok E tm \<longleftrightarrow>
     (\<forall>w. fst (clock E w) = tm w \<and> tm w \<le> tm (snd (clock E w)))
     \<and> (\<forall>cl req w. tm w \<le> tm (snd (httpDo E cl req w)))
     \<and> (\<forall>d w w'. waitFor E d w = (None, w') \<longrightarrow> tm w + d \<le> tm w')"

lemma doRequest_time:
  assumes "clock_ok E tm"
  shows "tm w \<le> tm (snd (doRequest E c meth op q b ct w))"
proof -
  have "tm w \<le> tm (snd (httpDo E cl req w))" for cl req using assms by (simp add: clock_ok_def)
  then have "httpDo E cl req w = (out, w') \<Longrightarrow> tm w \<le> tm w'" for cl req out w' by (metis snd_conv)
  then show ?thesis by (simp add: doRequest_def Let_def split: op_splits http_outcome.splits)
qed

lemma call_time:
  assumes "clock_ok E tm"
  shows "tm w \<le> tm (snd (call E c meth op q b ct w))"
  using doRequest_time [OF assms, of w c meth op q b ct] by (auto simp: call_def split: op_splits)

lemma GetCertificate_time:
  assumes "clock_ok E tm" and "GetCertificate E c cn sn w = (r, w')"
  shows "tm w \<le> tm w'"
proof -
  have t: "call E c meth op q b ct w = (r, w1) \<Longrightarrow> tm w \<le> tm w1" for meth op q b ct r w1
    using call_time [OF assms(1), of w c meth op q b ct] by simp
  from assms(2) show ?thesis
    by (auto simp: GetCertificate_def inputData_def split: op_splits dest: t)
qed

text \<open>The loop with at most \<open>n\<close> attempts.\<close>

fun fetchAttempts :: "nat \<Rightarrow> ('w, 'r) env_scheme \<Rightarrow> Client \<Rightarrow> string \<Rightarrow> string \<Rightarrow> int \<Rightarrow> int \<Rightarrow> 'w
    \<Rightarrow> ((goerr + certificate list) \<times> 'w) option" where
  "fetchAttempts 0 E c commonName serialNumber interval deadline w = None"
| "fetchAttempts (Suc n) E c commonName serialNumber interval deadline w =
     (case GetCertificate E c commonName serialNumber w of
        (Inr certs, w1) \<Rightarrow> Some (Inr certs, w1)
      | (Inl err, w1) \<Rightarrow>
        if IsPermanent err then Some (Inl err, w1)
        else (case clock E w1 of (t, w2) \<Rightarrow>
          if deadline < t + interval then Some (Inl err, w2)
          else (case waitFor E interval w2 of
            (Some e, w3) \<Rightarrow> Some (Inl (Joined [err, ErrText e]), w3)
          | (None, w3) \<Rightarrow> fetchAttempts n E c commonName serialNumber interval deadline w3)))"

lemma fetchAttempts_loop:
  "fetchAttempts n E c cn sn interval deadline w = Some r \<Longrightarrow> fetchLoop E c cn sn interval deadline w = Some r"
proof (induction n arbitrary: w)
  case (Suc n)
  then show ?case by (subst fetchLoop.simps) (auto split: op_splits)
qed simp

lemma fetchAttempts_enough:
  assumes "clock_ok E tm" and "0 < interval" and "deadline < tm w + int n * interval" and "0 < n"
  shows "\<exists>r. fetchAttempts n E c cn sn interval deadline w = Some r"
  using assms(3,4)
proof (induction n arbitrary: w)
  case (Suc n)
  obtain g w1 where g: "GetCertificate E c cn sn w = (g, w1)" by fastforce
  obtain t w2 where t: "clock E w1 = (t, w2)" by fastforce
  obtain x w3 where x: "waitFor E interval w2 = (x, w3)" by fastforce
  have t1: "tm w \<le> tm w1" using GetCertificate_time [OF assms(1) g] .
  have "fst (clock E w1) = tm w1" "tm w1 \<le> tm (snd (clock E w1))" using assms(1) by (simp_all add: clock_ok_def)
  then have t2: "t = tm w1" "tm w1 \<le> tm w2" using t by simp_all
  have "\<exists>r. fetchAttempts n E c cn sn interval deadline w3 = Some r" if "x = None" "\<not> deadline < t + interval"
  proof (rule Suc.IH)
    have "tm w2 + interval \<le> tm w3" using assms(1) x that(1) by (simp add: clock_ok_def)
    then show "deadline < tm w3 + int n * interval"
      using Suc.prems(1) t1 t2 by (simp add: algebra_simps)
    show "0 < n" using Suc.prems(1) that(2) t1 t2 by (cases n) (simp_all add: algebra_simps)
  qed
  then show ?case by (cases g; cases x) (auto simp: g t x)
qed simp


lemma fetchCertificate_attempts:
  assumes "clock_ok E tm"
  shows "\<exists>t w1 r. clock E w = (t, w1) \<and> fetchCertificate E s cn sn w = Some r
    \<and> fetchAttempts (nat (pollTimeout s div pollInterval s) + 1) E (client s) cn sn (pollInterval s) (t + pollTimeout s) w1
        = Some r"
proof -
  obtain t w1 where t: "clock E w = (t, w1)" by fastforce
  have p: "0 < pollInterval s" "0 < pollTimeout s"
    by (simp_all add: pollInterval_def pollTimeout_def defaultPollInterval_def defaultPollTimeout_def second_def)
  have "fst (clock E w) = tm w" "tm w \<le> tm (snd (clock E w))" using assms by (simp_all add: clock_ok_def)
  then have "t \<le> tm w1" using t by simp
  moreover have "pollTimeout s < (1 + pollTimeout s div pollInterval s) * pollInterval s"
    using p(1) by (metis add.commute distrib_right mult.commute mult_1 pos_mod_bound add_strict_left_mono mult_div_mod_eq)
  moreover have "0 \<le> pollTimeout s div pollInterval s" using p by (simp add: pos_imp_zdiv_nonneg_iff)
  ultimately have "t + pollTimeout s < tm w1 + int (nat (pollTimeout s div pollInterval s) + 1) * pollInterval s"
    by simp
  then obtain r where "fetchAttempts (nat (pollTimeout s div pollInterval s) + 1) E (client s) cn sn (pollInterval s)
      (t + pollTimeout s) w1 = Some r"
    using fetchAttempts_enough [OF assms p(1)] by fastforce
  then show ?thesis using t fetchAttempts_loop by (fastforce simp: fetchCertificate_def)
qed

text \<open>
  C21. Polling for the signed certificate ends: when the clock runs, \<^verbatim>\<open>fetchCertificate\<close> returns, after
  at most \<^verbatim>\<open>PollTimeout / PollInterval + 1\<close> requests to the server.
\<close>

theorem fetchCertificate_returns:
  assumes "clock_ok E tm"
  shows "\<exists>t w1 r. clock E w = (t, w1) \<and> fetchCertificate E s cn sn w = Some r
    \<and> fetchAttempts (nat (pollTimeout s div pollInterval s) + 1) E (client s) cn sn (pollInterval s) (t + pollTimeout s) w1
        = Some r"
  by (rule fetchCertificate_attempts [OF assms])

lemma demo_clock_read: "clock demo_env w = (fst w, w)"
  by (simp add: demo_env_def)

lemma demo_clock: "clock_ok demo_env fst"
  by (auto simp: clock_ok_def demo_env_def demo_httpDo_def split: list.splits)

theorem fetchCertificate_returns_witness:
  "\<exists>r. fetchCertificate demo_env demo_signer ''app.example'' [] (0, [], ()) = Some r
     \<and> fetchAttempts 31 demo_env demo_client ''app.example'' [] (2 * second) (60 * second) (0, [], ()) = Some r"
proof -
  have "clock demo_env (0, [], ()) = (0, (0, [], ()))" by (simp add: demo_env_def)
  moreover have "pollTimeout demo_signer = 60 * second" "pollInterval demo_signer = 2 * second" "client demo_signer = demo_client"
    by (simp_all add: demo_signer_def pollTimeout_def pollInterval_def defaultPollTimeout_def defaultPollInterval_def)
  moreover have "nat (60 * second div (2 * second)) + 1 = 31" by (simp add: second_def)
  ultimately show ?thesis
    using fetchCertificate_returns [OF demo_clock, where w = "(0, [], ())" and s = demo_signer and cn = "''app.example''" and sn = "[]"]
    by auto
qed

section \<open>What a signature is for\<close>

lemma assemble_Inr:
  assumes "assemble E csr certs = Inr b"
  shows "BuildBundle E certs (reqPublicKey csr) = Inr b"
    and "set (requestedNames csr) \<subseteq> {i. carries E (Leaf b) i}"
proof -
  show b: "BuildBundle E certs (reqPublicKey csr) = Inr b"
    using assms by (auto simp: assemble_def split: op_splits)
  have "verifyRequestedNames E csr (Leaf b) = None" using assms b by (auto simp: assemble_def split: op_splits)
  then show "set (requestedNames csr) \<subseteq> {i. carries E (Leaf b) i}" using csrNames.accepts_iff by blast
qed

text \<open>
  The stages of \<^verbatim>\<open>Sign\<close>: a run that returns a bundle went through all of them.
\<close>

lemma Sign_stages:
  assumes "Sign E s req w = Some (Inr b, w')"
  obtains csr stored w1 csrID w2 result w3 cn certs where
    "ParseCSR E (CSRPEM req) = Inr csr"
    "ImportCSR E (client s) (CSRPEM req) (optEmail (opts s)) w = (Inr stored, w1)"
    "resolveCSRID E s stored (csrCommonName csr) w1 = (Inr csrID, w2)"
    "SignCSR E (client s) (signRequest s csrID req) w2 = (Inr result, w3)"
    "fetchCertificate E s cn (SR_SerialNumber result) w3 = Some (Inr certs, w')"
    "assemble E csr certs = Inr b"
proof -
  from assms obtain csr where 1: "ParseCSR E (CSRPEM req) = Inr csr"
    by (auto simp: Sign_def split: sum.splits)
  with assms obtain stored w1 where 2: "ImportCSR E (client s) (CSRPEM req) (optEmail (opts s)) w = (Inr stored, w1)"
    by (auto simp: Sign_def split: sum.splits prod.splits)
  with 1 assms obtain csrID w2 where 3: "resolveCSRID E s stored (csrCommonName csr) w1 = (Inr csrID, w2)"
    by (auto simp: Sign_def split: sum.splits prod.splits)
  with 1 2 assms obtain result w3 where 4: "SignCSR E (client s) (signRequest s csrID req) w2 = (Inr result, w3)"
    by (auto simp: Sign_def split: sum.splits prod.splits)
  define cn where "cn = (let commonName = SR_CommonName result;
       commonName = (if commonName = [] then CSR_CommonName stored else commonName)
     in if commonName = [] then reqCommonName csr else commonName)"
  from 1 2 3 4 assms obtain certs where "fetchCertificate E s cn (SR_SerialNumber result) w3 = Some (Inr certs, w')"
    "assemble E csr certs = Inr b"
    by (auto simp: Sign_def Let_def cn_def split: op_splits)
  with 1 2 3 4 that show ?thesis by blast
qed

text \<open>Certificates that come out of \<^verbatim>\<open>GetCertificate\<close> are parsed from their own bytes.\<close>

lemma GetCertificate_parsed:
  assumes "x509_ok (parseCertificate E)" and "GetCertificate E c cn sn w = (Inr certs, w')" and "x \<in> set certs"
  shows "parseCertificate E (Raw x) = Inr x"
proof -
  from assms(2) obtain vs where "certificatesFromStrings E vs = Inr certs"
    by (auto simp: GetCertificate_def inputData_def split: op_splits)
  then show ?thesis using certificatesFromStrings_parsed assms(1,3) by blast
qed

text \<open>The result of polling is that of one \<^verbatim>\<open>GetCertificate\<close>, joined with the reason of a cancelled wait.\<close>

definition fetch_result :: "('w, 'r) env_scheme \<Rightarrow> Client \<Rightarrow> string \<Rightarrow> string \<Rightarrow> (goerr + certificate list) \<times> 'w \<Rightarrow> bool" where
  "fetch_result E c cn sn r \<longleftrightarrow>
     (\<exists>w w1. GetCertificate E c cn sn w = (fst r, w1))
     \<or> (\<exists>w w1 err t. GetCertificate E c cn sn w = (Inl err, w1) \<and> \<not> IsPermanent err \<and> fst r = Inl (Joined [err, ErrText t]))"

lemma fetchLoop_result:
  assumes "fetchLoop E c cn sn interval deadline w = Some r"
  shows "fetch_result E c cn sn r"
proof (rule fetchLoop.raw_induct [where P = "\<lambda>E c cn sn i d w r. fetch_result E c cn sn r", OF _ assms])
  fix loop and E :: "('w, 'r) env_scheme" and c cn sn interval deadline w r
  assume IH: "\<And>E c cn sn i d w r. loop E c cn sn i d w = Some r \<Longrightarrow> fetch_result E c cn sn r"
    and body: "(case GetCertificate E c cn sn w of
        (Inl err, w1) \<Rightarrow>
        if IsPermanent err then Some (Inl err, w1)
        else (case clock E w1 of (t, w2) \<Rightarrow>
          if deadline < t + interval then Some (Inl err, w2)
          else (case waitFor E interval w2 of
            (None, w3) \<Rightarrow> loop E c cn sn interval deadline w3
          | (Some e, w3) \<Rightarrow> Some (Inl (Joined [err, ErrText e]), w3)))
      | (Inr certs, w1) \<Rightarrow> Some (Inr certs, w1)) = Some r"
  obtain g w1 where g: "GetCertificate E c cn sn w = (g, w1)" by fastforce
  have once: "fst r = g \<Longrightarrow> fetch_result E c cn sn r" using g by (auto simp: fetch_result_def)
  have cancelled: "g = Inl err \<Longrightarrow> \<not> IsPermanent err \<Longrightarrow> fst r = Inl (Joined [err, ErrText t]) \<Longrightarrow> fetch_result E c cn sn r"
    for err t using g by (auto simp: fetch_result_def)
  show "fetch_result E c cn sn r"
  proof (cases g)
    case (Inl e)
    show ?thesis using body IH once cancelled by (auto simp: g Inl split: op_splits)
  next
    case (Inr certs)
    show ?thesis using body once by (auto simp: g Inr)
  qed
qed

lemma fetchCertificate_result:
  "fetchCertificate E s cn sn w = Some r \<Longrightarrow> fetch_result E (client s) cn sn r"
  by (auto simp: fetchCertificate_def split: prod.splits intro: fetchLoop_result)

lemma Sign_bundle:
  assumes "Sign E s req w = Some (Inr b, w')" and "pem_ok (pemDecode E)" and "x509_ok (parseCertificate E)"
  shows "\<exists>csr chain. ParseCSR E (CSRPEM req) = Inr csr \<and> checkSignature E csr = None
    \<and> (publicKeyMatcher (reqPublicKey csr) \<longrightarrow> certPublicKey (Leaf b) = reqPublicKey csr)
    \<and> set (requestedNames csr) \<subseteq> {i. carries E (Leaf b) i}
    \<and> parsePEMCertificates E (ChainPEM b) = (Leaf b # chain, None) \<and> linked E (Leaf b # chain)"
proof -
  from assms(1) obtain csr sn cn certs w3 where csr: "ParseCSR E (CSRPEM req) = Inr csr"
    and f: "fetchCertificate E s cn sn w3 = Some (Inr certs, w')" and a: "assemble E csr certs = Inr b"
    by (rule Sign_stages) blast
  have p: "parseCertificate E (Raw x) = Inr x" if "x \<in> set certs" for x
    using fetchCertificate_result [OF f] GetCertificate_parsed [OF assms(3)] that by (auto simp: fetch_result_def)
  note ab = assemble_Inr [OF a]
  from BuildBundle_chain [OF ab(1) assms(2) p] obtain chain where
    "parsePEMCertificates E (ChainPEM b) = (Leaf b # chain, None)"
    "publicKeyMatcher (reqPublicKey csr) \<longrightarrow> certPublicKey (Leaf b) = reqPublicKey csr"
    "linked E (Leaf b # chain)"
    by (auto simp: chain_above_def)
  moreover have "checkSignature E csr = None"
    using csr by (auto simp: ParseCSR_def split: op_splits)
  ultimately show ?thesis using csr ab(2) by blast
qed


text \<open>
  C1. A bundle \<^verbatim>\<open>Sign\<close> returns is for the request it was given: the request parsed and its
  signature was checked, the leaf carries the public key of the request and every name it asks
  for, and the published PEM reads back as the leaf followed by a linked chain of certificates.
\<close>

theorem Sign_safe:
  assumes "Sign E s req w = Some (Inr b, w')" and "pem_ok (pemDecode E)" and "x509_ok (parseCertificate E)"
  shows "\<exists>csr chain. ParseCSR E (CSRPEM req) = Inr csr \<and> checkSignature E csr = None
    \<and> (publicKeyMatcher (reqPublicKey csr) \<longrightarrow> certPublicKey (Leaf b) = reqPublicKey csr)
    \<and> set (requestedNames csr) \<subseteq> {i. carries E (Leaf b) i}
    \<and> parsePEMCertificates E (ChainPEM b) = (Leaf b # chain, None) \<and> linked E (Leaf b # chain)"
  by (rule Sign_bundle [OF assms])

definition demo_req0 :: Request where
  "demo_req0 = \<lparr>CSRPEM = pemEncode ''CERTIFICATE REQUEST'' ''csr'', Duration = 0, IsCA = False\<rparr>"

definition demo_ok :: "(string \<times> string) list \<Rightarrow> http_outcome" where
  "demo_ok fs = Answered 200 (marshal (AMap (map (\<lambda>(k, v). (k, AStr v)) ((''status'', ''Success'') # fs))))"

definition demo_run :: "http_outcome list" where
  "demo_run = [demo_ok [(''CSR_ID'', ''7'')], demo_ok [(''serialNumber'', ''0A'')],
     demo_ok [], demo_ok [(''certificate'', encodeCertificates [demo_root, demo_leaf])]]"


lemma demo_ParseCSR: "ParseCSR demo_env (CSRPEM demo_req0) = Inr demo_request"
  by code_simp

lemma demo_ImportCSR:
  "ImportCSR demo_env demo_client (CSRPEM demo_req0) [] (0, demo_run, st :: 'x :: equal)
     = (Inr \<lparr>CSR_ID = ''7'', CSR_CommonName = [],
          CSR_Response = marshal (AMap [(''status'', AStr ''Success''), (''CSR_ID'', AStr ''7'')])\<rparr>, (0, tl demo_run, st))"
  by code_simp

lemma demo_SignCSR:
  "SignCSR demo_env demo_client (signRequest demo_signer ''7'' demo_req0) (0, tl demo_run, st :: 'x :: equal)
     = (Inr \<lparr>CertificateID = [], SR_CommonName = [], SR_SerialNumber = ''0A''\<rparr>, (0, tl (tl demo_run), st))"
  by code_simp

lemma demo_fetchAttempts:
  "fetchAttempts 2 demo_env demo_client ''app.example'' ''0A'' (2 * second) (60 * second) (0, tl (tl demo_run), st :: 'x :: equal)
     = Some (Inr [demo_root, demo_leaf], (2 * second, [], st))"
  by code_simp

lemma demo_fetchCertificate:
  "fetchCertificate demo_env demo_signer ''app.example'' ''0A'' (0, tl (tl demo_run), st :: 'x :: equal)
     = Some (Inr [demo_root, demo_leaf], (2 * second, [], st))"
  using fetchAttempts_loop [OF demo_fetchAttempts]
  by (simp add: fetchCertificate_def demo_clock_read demo_signer_def pollInterval_def pollTimeout_def
      defaultPollInterval_def defaultPollTimeout_def)

lemma demo_env_bundle: "BuildBundle demo_env [demo_root, demo_leaf] (ECDSAKey ''k'') = Inr demo_bundle"
  by (simp add: BuildBundle_def findLeaf_def chainAbove.simps isSelfSigned_def demo_bundle_def demo_env_def demo_lib_def demo_certs)

lemma demo_requested: "verifyRequestedNames demo_env demo_request (Leaf demo_bundle) = None"
  by code_simp

lemma demo_assemble: "assemble demo_env demo_request [demo_root, demo_leaf] = Inr demo_bundle"
proof -
  have "reqPublicKey demo_request = ECDSAKey ''k''" by (simp add: demo_request_def)
  then show ?thesis by (simp add: assemble_def demo_env_bundle demo_requested)
qed

lemma demo_Sign: "Sign demo_env demo_signer demo_req0 (0, demo_run, st :: 'x :: equal) = Some (Inr demo_bundle, (2 * second, [], st))"
proof -
  have s: "client demo_signer = demo_client" "optEmail (opts demo_signer) = []" "reqCommonName demo_request = ''app.example''"
    by (simp_all add: demo_signer_def demo_options_def demo_request_def)
  show ?thesis
    by (simp add: Sign_def demo_ParseCSR s demo_ImportCSR resolveCSRID_def demo_SignCSR demo_fetchCertificate demo_assemble)
qed

lemma demo_env_laws: "pem_ok (pemDecode demo_env)" "x509_ok (parseCertificate demo_env)"
  using demo_lib_pem demo_lib_x509 by (simp_all add: demo_env_def)

theorem Sign_safe_witness:
  "Sign demo_unit demo_signer demo_req0 (0, demo_run, ()) = Some (Inr demo_bundle, (2 * second, [], ()))
   \<and> (\<exists>csr. ParseCSR demo_unit (CSRPEM demo_req0) = Inr csr \<and> set (requestedNames csr) \<subseteq> {i. carries demo_unit (Leaf demo_bundle) i})"
  using demo_Sign [of "()"] Sign_safe [OF demo_Sign [of "()"] demo_env_laws] by blast

section \<open>Failures\<close>

text \<open>What a caller sees of a failure: a sentinel, or the API error of one of the operations.\<close>

definition sign_failure :: "string set \<Rightarrow> goerr \<Rightarrow> bool" where
  "sign_failure ops e \<longleftrightarrow>
     (IsPermanent e \<and> (errIs e ErrInvalidConfig \<or> errIs e ErrUnusableResponse))
     \<or> (\<exists>k. errAs e = Some k \<and> Op k \<in> ops \<and> IsPermanent e = Permanent k)"

lemma sign_failure_sentinel [simp]:
  "sign_failure ops (errorfW ErrInvalidConfig s)" "sign_failure ops (errorfW ErrUnusableResponse s)"
  by (simp_all add: sign_failure_def) (simp_all add: errorfW_def)

lemma sign_failure_api: "api_error op e \<Longrightarrow> op \<in> ops \<Longrightarrow> sign_failure ops (Wrapf s [e])"
  by (auto simp: sign_failure_def api_error_def IsPermanent_plain)

lemma sign_failure_wrap: "sign_failure ops e \<Longrightarrow> sign_failure ops (Wrapf s [e])"
  by (auto simp: sign_failure_def)

lemma sign_failure_mono: "sign_failure ops e \<Longrightarrow> ops \<subseteq> ops' \<Longrightarrow> sign_failure ops' e"
  by (auto simp: sign_failure_def)

lemma fetchCertificate_failure:
  assumes "fetchCertificate E s cn sn w = Some (Inl e, w')"
  shows "sign_failure {opGetCertificate} e"
proof -
  from fetchCertificate_result [OF assms] consider
      (once) w w1 where "GetCertificate E (client s) cn sn w = (Inl e, w1)"
    | (cancelled) w w1 err t where "GetCertificate E (client s) cn sn w = (Inl err, w1)" "\<not> IsPermanent err"
        "e = Joined [err, ErrText t]"
    unfolding fetch_result_def by auto
  then show ?thesis
  proof cases
    case once
    then show ?thesis using GetCertificate_failure by (fastforce simp: sign_failure_def api_error_def IsPermanent_plain)
  next
    case cancelled
    then obtain k where k: "err = KmpError k" "Op k = opGetCertificate" "plainErr (Err k)"
      using GetCertificate_failure by (fastforce simp: api_error_def)
    then have "\<not> errIs err ErrInvalidConfig" "\<not> errIs err ErrUnusableResponse"
      using plainErr_no_sentinel by (cases "Err k"; auto)+
    then show ?thesis using k cancelled(2,3) by (auto simp: sign_failure_def IsPermanent_def)
  qed
qed

lemma resolveCSRID_failure:
  assumes "resolveCSRID E s stored fb w = (Inl e, w')"
  shows "sign_failure {lookupOp (optCSRLookupOperation (opts s))} e"
  using assms FindCSRID_failure
  by (auto simp: resolveCSRID_def Let_def split: op_splits intro!: sign_failure_api)

lemma assemble_failure: "assemble E csr certs = Inl e \<Longrightarrow> sign_failure ops e"
  using csrNames.rejects_permanently by (auto simp: assemble_def sign_failure_def error_simps split: op_splits)

definition signOps :: "Signer \<Rightarrow> string set" where
  "signOps s = {opImportCSR, lookupOp (optCSRLookupOperation (opts s)), opSignCSR, opGetCertificate}"


lemma Sign_error_kind:
  assumes "Sign E s req w = Some (Inl e, w')"
  shows "sign_failure (signOps s) e"
proof -
  consider (cfg) t where "e = errorfW ErrInvalidConfig t"
    | (import) w1 x t where "ImportCSR E (client s) (CSRPEM req) (optEmail (opts s)) w = (Inl x, w1)" "e = Wrapf t [x]"
    | (resolve) stored cn w1 w2 where "resolveCSRID E s stored cn w1 = (Inl e, w2)"
    | (sign) r w1 x w2 t where "SignCSR E (client s) r w1 = (Inl x, w2)" "e = Wrapf t [x]"
    | (fetch) cn sn w1 x w2 t where "fetchCertificate E s cn sn w1 = Some (Inl x, w2)" "e = Wrapf t [x]"
    | (assemble) csr certs where "assemble E csr certs = Inl e"
    using assms by (auto simp: Sign_def Let_def split: op_splits)
  then show ?thesis
  proof cases
    case import
    then show ?thesis using ImportCSR_failure by (fastforce intro: sign_failure_api simp: signOps_def)
  next
    case resolve
    then show ?thesis using resolveCSRID_failure by (fastforce intro: sign_failure_mono simp: signOps_def)
  next
    case sign
    then show ?thesis using SignCSR_failure by (fastforce intro: sign_failure_api simp: signOps_def)
  next
    case fetch
    then have "sign_failure {opGetCertificate} x" by (intro fetchCertificate_failure)
    then have "sign_failure (signOps s) x" by (rule sign_failure_mono) (simp add: signOps_def)
    then show ?thesis unfolding fetch(2) by (rule sign_failure_wrap)
  next
    case assemble
    then show ?thesis by (rule assemble_failure)
  qed simp
qed

text \<open>
  C22. Every failure of \<^verbatim>\<open>Sign\<close> tells the controllers what to do: it is permanent and wraps
  \<^verbatim>\<open>ErrInvalidConfig\<close> or \<^verbatim>\<open>ErrUnusableResponse\<close>, or it leads to the \<^verbatim>\<open>*Error\<close> of one of the four
  operations and is permanent exactly when that error says so.
\<close>

theorem Sign_failure:
  assumes "Sign E s req w = Some (Inl e, w')"
  shows "(IsPermanent e \<and> (errIs e ErrInvalidConfig \<or> errIs e ErrUnusableResponse))
    \<or> (\<exists>k. errAs e = Some k \<and> Op k \<in> signOps s \<and> IsPermanent e = Permanent k)"
  using Sign_error_kind [OF assms] by (simp add: sign_failure_def)

lemma demo_Sign_fails:
  "Sign demo_env demo_signer demo_req0 (0, [], ()) = Some (Inl (Wrapf (''importing the certificate signing request: ''
      @ errorText demo_unit (KmpError (Error opImportCSR 0 [] [] [] False (Some (ErrText ''connection refused'')))))
      [KmpError (Error opImportCSR 0 [] [] [] False (Some (ErrText ''connection refused'')))]), (0, [], ()))"
proof -
  have "ImportCSR demo_env demo_client (CSRPEM demo_req0) [] (0, [], ())
      = (Inl (KmpError (Error opImportCSR 0 [] [] [] False (Some (ErrText ''connection refused'')))), (0, [], ()))"
    by code_simp
  then show ?thesis by (simp add: Sign_def demo_ParseCSR demo_signer_def demo_options_def)
qed

theorem Sign_failure_witness:
  "\<exists>e. Sign demo_env demo_signer demo_req0 (0, [], ()) = Some (Inl e, (0, [], ())) \<and> \<not> IsPermanent e
     \<and> (\<exists>k. errAs e = Some k \<and> Op k \<in> signOps demo_signer)"
proof -
  let ?e = "Wrapf (''importing the certificate signing request: ''
      @ errorText demo_unit (KmpError (Error opImportCSR 0 [] [] [] False (Some (ErrText ''connection refused'')))))
      [KmpError (Error opImportCSR 0 [] [] [] False (Some (ErrText ''connection refused'')))]"
  have np: "\<not> IsPermanent ?e" by (simp add: IsPermanent_plain)
  with Sign_failure [OF demo_Sign_fails] demo_Sign_fails show ?thesis by blast
qed

lemma Sign_total:
  assumes "clock_ok E tm"
  shows "\<exists>r. Sign E s req w = Some r"
proof -
  have f: "fetchCertificate E s cn sn w \<noteq> None" for cn sn w
    using fetchCertificate_attempts [OF assms, of w s cn sn] by auto
  then have fc: "(case fetchCertificate E s cn sn w of None \<Rightarrow> None | Some (Inl err, w) \<Rightarrow> Some (a err w)
      | Some (Inr certs, w) \<Rightarrow> Some (b certs w)) \<noteq> None" for cn sn w and a b :: "_ \<Rightarrow> _ \<Rightarrow> (goerr + Bundle) \<times> 'a"
    by (auto split: option.split sum.split)
  have "Sign E s req w \<noteq> None"
    unfolding Sign_def Let_def by (auto simp: fc simp del: not_None_eq split: sum.split prod.split)
  then show ?thesis by blast
qed

text \<open>
  \<^verbatim>\<open>Sign\<close> returns whenever the clock runs.
\<close>

theorem Sign_returns:
  assumes "clock_ok E tm"
  shows "\<exists>r. Sign E s req w = Some r"
  by (rule Sign_total [OF assms])

theorem Sign_returns_witness: "\<exists>r. Sign demo_env demo_signer demo_req0 (0, [], ()) = Some r"
  by (rule Sign_returns [OF demo_clock])

text \<open>
  C7. The certificate request that is signed is the one that was imported: its id is the one the
  import reported or, when it reported none, the result of a lookup by the name it was stored
  under, the recorded one or else the common name or first DNS name of the request.
\<close>

theorem Sign_signs_imported:
  assumes "Sign E s req w = Some (Inr b, w')"
  shows "\<exists>csr stored w1 csrID w2 result w3. ParseCSR E (CSRPEM req) = Inr csr
    \<and> ImportCSR E (client s) (CSRPEM req) (optEmail (opts s)) w = (Inr stored, w1)
    \<and> SignCSR E (client s) (signRequest s csrID req) w2 = (Inr result, w3)
    \<and> CSRID (signRequest s csrID req) = csrID \<and> csrID \<noteq> []
    \<and> (csrID = CSR_ID stored \<and> w2 = w1
       \<or> CSR_ID stored = [] \<and> FindCSRID E (client s) (optCSRLookupOperation (opts s))
            (if CSR_CommonName stored = [] then csrCommonName csr else CSR_CommonName stored) w1 = (Inr csrID, w2))"
proof -
  from assms obtain csr stored w1 csrID w2 result w3 where
    *: "ParseCSR E (CSRPEM req) = Inr csr"
    "ImportCSR E (client s) (CSRPEM req) (optEmail (opts s)) w = (Inr stored, w1)"
    "SignCSR E (client s) (signRequest s csrID req) w2 = (Inr result, w3)"
    and r: "resolveCSRID E s stored (csrCommonName csr) w1 = (Inr csrID, w2)"
    by (rule Sign_stages) blast
  have i: "CSRID (signRequest s csrID req) = csrID" by (simp add: signRequest_def Let_def)
  with *(3) have "csrID \<noteq> []" by (auto simp: SignCSR_def)
  moreover from r have "csrID = CSR_ID stored \<and> w2 = w1
       \<or> CSR_ID stored = [] \<and> FindCSRID E (client s) (optCSRLookupOperation (opts s))
            (if CSR_CommonName stored = [] then csrCommonName csr else CSR_CommonName stored) w1 = (Inr csrID, w2)"
    by (auto simp: resolveCSRID_def Let_def split: op_splits)
  ultimately show ?thesis using * i by blast
qed

theorem Sign_signs_imported_witness:
  "\<exists>csrID w2 result w3. SignCSR demo_unit demo_client (signRequest demo_signer csrID demo_req0) w2 = (Inr result, w3) \<and> csrID \<noteq> []"
proof -
  have "client demo_signer = demo_client" by (simp add: demo_signer_def)
  then show ?thesis using Sign_signs_imported [OF demo_Sign [of "()"]] by metis
qed

end
