(* ===== verification/PrivateKey.thy ===== *)
theory PrivateKey
  imports Chain
begin

text \<open>
  \<^verbatim>\<open>internal/kmp/privatekey.go\<close>: reading the private key Key Manager Plus exports, in any of the
  forms it may come in, and re-encoding it as PKCS#8 PEM.
\<close>

section \<open>Reading an export\<close>

definition pemPrivateKeyType :: string where
  "pemPrivateKeyType = ''PRIVATE KEY''"

definition jksMagic :: bytes where
  "jksMagic = [CHR 0xFE, CHR 0xED, CHR 0xFE, CHR 0xED]"

record PrivateKey =
  Key :: private_key
  PEM :: bytes

definition parseDERPrivateKey :: "'r crypto_lib_scheme \<Rightarrow> bytes \<Rightarrow> goerr + private_key" where
  "parseDERPrivateKey L der = (case parsePKCS8PrivateKey L der of
     Some key \<Rightarrow> Inr key
   | None \<Rightarrow> (case parsePKCS1PrivateKey L der of
       Some key \<Rightarrow> Inr key
     | None \<Rightarrow> (case parseECPrivateKey L der of
         Some key \<Rightarrow> Inr key
       | None \<Rightarrow> Inl (ErrText ''the key is not in PKCS#8, PKCS#1 or SEC 1 form''))))"

text \<open>\<^verbatim>\<open>x509.IsEncryptedPEMBlock\<close>: the block has a \<^verbatim>\<open>DEK-Info\<close> header.\<close>

definition isEncryptedPEMBlock :: "pem_block \<Rightarrow> bool" where
  "isEncryptedPEMBlock b = (''DEK-Info'' \<in> set (map fst (blockHeaders b)))"

text \<open>What \<^verbatim>\<open>parsePEMPrivateKey\<close> does with a private key block.\<close>

definition keyOfBlock :: "'r crypto_lib_scheme \<Rightarrow> pem_block \<Rightarrow> string \<Rightarrow> goerr + private_key" where
  "keyOfBlock L block password =
     (let parse = (\<lambda>der. case parseDERPrivateKey L der of
            Inl err \<Rightarrow> Inl (Wrapf (''parsing the exported private key: '' @ errorText L err) [err])
          | Inr key \<Rightarrow> Inr key)
      in if isEncryptedPEMBlock block then
           (if password = [] then Inl (ErrText ''the exported private key is encrypted but no password is configured'')
            else case decryptPEMBlock L block password of
              Inl e \<Rightarrow> Inl (Wrapf (''decrypting the exported private key: '' @ e) [ErrText e])
            | Inr der \<Rightarrow> parse der)
         else if blockType block = ''ENCRYPTED PRIVATE KEY'' then
           Inl (ErrText (''the exported private key uses PKCS#8 encryption, which this controller ''
             @ ''cannot decrypt: configure Key Manager Plus to export the key unencrypted''))
         else parse (blockBytes block))"

definition parsePEMPrivateKey :: "'r crypto_lib_scheme \<Rightarrow> bytes \<Rightarrow> string \<Rightarrow> goerr + private_key" where
  "parsePEMPrivateKey L data password =
     (case find (\<lambda>block. contains (blockType block) ''PRIVATE KEY'') (pemBlocks L data) of
        None \<Rightarrow> Inl ErrNoPrivateKey
      | Some block \<Rightarrow> keyOfBlock L block password)"

definition parsePrivateKeyCandidate :: "'r crypto_lib_scheme \<Rightarrow> string \<Rightarrow> string \<Rightarrow> goerr + private_key" where
  "parsePrivateKeyCandidate L candidate password =
     (if contains candidate ''-----BEGIN'' then parsePEMPrivateKey L candidate password
      else if length (compact candidate) < 64 then Inl ErrNoPrivateKey
      else case b64Decode (compact candidate) of
        None \<Rightarrow> Inl ErrNoPrivateKey
      | Some der \<Rightarrow> (case parseDERPrivateKey L der of Inl _ \<Rightarrow> Inl ErrNoPrivateKey | Inr key \<Rightarrow> Inr key))"

definition isMostlyText :: "bytes \<Rightarrow> bool" where
  "isMostlyText data =
     (let limit = min (length data) 512;
          printable = length (filter (\<lambda>b. b = CHR 0x0A \<or> b = CHR 0x0D \<or> b = CHR 0x09
             \<or> (0x20 \<le> byte b \<and> byte b < 0x7F)) (take limit data))
      in limit * 9 \<le> printable * 10)"

definition isKeyStore :: "bytes \<Rightarrow> bool" where
  "isKeyStore data =
     (if 4 \<le> length data \<and> take 4 data = jksMagic then True
      else 2 < length data \<and> hd data = CHR 0x30 \<and> \<not> isMostlyText data)"

text \<open>
  The loop over the candidates: the first that is a key decides; otherwise the first error
  other than \<^verbatim>\<open>errNoPrivateKey\<close> is kept.
\<close>

fun tryCandidates :: "'r crypto_lib_scheme \<Rightarrow> string \<Rightarrow> string list \<Rightarrow> goerr option \<Rightarrow> goerr option + private_key" where
  "tryCandidates L password [] firstErr = Inl firstErr"
| "tryCandidates L password (candidate # candidates) firstErr =
     (case parsePrivateKeyCandidate L candidate password of
        Inl err \<Rightarrow> tryCandidates L password candidates
          (if firstErr = None \<and> err \<noteq> ErrNoPrivateKey then Some err else firstErr)
      | Inr key \<Rightarrow> Inr key)"

definition exportCandidates :: "'r crypto_lib_scheme \<Rightarrow> bytes \<Rightarrow> string list" where
  "exportCandidates L data =
     data # (case parseResponse L data of Inr parsed \<Rightarrow> collectStrings parsed | Inl _ \<Rightarrow> [])"

definition ParseExportedPrivateKey :: "'r crypto_lib_scheme \<Rightarrow> bytes \<Rightarrow> string \<Rightarrow> goerr + PrivateKey" where
  "ParseExportedPrivateKey L data password =
     (if data = [] then Inl (ErrText ''the export is empty'')
      else case tryCandidates L password (exportCandidates L data) None of
        Inr key \<Rightarrow> (case marshalPKCS8PrivateKey L key of
            Inl e \<Rightarrow> Inl (Wrapf (''re-encoding the exported private key: '' @ e) [ErrText e])
          | Inr encoded \<Rightarrow> Inr \<lparr>Key = key, PEM = pemEncode pemPrivateKeyType encoded\<rparr>)
      | Inl (Some firstErr) \<Rightarrow> Inl firstErr
      | Inl None \<Rightarrow>
          if isKeyStore data then
            Inl (ErrText (''the export is a key store, which this controller cannot open: ''
              @ ''ask Key Manager Plus for the PrivateKey file type instead of KeyStore''))
          else Inl (ErrText ''no private key found in the export''))"

definition MatchesCertificate :: "PrivateKey \<Rightarrow> certificate \<Rightarrow> bool" where
  "MatchesCertificate k cert = (case keyPublic (Key k) of
     None \<Rightarrow> False
   | Some pub \<Rightarrow> if \<not> publicKeyMatcher (certPublicKey cert) then False else certPublicKey cert = pub)"

section \<open>Lemmas\<close>

text \<open>PKCS#8 encoding is read back by the PKCS#8 parser.\<close>

definition pkcs8_ok :: "(private_key \<Rightarrow> string + bytes) \<Rightarrow> (bytes \<Rightarrow> private_key option) \<Rightarrow> bool" where
  "pkcs8_ok enc dec \<longleftrightarrow> (\<forall>k der. enc k = Inr der \<longrightarrow> dec der = Some k)"

lemma tryCandidates_Inr:
  "tryCandidates L pw cs fe = Inr key \<longleftrightarrow>
     (\<exists>xs c ys. cs = xs @ c # ys \<and> parsePrivateKeyCandidate L c pw = Inr key
        \<and> (\<forall>x. x \<in> set xs \<longrightarrow> (\<exists>e. parsePrivateKeyCandidate L x pw = Inl e)))"
proof (induction cs arbitrary: fe)
  case (Cons c cs)
  show ?case
  proof (cases "parsePrivateKeyCandidate L c pw")
    case (Inl e)
    then have "tryCandidates L pw (c # cs) fe = Inr key \<longleftrightarrow>
        (\<exists>xs c ys. cs = xs @ c # ys \<and> parsePrivateKeyCandidate L c pw = Inr key
          \<and> (\<forall>x. x \<in> set xs \<longrightarrow> (\<exists>e. parsePrivateKeyCandidate L x pw = Inl e)))"
      by (simp add: Cons)
    also have "\<dots> \<longleftrightarrow> (\<exists>xs d ys. c # cs = xs @ d # ys \<and> parsePrivateKeyCandidate L d pw = Inr key
          \<and> (\<forall>x. x \<in> set xs \<longrightarrow> (\<exists>e. parsePrivateKeyCandidate L x pw = Inl e)))"
      using Inl by (auto simp: Cons_eq_append_conv, metis append_Cons set_ConsD, blast)
    finally show ?thesis .
  next
    case (Inr k)
    then show ?thesis by (auto simp: Cons_eq_append_conv) force
  qed
qed simp

lemma tryCandidates_all_fail:
  "tryCandidates L pw cs fe = Inl fe' \<Longrightarrow> c \<in> set cs \<Longrightarrow> \<exists>e. parsePrivateKeyCandidate L c pw = Inl e"
  by (induction cs arbitrary: fe) (auto split: sum.splits)

lemma tryCandidates_Inl:
  "tryCandidates L pw cs fe = Inl (Some e) \<Longrightarrow> fe \<noteq> Some ErrNoPrivateKey \<Longrightarrow> e \<noteq> ErrNoPrivateKey"
  by (induction cs arbitrary: fe) (auto split: sum.splits if_splits)

lemma pemBlocks_one:
  assumes "pem_ok (pemDecode L)" and "pemLabel ty"
  shows "pemBlocks L (pemEncode ty bs) = [\<lparr>blockType = ty, blockHeaders = [], blockBytes = bs\<rparr>]"
proof -
  have "pemDecode L (pemEncode ty bs @ []) = Some (\<lparr>blockType = ty, blockHeaders = [], blockBytes = bs\<rparr>, [])"
    using assms unfolding pem_ok_def by blast
  then show ?thesis
    using pem_ok_Nil [OF assms(1)] by (simp add: pemBlocks_unfold [OF assms(1), of "pemEncode ty bs"] pemBlocks_unfold [OF assms(1), of "[]"])
qed

lemma pemLabel_privateKey: "pemLabel pemPrivateKeyType"
  by (simp add: pemLabel_def pemPrivateKeyType_def)

lemma parsePEM_reencoded:
  assumes "pem_ok (pemDecode L)" and "parsePKCS8PrivateKey L der = Some key"
  shows "parsePEMPrivateKey L (pemEncode pemPrivateKeyType der) pw = Inr key"
  using assms
  by (simp add: parsePEMPrivateKey_def pemBlocks_one [OF assms(1) pemLabel_privateKey] keyOfBlock_def
      isEncryptedPEMBlock_def parseDERPrivateKey_def) (simp add: pemPrivateKeyType_def)


section \<open>Properties\<close>

lemma ParseExported_readback:
  assumes "pem_ok (pemDecode L)" and "pkcs8_ok (marshalPKCS8PrivateKey L) (parsePKCS8PrivateKey L)"
    and "ParseExportedPrivateKey L data password = Inr k"
  shows "parsePEMPrivateKey L (PEM k) [] = Inr (Key k) \<and>
    (\<exists>xs c ys. exportCandidates L data = xs @ c # ys \<and> parsePrivateKeyCandidate L c password = Inr (Key k)
       \<and> (\<forall>x. x \<in> set xs \<longrightarrow> (\<exists>e. parsePrivateKeyCandidate L x password = Inl e)))"
proof -
  from assms(3) obtain der where t: "tryCandidates L password (exportCandidates L data) None = Inr (Key k)"
    and m: "marshalPKCS8PrivateKey L (Key k) = Inr der" and p: "PEM k = pemEncode pemPrivateKeyType der"
    by (auto simp: ParseExportedPrivateKey_def split: if_splits sum.splits option.splits)
  from m assms(2) have "parsePKCS8PrivateKey L der = Some (Key k)" by (auto simp: pkcs8_ok_def)
  then show ?thesis using t p assms(1) by (simp add: parsePEM_reencoded tryCandidates_Inr)
qed

text \<open>
  C30. The key of a successful export is that of the first candidate that is a key, the export
  itself or a string of its JSON envelope, and the PEM block published for it is unencrypted and
  reads back to the same key.
\<close>

theorem ParseExportedPrivateKey_spec:
  assumes "pem_ok (pemDecode L)" and "pkcs8_ok (marshalPKCS8PrivateKey L) (parsePKCS8PrivateKey L)"
    and "ParseExportedPrivateKey L data password = Inr k"
  shows "parsePEMPrivateKey L (PEM k) [] = Inr (Key k) \<and>
    (\<exists>xs c ys. exportCandidates L data = xs @ c # ys \<and> parsePrivateKeyCandidate L c password = Inr (Key k)
       \<and> (\<forall>x. x \<in> set xs \<longrightarrow> (\<exists>e. parsePrivateKeyCandidate L x password = Inl e)))"
  by (rule ParseExported_readback [OF assms])

definition demo_export :: bytes where
  "demo_export = pemEncode ''PRIVATE KEY'' ''key''"

definition demo_private :: PrivateKey where
  "demo_private = \<lparr>Key = demo_key, PEM = demo_export\<rparr>"

lemma demo_pkcs8: "pkcs8_ok (marshalPKCS8PrivateKey demo_lib) (parsePKCS8PrivateKey demo_lib)"
  by (auto simp: pkcs8_ok_def demo_lib_def split: if_splits)

lemma demo_ParseExported: "ParseExportedPrivateKey demo_lib demo_export ''pw'' = Inr demo_private"
proof -
  have "pemLabel ''PRIVATE KEY''" by (simp add: pemLabel_def)
  then have b: "pemBlocks demo_lib demo_export = [\<lparr>blockType = ''PRIVATE KEY'', blockHeaders = [], blockBytes = ''key''\<rparr>]"
    unfolding demo_export_def by (rule pemBlocks_one [OF demo_lib_pem])
  have "contains demo_export ''-----BEGIN''" by (simp add: demo_export_def pemEncode_def)
  moreover have pk: "parsePKCS8PrivateKey demo_lib ''key'' = Some demo_key" by (simp add: demo_lib_def)
  ultimately have "parsePrivateKeyCandidate demo_lib demo_export ''pw'' = Inr demo_key"
    by (simp add: parsePrivateKeyCandidate_def parsePEMPrivateKey_def b keyOfBlock_def isEncryptedPEMBlock_def
        parseDERPrivateKey_def pk)
  moreover have "marshalPKCS8PrivateKey demo_lib demo_key = Inr ''key''" by (simp add: demo_lib_def)
  moreover have "demo_export \<noteq> []" by (simp add: demo_export_def pemEncode_def)
  ultimately show ?thesis
    by (simp add: ParseExportedPrivateKey_def exportCandidates_def demo_private_def) (simp add: demo_export_def pemPrivateKeyType_def)
qed

theorem ParseExportedPrivateKey_spec_witness:
  "ParseExportedPrivateKey demo_lib demo_export ''pw'' = Inr demo_private
   \<and> parsePEMPrivateKey demo_lib (PEM demo_private) [] = Inr (Key demo_private)"
  using ParseExportedPrivateKey_spec [OF demo_lib_pem demo_pkcs8 demo_ParseExported] demo_ParseExported by blast

text \<open>
  An export that fails never does so with the internal marker \<^verbatim>\<open>errNoPrivateKey\<close>, and it fails
  only when no candidate is a key or the key cannot be encoded as PKCS#8.
\<close>

theorem ParseExportedPrivateKey_error:
  assumes "ParseExportedPrivateKey L data password = Inl e"
  shows "e \<noteq> ErrNoPrivateKey \<and>
    (data = [] \<or> (\<forall>c. c \<in> set (exportCandidates L data) \<longrightarrow> (\<exists>e. parsePrivateKeyCandidate L c password = Inl e))
     \<or> (\<exists>c key msg. c \<in> set (exportCandidates L data) \<and> parsePrivateKeyCandidate L c password = Inr key
          \<and> marshalPKCS8PrivateKey L key = Inl msg))"
proof (cases "tryCandidates L password (exportCandidates L data) None")
  case (Inl fe)
  then have "\<exists>e. parsePrivateKeyCandidate L c password = Inl e" if "c \<in> set (exportCandidates L data)" for c
    using tryCandidates_all_fail that by blast
  moreover have "e \<noteq> ErrNoPrivateKey"
    using assms Inl tryCandidates_Inl [of L password "exportCandidates L data" None]
    by (cases fe) (auto simp: ParseExportedPrivateKey_def split: if_splits)
  ultimately show ?thesis by blast
next
  case (Inr key)
  then obtain c where "c \<in> set (exportCandidates L data)" "parsePrivateKeyCandidate L c password = Inr key"
    unfolding tryCandidates_Inr by fastforce
  with Inr assms show ?thesis by (auto simp: ParseExportedPrivateKey_def split: if_splits sum.splits)
qed

theorem ParseExportedPrivateKey_error_witness:
  "\<exists>e. ParseExportedPrivateKey demo_lib ''0abc'' [] = Inl e \<and> e \<noteq> ErrNoPrivateKey"
proof -
  have "ParseExportedPrivateKey demo_lib ''0abc'' [] = Inl (ErrText ''no private key found in the export'')" by code_simp
  from ParseExportedPrivateKey_error [OF this] this show ?thesis by blast
qed

end
