(* ===== verification/Provision.thy ===== *)
theory Provision
  imports SignerSpec PrivateKey
begin

text \<open>
  \<^verbatim>\<open>internal/kmp/provision.go\<close>: the escrowed-key flow, in which Key Manager Plus generates the key
  pair and hands back the certificate and the private key.
\<close>

section \<open>The flow\<close>

record ProvisionRequest =
  pCommonName :: string
  pAltNames :: "string list"
  pOrganization :: string
  pOrganizationalUnit :: string
  pLocation :: string
  pState :: string
  pCountry :: string
  pKeyAlgorithm :: string
  pKeyLength :: int
  pSignatureAlgorithm :: string
  pStoreType :: string
  pValidityType :: string
  pValidityDays :: "int option"
  pPassword :: string
  pExportFileType :: string

record ProvisionedCertificate =
  pcBundle :: Bundle
  pcPrivateKeyPEM :: bytes
  pcCSRID :: string
  pcSerialNumber :: string

definition createRequest :: "ProvisionRequest \<Rightarrow> CreateCSRRequest" where
  "createRequest req = \<lparr>CC_CommonName = pCommonName req, CC_AltNames = pAltNames req,
     CC_Organization = pOrganization req, CC_OrganizationalUnit = pOrganizationalUnit req,
     CC_Location = pLocation req, CC_State = pState req, CC_Country = pCountry req, CC_Password = pPassword req,
     CC_KeyAlgorithm = pKeyAlgorithm req, CC_KeyLength = pKeyLength req,
     CC_SignatureAlgorithm = pSignatureAlgorithm req, CC_StoreType = pStoreType req,
     CC_ValidityType = pValidityType req, CC_ValidityDays = pValidityDays req\<rparr>"

text \<open>What one alternative name contributes to \<^verbatim>\<open>missing\<close>.\<close>

definition missingAltName :: "'r unicode_tables_scheme \<Rightarrow> certificate \<Rightarrow> string \<Rightarrow> string list" where
  "missingAltName U leaf name =
     (let name = trimSpace name in
      if name = [] then []
      else case parseIP name of
        Some i \<Rightarrow> if containsIP (certIPAddresses leaf) i then [] else [''IP address '' @ quote U name]
      | None \<Rightarrow> if containsFold U (certDNSNames leaf) name then [] else [''DNS name '' @ quote U name])"

definition missingProvisioned :: "'r unicode_tables_scheme \<Rightarrow> ProvisionRequest \<Rightarrow> certificate \<Rightarrow> string list" where
  "missingProvisioned U req leaf =
     (if \<not> equalFold U (pCommonName req) (certCommonName leaf)
      then [missingCommonName U (pCommonName req) (certCommonName leaf)] else [])
     @ concat (map (missingAltName U leaf) (pAltNames req))"

definition verifyProvisionedNames :: "'r unicode_tables_scheme \<Rightarrow> ProvisionRequest \<Rightarrow> certificate \<Rightarrow> goerr option" where
  "verifyProvisionedNames U req leaf =
     (let missing = missingProvisioned U req leaf in if missing = [] then None else Some (missingError missing))"

text \<open>The end of \<^verbatim>\<open>Provision\<close>, once the key is read.\<close>

definition assemblePair :: "('w, 'r) env_scheme \<Rightarrow> ProvisionRequest \<Rightarrow> certificate list \<Rightarrow> PrivateKey \<Rightarrow> string \<Rightarrow> string
    \<Rightarrow> goerr + ProvisionedCertificate" where
  "assemblePair E req certs privateKey csrID serial =
     (let publicKey = (case keyPublic (Key privateKey) of Some pub \<Rightarrow> pub | None \<Rightarrow> NilKey) in
      case BuildBundle E certs publicKey of
        Inl err \<Rightarrow> Inl (errorfW ErrUnusableResponse ('': assembling the certificate chain: '' @ errorText E err))
      | Inr bundle \<Rightarrow>
        if \<not> MatchesCertificate privateKey (Leaf bundle) then
          Inl (errorfW ErrUnusableResponse '': the exported private key does not belong to the issued certificate'')
        else case verifyProvisionedNames E req (Leaf bundle) of
          Some err \<Rightarrow> Inl err
        | None \<Rightarrow> Inr \<lparr>pcBundle = bundle, pcPrivateKeyPEM = PEM privateKey, pcCSRID = csrID, pcSerialNumber = serial\<rparr>)"

definition exportKey :: "('w, 'r) env_scheme \<Rightarrow> Signer \<Rightarrow> ProvisionRequest \<Rightarrow> certificate list \<Rightarrow> string \<Rightarrow> string \<Rightarrow> 'w
    \<Rightarrow> (goerr + ProvisionedCertificate) \<times> 'w" where
  "exportKey E s req certs csrID serial w = (case ExportCSR E (client s) csrID (pExportFileType req) w of
     (Inl err, w) \<Rightarrow> (Inl (Wrapf (''exporting the private key: '' @ errorText E err) [err]), w)
   | (Inr exported, w) \<Rightarrow> (case ParseExportedPrivateKey E exported (pPassword req) of
       Inl err \<Rightarrow> (Inl (errorfW ErrUnusableResponse ('': reading the exported private key: '' @ errorText E err)), w)
     | Inr privateKey \<Rightarrow> (assemblePair E req certs privateKey csrID serial, w)))"

definition Provision :: "('w, 'r) env_scheme \<Rightarrow> Signer \<Rightarrow> ProvisionRequest \<Rightarrow> 'w
    \<Rightarrow> ((goerr + ProvisionedCertificate) \<times> 'w) option" where
  "Provision E s req w =
     (if trimSpace (pCommonName req) = [] then
        Some (Inl (errorfW ErrInvalidConfig '': the request has no common name''), w)
      else if pPassword req = [] then
        Some (Inl (errorfW ErrInvalidConfig '': no password to protect the key Key Manager Plus generates''), w)
      else case CreateCSR E (client s) (createRequest req) w of
        (Inl err, w) \<Rightarrow> Some (Inl (Wrapf (''creating the certificate signing request: '' @ errorText E err) [err]), w)
      | (Inr stored, w) \<Rightarrow> (case resolveCSRID E s stored (pCommonName req) w of
          (Inl err, w) \<Rightarrow> Some (Inl err, w)
        | (Inr csrID, w) \<Rightarrow>
          (case SignCSR E (client s) (signRequest s csrID \<lparr>CSRPEM = [], Duration = 0, IsCA = False\<rparr>) w of
             (Inl err, w) \<Rightarrow> Some (Inl (Wrapf (''signing the certificate signing request: '' @ errorText E err) [err]), w)
           | (Inr result, w) \<Rightarrow>
             let commonName = (if SR_CommonName result = [] then pCommonName req else SR_CommonName result) in
             (case fetchCertificate E s commonName (SR_SerialNumber result) w of
                None \<Rightarrow> None
              | Some (Inl err, w) \<Rightarrow>
                  Some (Inl (Wrapf (''fetching the signed certificate: '' @ errorText E err) [err]), w)
              | Some (Inr certs, w) \<Rightarrow> Some (exportKey E s req certs csrID (SR_SerialNumber result) w)))))"

section \<open>The names\<close>

text \<open>The identities a provision request asks for: every alternative name that is not blank.\<close>

definition altIdentity :: "string \<Rightarrow> identity" where
  "altIdentity name = (case parseIP name of Some i \<Rightarrow> IPAddressId i | None \<Rightarrow> DNSNameId name)"

definition provisionedNames :: "ProvisionRequest \<Rightarrow> identity list" where
  "provisionedNames req = CommonNameId (pCommonName req)
     # map altIdentity (filter (\<lambda>n. n \<noteq> []) (map trimSpace (pAltNames req)))"

lemma missingAltName_iff:
  "missingAltName U leaf name = [] \<longleftrightarrow> trimSpace name = [] \<or> carries U leaf (altIdentity (trimSpace name))"
  by (auto simp: missingAltName_def Let_def altIdentity_def containsIP_iff containsFold_iff split: option.splits)

lemma missingProvisioned_iff:
  "missingProvisioned U req leaf = [] \<longleftrightarrow> (\<forall>i. i \<in> set (provisionedNames req) \<longrightarrow> carries U leaf i)"
  by (auto simp: missingProvisioned_def provisionedNames_def missingAltName_iff)

interpretation escrowNames: name_check U provisionedNames "missingProvisioned U" "verifyProvisionedNames U" for U
  by unfold_locales (rule missingProvisioned_iff, simp add: verifyProvisionedNames_def Let_def)

section \<open>What is handed back\<close>

lemma assemblePair_Inr:
  assumes "assemblePair E req certs k csrID serial = Inr pc"
  shows "\<exists>pub. keyPublic (Key k) = Some pub \<and> certPublicKey (Leaf (pcBundle pc)) = pub \<and> publicKeyMatcher pub
    \<and> BuildBundle E certs pub = Inr (pcBundle pc) \<and> pcPrivateKeyPEM pc = PEM k
    \<and> set (provisionedNames req) \<subseteq> {i. carries E (Leaf (pcBundle pc)) i}"
proof -
  from assms obtain b where b: "BuildBundle E certs (case keyPublic (Key k) of Some pub \<Rightarrow> pub | None \<Rightarrow> NilKey) = Inr b"
    and m: "MatchesCertificate k (Leaf b)" and v: "verifyProvisionedNames E req (Leaf b) = None"
    and pc: "pc = \<lparr>pcBundle = b, pcPrivateKeyPEM = PEM k, pcCSRID = csrID, pcSerialNumber = serial\<rparr>"
    by (auto simp: assemblePair_def Let_def split: sum.splits if_splits option.splits)
  from m obtain pub where pub: "keyPublic (Key k) = Some pub" "certPublicKey (Leaf b) = pub" "publicKeyMatcher pub"
    by (auto simp: MatchesCertificate_def split: option.splits if_splits)
  from v have "set (provisionedNames req) \<subseteq> {i. carries E (Leaf b) i}" using escrowNames.accepts_iff by blast
  with pub b pc show ?thesis by simp
qed

lemma Provision_stages:
  assumes "Provision E s req w = Some (Inr pc, w')"
  obtains cn sn w1 certs w2 csrID exported k where
    "fetchCertificate E s cn sn w1 = Some (Inr certs, w2)"
    "ExportCSR E (client s) csrID (pExportFileType req) w2 = (Inr exported, w')"
    "ParseExportedPrivateKey E exported (pPassword req) = Inr k"
    "assemblePair E req certs k csrID sn = Inr pc"
proof -
  from assms obtain csrID sn w1 certs w2 cn where
    "fetchCertificate E s cn sn w1 = Some (Inr certs, w2)"
    "exportKey E s req certs csrID sn w2 = (Inr pc, w')"
    by (auto simp: Provision_def Let_def split: op_splits)
  then show ?thesis using that by (auto simp: exportKey_def split: sum.splits prod.splits)
qed

lemma Provision_pair:
  assumes "Provision E s req w = Some (Inr pc, w')" and "pem_ok (pemDecode E)" and "x509_ok (parseCertificate E)"
    and "pkcs8_ok (marshalPKCS8PrivateKey E) (parsePKCS8PrivateKey E)"
  shows "\<exists>key chain. parsePEMPrivateKey E (pcPrivateKeyPEM pc) [] = Inr key
    \<and> keyPublic key = Some (certPublicKey (Leaf (pcBundle pc))) \<and> publicKeyMatcher (certPublicKey (Leaf (pcBundle pc)))
    \<and> set (provisionedNames req) \<subseteq> {i. carries E (Leaf (pcBundle pc)) i}
    \<and> parsePEMCertificates E (ChainPEM (pcBundle pc)) = (Leaf (pcBundle pc) # chain, None)
    \<and> linked E (Leaf (pcBundle pc) # chain)"
proof -
  from assms(1) obtain cn sn w1 certs w2 csrID exported k where
    f: "fetchCertificate E s cn sn w1 = Some (Inr certs, w2)"
    and k: "ParseExportedPrivateKey E exported (pPassword req) = Inr k"
    and a: "assemblePair E req certs k csrID sn = Inr pc"
    by (rule Provision_stages)
  have p: "parseCertificate E (Raw x) = Inr x" if "x \<in> set certs" for x
    using fetchCertificate_result [OF f] GetCertificate_parsed [OF assms(3)] that by (auto simp: fetch_result_def)
  from assemblePair_Inr [OF a] obtain pub where pub: "keyPublic (Key k) = Some pub" "certPublicKey (Leaf (pcBundle pc)) = pub"
    "publicKeyMatcher pub" "BuildBundle E certs pub = Inr (pcBundle pc)" "pcPrivateKeyPEM pc = PEM k"
    "set (provisionedNames req) \<subseteq> {i. carries E (Leaf (pcBundle pc)) i}" by blast
  obtain chain where "parsePEMCertificates E (ChainPEM (pcBundle pc)) = (Leaf (pcBundle pc) # chain, None)"
    "linked E (Leaf (pcBundle pc) # chain)"
    using BuildBundle_chain [OF pub(4) assms(2) p] by (auto simp: chain_above_def)
  moreover have "parsePEMPrivateKey E (PEM k) [] = Inr (Key k)"
    using ParseExported_readback [OF assms(2,4) k] by blast
  ultimately show ?thesis using pub by metis
qed


text \<open>
  C2. The escrowed-key flow never hands back a mismatched pair: the published private key reads
  back to a key whose public half is the key of the leaf, the leaf carries the common name and
  every alternative name asked for, and the published chain reads back as the leaf followed by
  the certificates linked above it.
\<close>

theorem Provision_safe:
  assumes "Provision E s req w = Some (Inr pc, w')" and "pem_ok (pemDecode E)" and "x509_ok (parseCertificate E)"
    and "pkcs8_ok (marshalPKCS8PrivateKey E) (parsePKCS8PrivateKey E)"
  shows "\<exists>key chain. parsePEMPrivateKey E (pcPrivateKeyPEM pc) [] = Inr key
    \<and> keyPublic key = Some (certPublicKey (Leaf (pcBundle pc))) \<and> publicKeyMatcher (certPublicKey (Leaf (pcBundle pc)))
    \<and> set (provisionedNames req) \<subseteq> {i. carries E (Leaf (pcBundle pc)) i}
    \<and> parsePEMCertificates E (ChainPEM (pcBundle pc)) = (Leaf (pcBundle pc) # chain, None)
    \<and> linked E (Leaf (pcBundle pc) # chain)"
  by (rule Provision_pair [OF assms])

section \<open>A run\<close>

definition demo_password :: string where
  "demo_password = b64UrlEncode (replicate 24 (CHR ''r''))"

definition demo_preq :: ProvisionRequest where
  "demo_preq = \<lparr>pCommonName = ''app.example'', pAltNames = [''www.example''], pOrganization = [],
     pOrganizationalUnit = [], pLocation = [], pState = [], pCountry = [], pKeyAlgorithm = ''EC'', pKeyLength = 256,
     pSignatureAlgorithm = [], pStoreType = [], pValidityType = [], pValidityDays = None, pPassword = demo_password,
     pExportFileType = []\<rparr>"

definition demo_prun :: "http_outcome list" where
  "demo_prun = [demo_ok [(''CSR_ID'', ''7'')], demo_ok [(''serialNumber'', ''0A'')],
     demo_ok [(''certificate'', encodeCertificates [demo_root, demo_leaf])], Answered 200 demo_export]"

definition demo_pair :: ProvisionedCertificate where
  "demo_pair = \<lparr>pcBundle = demo_bundle, pcPrivateKeyPEM = demo_export, pcCSRID = ''7'', pcSerialNumber = ''0A''\<rparr>"

lemma demo_CreateCSR:
  "CreateCSR demo_env demo_client (createRequest demo_preq) (0, demo_prun, st :: 'x :: equal)
     = (Inr \<lparr>CSR_ID = ''7'', CSR_CommonName = ''app.example'',
          CSR_Response = marshal (AMap [(''status'', AStr ''Success''), (''CSR_ID'', AStr ''7'')])\<rparr>, (0, tl demo_prun, st))"
  by code_simp

lemma demo_pSignCSR:
  "SignCSR demo_env demo_client (signRequest demo_signer ''7'' \<lparr>CSRPEM = [], Duration = 0, IsCA = False\<rparr>) (0, tl demo_prun, st :: 'x :: equal)
     = (Inr \<lparr>CertificateID = [], SR_CommonName = [], SR_SerialNumber = ''0A''\<rparr>, (0, tl (tl demo_prun), st))"
  by code_simp

lemma demo_pfetchAttempts:
  "fetchAttempts 1 demo_env demo_client ''app.example'' ''0A'' (2 * second) (60 * second) (0, tl (tl demo_prun), st :: 'x :: equal)
     = Some (Inr [demo_root, demo_leaf], (0, tl (tl (tl demo_prun)), st))"
  by code_simp

lemma demo_pfetchCertificate:
  "fetchCertificate demo_env demo_signer ''app.example'' ''0A'' (0, tl (tl demo_prun), st :: 'x :: equal)
     = Some (Inr [demo_root, demo_leaf], (0, tl (tl (tl demo_prun)), st))"
  using fetchAttempts_loop [OF demo_pfetchAttempts]
  by (simp add: fetchCertificate_def demo_clock_read demo_signer_def pollInterval_def pollTimeout_def
      defaultPollInterval_def defaultPollTimeout_def)

lemma demo_ExportCSR: "ExportCSR demo_env demo_client ''7'' [] (0, tl (tl (tl demo_prun)), st :: 'x :: equal) = (Inr demo_export, (0, [], st))"
  by code_simp

lemma demo_export_read: "ParseExportedPrivateKey demo_env demo_export demo_password = Inr demo_private"
  by code_simp

lemma demo_provisioned: "verifyProvisionedNames demo_env demo_preq demo_leaf = None"
  by code_simp

lemma demo_matches: "MatchesCertificate demo_private demo_leaf"
  by code_simp

lemma demo_assemblePair:
  assumes "verifyProvisionedNames (demo_env :: 'x demo_world env) req demo_leaf = None"
  shows "assemblePair (demo_env :: 'x demo_world env) req [demo_root, demo_leaf] demo_private ''7'' ''0A'' = Inr demo_pair"
proof -
  have "keyPublic (Key demo_private) = Some (ECDSAKey ''k'')" "PEM demo_private = demo_export" "Leaf demo_bundle = demo_leaf"
    by (simp_all add: demo_private_def demo_key_def demo_bundle_def)
  then show ?thesis
    using assms by (simp add: assemblePair_def demo_env_bundle demo_matches demo_pair_def)
qed

lemma demo_Provision: "Provision demo_env demo_signer demo_preq (0, demo_prun, st :: 'x :: equal) = Some (Inr demo_pair, (0, [], st))"
proof -
  have s: "client demo_signer = demo_client" by (simp add: demo_signer_def)
  have t: "trimSpace ''app.example'' = ''app.example''" "demo_password \<noteq> []" by code_simp+
  have p: "pCommonName demo_preq = ''app.example''" "pPassword demo_preq = demo_password" "pExportFileType demo_preq = []"
    by (simp_all add: demo_preq_def)
  show ?thesis
    by (simp add: Provision_def s p t demo_CreateCSR resolveCSRID_def demo_pSignCSR demo_pfetchCertificate exportKey_def
        demo_ExportCSR demo_export_read demo_assemblePair [OF demo_provisioned])
qed

lemma demo_env_pkcs8: "pkcs8_ok (marshalPKCS8PrivateKey demo_env) (parsePKCS8PrivateKey demo_env)"
  using demo_pkcs8 by (simp add: demo_env_def)

theorem Provision_safe_witness:
  "Provision demo_unit demo_signer demo_preq (0, demo_prun, ()) = Some (Inr demo_pair, (0, [], ()))
   \<and> (\<exists>key. parsePEMPrivateKey demo_unit (pcPrivateKeyPEM demo_pair) [] = Inr key
        \<and> keyPublic key = Some (certPublicKey (Leaf (pcBundle demo_pair))))"
  using Provision_safe [OF demo_Provision [of "()"] demo_env_laws demo_env_pkcs8] demo_Provision [of "()"] by blast


section \<open>Failures\<close>

lemma assemblePair_failure: "assemblePair E req certs k csrID serial = Inl e \<Longrightarrow> sign_failure ops e"
  using escrowNames.rejects_permanently
  by (auto simp: assemblePair_def Let_def sign_failure_def error_simps split: if_splits sum.splits option.splits)

lemma exportKey_failure:
  assumes "exportKey E s req certs csrID serial w = (Inl e, w')"
  shows "sign_failure {opExportCSR} e"
  using assms ExportCSR_failure assemblePair_failure
  by (auto simp: exportKey_def split: sum.splits prod.splits intro!: sign_failure_api)

definition provisionOps :: "Signer \<Rightarrow> string set" where
  "provisionOps s = {opCreateCSR, lookupOp (optCSRLookupOperation (opts s)), opSignCSR, opGetCertificate, opExportCSR}"

lemma Provision_error_kind:
  assumes "Provision E s req w = Some (Inl e, w')"
  shows "sign_failure (provisionOps s) e"
proof -
  let ?m = "\<lambda>ops. ops \<subseteq> provisionOps s"
  consider (cfg) t where "e = errorfW ErrInvalidConfig t"
    | (create) x w1 t where "CreateCSR E (client s) (createRequest req) w = (Inl x, w1)" "e = Wrapf t [x]"
    | (resolve) stored w1 w2 where "resolveCSRID E s stored (pCommonName req) w1 = (Inl e, w2)"
    | (sign) r w1 x w2 t where "SignCSR E (client s) r w1 = (Inl x, w2)" "e = Wrapf t [x]"
    | (fetch) cn sn w1 x w2 t where "fetchCertificate E s cn sn w1 = Some (Inl x, w2)" "e = Wrapf t [x]"
    | (export) certs i sn w1 w2 where "exportKey E s req certs i sn w1 = (Inl e, w2)"
    using assms by (auto simp: Provision_def Let_def split: op_splits)
  then show ?thesis
  proof cases
    case create
    then show ?thesis using CreateCSR_failure by (fastforce intro: sign_failure_api simp: provisionOps_def)
  next
    case resolve
    then show ?thesis using resolveCSRID_failure by (fastforce intro: sign_failure_mono simp: provisionOps_def)
  next
    case sign
    then show ?thesis using SignCSR_failure by (fastforce intro: sign_failure_api simp: provisionOps_def)
  next
    case fetch
    then have "sign_failure {opGetCertificate} x" by (intro fetchCertificate_failure)
    then have "sign_failure (provisionOps s) x" by (rule sign_failure_mono) (simp add: provisionOps_def)
    then show ?thesis unfolding fetch(2) by (rule sign_failure_wrap)
  next
    case export
    then show ?thesis using exportKey_failure by (fastforce intro: sign_failure_mono simp: provisionOps_def)
  qed simp
qed

lemma Provision_total:
  assumes "clock_ok E tm"
  shows "\<exists>r w'. Provision E s req w = Some (r, w')"
proof -
  have f: "fetchCertificate E s cn sn w \<noteq> None" for cn sn w
    using fetchCertificate_attempts [OF assms, of w s cn sn] by auto
  then have fc: "(case fetchCertificate E s cn sn w of None \<Rightarrow> None | Some (Inl err, w) \<Rightarrow> Some (a err w)
      | Some (Inr certs, w) \<Rightarrow> Some (b certs w)) \<noteq> None" for cn sn w and a b :: "_ \<Rightarrow> _ \<Rightarrow> (goerr + ProvisionedCertificate) \<times> 'a"
    by (auto split: option.split sum.split)
  have "Provision E s req w \<noteq> None"
    unfolding Provision_def Let_def by (auto simp: fc simp del: not_None_eq split: sum.split prod.split)
  then show ?thesis by auto
qed

text \<open>
  C23. Every failure of \<^verbatim>\<open>Provision\<close> is permanent and wraps one of the two sentinels, or leads to the
  \<^verbatim>\<open>*Error\<close> of one of the five operations and is permanent exactly when that error says so; and
  \<^verbatim>\<open>Provision\<close> returns whenever the clock runs.
\<close>

theorem Provision_failure:
  assumes "clock_ok E tm"
  shows "\<exists>r w'. Provision E s req w = Some (r, w') \<and> (case r of Inr _ \<Rightarrow> True | Inl e \<Rightarrow>
      (IsPermanent e \<and> (errIs e ErrInvalidConfig \<or> errIs e ErrUnusableResponse))
      \<or> (\<exists>k. errAs e = Some k \<and> Op k \<in> provisionOps s \<and> IsPermanent e = Permanent k))"
proof -
  obtain r w' where r: "Provision E s req w = Some (r, w')" using Provision_total [OF assms] by blast
  show ?thesis
  proof (cases r)
    case (Inl e)
    with r show ?thesis using Provision_error_kind [of E s req w e w'] by (simp add: sign_failure_def)
  qed (use r in simp)
qed

theorem Provision_failure_witness:
  "\<exists>r w'. Provision demo_unit demo_signer demo_preq (0, [], ()) = Some (r, w')"
  using Provision_failure [OF demo_clock, where s = demo_signer and req = demo_preq and w = "(0, [], ())"] by blast

end
