(* ===== verification/Issuer.thy ===== *)
theory Issuer
  imports Provision
begin

text \<open>
  \<^verbatim>\<open>api/v1alpha1\<close> and \<^verbatim>\<open>internal/signer/kmp.go\<close>: the issuer resources, and the signer built from an
  issuer's spec and the data of its auth Secret. The values are those of the API types; their
  JSON encoding and the generated deep copies are the API machinery's.
\<close>

section \<open>The API types\<close>

record SigningSpec =
  specSignType :: string
  specServerName :: string
  specCAName :: string
  specTemplateName :: string
  specAgentName :: string
  specAgentResponseTimeoutSeconds :: "int option"
  specRootCertificateCommonName :: string
  specRootCertificateSerialNumber :: string
  specSigningValidityDays :: "int option"
  specIsIntermediate :: "bool option"
  specEmail :: string
  specCSRLookupOperation :: string

record IssuerSpec =
  specURL :: string
  AuthSecretName :: string
  Signing :: SigningSpec
  specInsecureSkipTLSVerify :: bool
  RequestTimeout :: "int option"

record KMPIssuer =
  issuerNamespace :: string
  issuerName :: string
  issuerSpec :: IssuerSpec

record KMPClusterIssuer =
  clusterIssuerName :: string
  clusterIssuerSpec :: IssuerSpec

definition AuthSecretTokenKey :: string where
  "AuthSecretTokenKey = ''authtoken''"

definition AuthSecretCABundleKey :: string where
  "AuthSecretCABundleKey = ''ca.crt''"

definition KMPIssuer_GetIssuerTypeIdentifier :: string where
  "KMPIssuer_GetIssuerTypeIdentifier = ''kmpissuers.kmp.cert-manager.io''"

definition KMPClusterIssuer_GetIssuerTypeIdentifier :: string where
  "KMPClusterIssuer_GetIssuerTypeIdentifier = ''kmpclusterissuers.kmp.cert-manager.io''"

text \<open>A Go map of byte slices; a missing key reads as the empty slice.\<close>

type_synonym secret_data = "(string \<times> bytes) list"

definition dataAt :: "secret_data \<Rightarrow> string \<Rightarrow> bytes" where
  "dataAt m k = (case map_of m k of Some v \<Rightarrow> v | None \<Rightarrow> [])"

section \<open>Building the signer\<close>

definition signerUserAgent :: string where
  "signerUserAgent = ''kmp-issuer''"

definition signingOptions :: "IssuerSpec \<Rightarrow> SigningOptions" where
  "signingOptions spec =
     \<lparr>optSignType = specSignType (Signing spec), optServerName = specServerName (Signing spec),
      optCAName = specCAName (Signing spec), optTemplateName = specTemplateName (Signing spec),
      optAgentName = specAgentName (Signing spec),
      optAgentResponseTimeoutSeconds = specAgentResponseTimeoutSeconds (Signing spec),
      optRootCertificateCommonName = specRootCertificateCommonName (Signing spec),
      optRootCertificateSerialNumber = specRootCertificateSerialNumber (Signing spec),
      optValidityDays = specSigningValidityDays (Signing spec), optIsIntermediate = specIsIntermediate (Signing spec),
      optEmail = specEmail (Signing spec), optCSRLookupOperation = specCSRLookupOperation (Signing spec)\<rparr>"

definition requestTimeout :: "IssuerSpec \<Rightarrow> int" where
  "requestTimeout spec = (case RequestTimeout spec of None \<Rightarrow> 0 | Some d \<Rightarrow> d)"

record kmpSigner =
  kmpClient :: Client
  kmpInner :: Signer

text \<open>The spec is a pointer in Go; \<^const>\<open>None\<close> stands for nil.\<close>

definition signerFromIssuerAndSecretData :: "('w, 'r) env_scheme \<Rightarrow> IssuerSpec option \<Rightarrow> secret_data \<Rightarrow> goerr + kmpSigner" where
  "signerFromIssuerAndSecretData E spec secretData = (case spec of
     None \<Rightarrow> Inl (errorfW ErrInvalidConfig '': no issuer spec'')
   | Some spec \<Rightarrow>
     let token = trimSpace (dataAt secretData AuthSecretTokenKey) in
     if token = [] then
       Inl (errorfW ErrInvalidConfig ('': the auth Secret has no non-empty '' @ quote E AuthSecretTokenKey @ '' key''))
     else case NewClient E \<lparr>BaseURL = specURL spec, AuthToken = token,
                 CABundle = dataAt secretData AuthSecretCABundleKey,
                 InsecureSkipTLSVerify = specInsecureSkipTLSVerify spec, cfgTimeout = requestTimeout spec,
                 UserAgent = signerUserAgent, cfgTransport = None\<rparr> of
       Inl err \<Rightarrow> Inl (errorfW ErrInvalidConfig ('': '' @ errorText E err))
     | Inr c \<Rightarrow> (case NewSigner E (Some c) (signingOptions spec) of
         Inl err \<Rightarrow> Inl err
       | Inr inner \<Rightarrow> Inr \<lparr>kmpClient = c, kmpInner = inner\<rparr>))"

text \<open>
  The three constructors the controllers are given return the same value as a health checker, a
  provisioner and a signer.
\<close>

definition KMPHealthCheckerFromIssuerAndSecretData :: "('w, 'r) env_scheme \<Rightarrow> IssuerSpec option \<Rightarrow> secret_data \<Rightarrow> goerr + kmpSigner" where
  "KMPHealthCheckerFromIssuerAndSecretData E spec secretData = signerFromIssuerAndSecretData E spec secretData"

definition KMPProvisionerFromIssuerAndSecretData :: "('w, 'r) env_scheme \<Rightarrow> IssuerSpec option \<Rightarrow> secret_data \<Rightarrow> goerr + kmpSigner" where
  "KMPProvisionerFromIssuerAndSecretData E spec secretData = signerFromIssuerAndSecretData E spec secretData"

definition KMPSignerFromIssuerAndSecretData :: "('w, 'r) env_scheme \<Rightarrow> IssuerSpec option \<Rightarrow> secret_data \<Rightarrow> goerr + kmpSigner" where
  "KMPSignerFromIssuerAndSecretData E spec secretData = signerFromIssuerAndSecretData E spec secretData"

text \<open>The \<^verbatim>\<open>CertificateDetails\<close> issuer-lib supplies, as far as they are read.\<close>

record CertificateDetails =
  detailsCSR :: bytes
  detailsDuration :: int
  detailsIsCA :: bool

definition kmpSigner_Check :: "('w, 'r) env_scheme \<Rightarrow> kmpSigner \<Rightarrow> 'w \<Rightarrow> goerr option \<times> 'w" where
  "kmpSigner_Check E o' w = Ping E (kmpClient o') w"

definition kmpSigner_Sign :: "('w, 'r) env_scheme \<Rightarrow> kmpSigner \<Rightarrow> CertificateDetails \<Rightarrow> 'w \<Rightarrow> ((goerr + bytes) \<times> 'w) option" where
  "kmpSigner_Sign E o' details w =
     (case Sign E (kmpInner o') \<lparr>CSRPEM = detailsCSR details, Duration = detailsDuration details, IsCA = detailsIsCA details\<rparr> w of
        None \<Rightarrow> None
      | Some (Inl err, w') \<Rightarrow> Some (Inl err, w')
      | Some (Inr bundle, w') \<Rightarrow> Some (Inr (ChainPEM bundle), w'))"

definition kmpSigner_Provision :: "('w, 'r) env_scheme \<Rightarrow> kmpSigner \<Rightarrow> ProvisionRequest \<Rightarrow> 'w
    \<Rightarrow> ((goerr + ProvisionedCertificate) \<times> 'w) option" where
  "kmpSigner_Provision E o' req w = Provision E (kmpInner o') req w"

section \<open>What a signer from an issuer is\<close>

lemma NewSigner_config: "NewSigner U cl o' = Inl e \<Longrightarrow> \<exists>s. e = errorfW ErrInvalidConfig s"
  by (auto simp: NewSigner_def split: option.splits dest: Validate_config)

lemma NewSigner_Inr: "NewSigner U (Some c) o' = Inr s \<Longrightarrow> s = \<lparr>client = c, opts = o', PollInterval = 0, PollTimeout = 0\<rparr>"
  by (auto simp: NewSigner_def split: option.splits)

lemma signerFrom_config:
  "signerFromIssuerAndSecretData E spec d = Inl e \<Longrightarrow> \<exists>s. e = errorfW ErrInvalidConfig s"
  by (auto simp: signerFromIssuerAndSecretData_def Let_def split: option.splits if_splits sum.splits dest: NewSigner_config)

lemma signerFrom_Inr:
  assumes "signerFromIssuerAndSecretData E (Some spec) d = Inr k"
  shows "NewClient E \<lparr>BaseURL = specURL spec, AuthToken = trimSpace (dataAt d AuthSecretTokenKey),
            CABundle = dataAt d AuthSecretCABundleKey, InsecureSkipTLSVerify = specInsecureSkipTLSVerify spec,
            cfgTimeout = requestTimeout spec, UserAgent = signerUserAgent, cfgTransport = None\<rparr> = Inr (kmpClient k)"
    and "kmpInner k = \<lparr>client = kmpClient k, opts = signingOptions spec, PollInterval = 0, PollTimeout = 0\<rparr>"
    and "Validate E (signingOptions spec) = None"
  using assms
  by (auto simp: signerFromIssuerAndSecretData_def NewSigner_def Let_def split: if_splits sum.splits option.splits)

text \<open>
  C37. A signer built from an issuer uses one client for health checks, signing and provisioning,
  with the complete options of the spec and the trimmed token of the Secret; it speaks TLS 1.2
  or later and verifies the server unless the spec disables that, against the bundle of the Secret when there is one. An
  issuer it cannot be built from is refused permanently.
\<close>

theorem signerFromIssuer_spec:
  "case signerFromIssuerAndSecretData E spec d of
     Inl e \<Rightarrow> IsPermanent e \<and> errIs e ErrInvalidConfig
   | Inr k \<Rightarrow> (\<exists>s. spec = Some s \<and> client (kmpInner k) = kmpClient k \<and> opts (kmpInner k) = signingOptions s
       \<and> options_complete (signingOptions s)
       \<and> authToken (kmpClient k) = trimSpace (trimSpace (dataAt d AuthSecretTokenKey)) \<and> authToken (kmpClient k) \<noteq> []
       \<and> 0 < Timeout (httpClient (kmpClient k))
       \<and> Transport (httpClient (kmpClient k)) = TLSTransport \<lparr>MinVersion = versionTLS12, InsecureSkipVerify = specInsecureSkipTLSVerify s,
           RootCAs = (if dataAt d AuthSecretCABundleKey = [] then None
                      else Some (certsFromPEM E (dataAt d AuthSecretCABundleKey)))\<rparr>)"
proof (cases "signerFromIssuerAndSecretData E spec d")
  case (Inl e)
  then show ?thesis using signerFrom_config [OF Inl] by (auto simp: error_simps)
next
  case (Inr k)
  then obtain s where s: "spec = Some s" by (cases spec) (auto simp: signerFromIssuerAndSecretData_def)
  note k = signerFrom_Inr [OF Inr [unfolded s]]
  have "options_complete (signingOptions s)" using k(3) by (simp add: Validate_None)
  then show ?thesis using Inr s k(2) NewClient_fields [OF k(1)] by (auto simp: newTransport_def split: if_splits)
qed

end
