(* ===== verification/Controllers.thy ===== *)
theory Controllers
  imports Issuer
begin

text \<open>
  \<^verbatim>\<open>internal/controllers/signer.go\<close>: the functions issuer-lib calls to check an issuer and to sign a
  request, and the way \<^verbatim>\<open>cmd/main.go\<close> wires them. The Kubernetes API and the chain splitter of
  cert-manager are fields of the record \<open>cluster\<close>, an argument of every definition that uses them
  beside the environment of the API client.
\<close>

section \<open>The cluster\<close>

text \<open>An error of the API server: its text and whether it says that the object does not exist.\<close>

record api_err =
  apiErrText :: string
  apiNotFound :: bool

text \<open>\<^verbatim>\<open>types.NamespacedName\<close>: a namespace and a name.\<close>

type_synonym nsname = "string \<times> string"

definition nsnameString :: "nsname \<Rightarrow> string" where
  "nsnameString n = fst n @ ''/'' @ snd n"

record Secret =
  secretType :: string
  Data :: secret_data
  secretOwner :: "string option"

text \<open>The \<^verbatim>\<open>PEMBundle\<close> cert-manager splits a chain into.\<close>

record PEMBundle =
  bundleChainPEM :: bytes
  bundleCAPEM :: bytes

record 'w cluster =
  getSecret :: "nsname \<Rightarrow> 'w \<Rightarrow> (api_err + Secret) \<times> 'w"
  parseSingleChain :: "bytes \<Rightarrow> string + PEMBundle"

section \<open>The interfaces of the controller\<close>

type_synonym 'w health_checker = "'w \<Rightarrow> goerr option \<times> 'w"
type_synonym 'w signer = "CertificateDetails \<Rightarrow> 'w \<Rightarrow> ((goerr + bytes) \<times> 'w) option"

record 'w IssuerController =
  HealthCheckerBuilder :: "IssuerSpec option \<Rightarrow> secret_data \<Rightarrow> goerr + 'w health_checker"
  SignerBuilder :: "IssuerSpec option \<Rightarrow> secret_data \<Rightarrow> goerr + 'w signer"
  ClusterResourceNamespace :: string

text \<open>The issuer object issuer-lib hands over; \<open>OtherIssuer\<close> with its rendering in an error.\<close>

datatype issuer_object = NamespacedIssuer KMPIssuer | ClusterIssuer KMPClusterIssuer | OtherIssuer string

section \<open>Checking and signing\<close>

definition permanentIfUnrecoverable :: "goerr \<Rightarrow> goerr \<Rightarrow> goerr" where
  "permanentIfUnrecoverable err cause = (if IsPermanent cause then PermanentError err else err)"

fun getIssuerDetails :: "'w IssuerController \<Rightarrow> issuer_object \<Rightarrow> goerr + IssuerSpec \<times> string" where
  "getIssuerDetails o' (NamespacedIssuer t) = Inr (issuerSpec t, issuerNamespace t)"
| "getIssuerDetails o' (ClusterIssuer t) = Inr (clusterIssuerSpec t, ClusterResourceNamespace o')"
| "getIssuerDetails o' (OtherIssuer t) = Inl (PermanentError (ErrText (''unexpected issuer type: '' @ t)))"

definition getSecretData :: "('w, 'r) env_scheme \<Rightarrow> ('w, 'k) cluster_scheme \<Rightarrow> 'w IssuerController \<Rightarrow> IssuerSpec \<Rightarrow> string \<Rightarrow> 'w
    \<Rightarrow> (goerr + secret_data) \<times> 'w" where
  "getSecretData E K o' spec namespace w =
     (let secretName = (namespace, AuthSecretName spec) in
      case getSecret K secretName w of
        (Inl err, w) \<Rightarrow> (Inl (errorfW ErrGetAuthSecret
           ('', secret name: '' @ nsnameString secretName @ '', reason: '' @ apiErrText err)), w)
      | (Inr secret, w) \<Rightarrow> (case HealthCheckerBuilder o' (Some spec) (Data secret) of
          Inl err \<Rightarrow> (Inl (permanentIfUnrecoverable (errorfW ErrHealthCheckerBuilder ('': '' @ errorText E err)) err), w)
        | Inr checker \<Rightarrow> (case checker w of
            (Some err, w) \<Rightarrow>
              (Inl (permanentIfUnrecoverable (errorfW ErrHealthCheckerCheck ('': '' @ errorText E err)) err), w)
          | (None, w) \<Rightarrow> (Inr (Data secret), w))))"

definition Issuer_Check :: "('w, 'r) env_scheme \<Rightarrow> ('w, 'k) cluster_scheme \<Rightarrow> 'w IssuerController \<Rightarrow> issuer_object \<Rightarrow> 'w \<Rightarrow> goerr option \<times> 'w" where
  "Issuer_Check E K o' issuerObject w = (case getIssuerDetails o' issuerObject of
     Inl err \<Rightarrow> (Some err, w)
   | Inr (spec, namespace) \<Rightarrow> (case getSecretData E K o' spec namespace w of
       (Inl err, w) \<Rightarrow> (Some err, w)
     | (Inr _, w) \<Rightarrow> (None, w)))"

text \<open>\<open>details\<close> is the result of \<^verbatim>\<open>cr.GetCertificateDetails()\<close>.\<close>

definition Issuer_Sign :: "('w, 'r) env_scheme \<Rightarrow> ('w, 'k) cluster_scheme \<Rightarrow> 'w IssuerController \<Rightarrow> goerr + CertificateDetails \<Rightarrow> issuer_object \<Rightarrow> 'w
    \<Rightarrow> ((goerr + PEMBundle) \<times> 'w) option" where
  "Issuer_Sign E K o' details issuerObject w = (case getIssuerDetails o' issuerObject of
     Inl err \<Rightarrow> Some (Inl (IssuerError err), w)
   | Inr (spec, namespace) \<Rightarrow> (case getSecretData E K o' spec namespace w of
       (Inl err, w) \<Rightarrow> Some (Inl (IssuerError err), w)
     | (Inr secretData, w) \<Rightarrow> (case details of
         Inl err \<Rightarrow> Some (Inl err, w)
       | Inr certDetails \<Rightarrow> (case SignerBuilder o' (Some spec) secretData of
           Inl err \<Rightarrow> Some (Inl (IssuerError (errorfW ErrSignerBuilder ('': '' @ errorText E err))), w)
         | Inr signerObj \<Rightarrow> (case signerObj certDetails w of
             None \<Rightarrow> None
           | Some (Inl err, w) \<Rightarrow>
               Some (Inl (permanentIfUnrecoverable (errorfW ErrSignerSign ('': '' @ errorText E err)) err), w)
           | Some (Inr signed, w) \<Rightarrow> (case parseSingleChain K signed of
               Inl err \<Rightarrow> Some (Inl (ErrText err), w)
             | Inr bundle \<Rightarrow> Some (Inr bundle, w)))))))"

text \<open>The controller \<^verbatim>\<open>main\<close> registers.\<close>

definition mainIssuer :: "('w, 'r) env_scheme \<Rightarrow> string \<Rightarrow> 'w IssuerController" where
  "mainIssuer E ns =
     \<lparr>HealthCheckerBuilder = (\<lambda>spec d. map_sum id (kmpSigner_Check E) (KMPHealthCheckerFromIssuerAndSecretData E spec d)),
      SignerBuilder = (\<lambda>spec d. map_sum id (kmpSigner_Sign E) (KMPSignerFromIssuerAndSecretData E spec d)),
      ClusterResourceNamespace = ns\<rparr>"

section \<open>What issuer-lib is told\<close>

text \<open>\<^verbatim>\<open>errors.As\<close> for issuer-lib's \<^verbatim>\<open>PermanentError\<close>: issuer-lib stops retrying on it.\<close>

fun stopsRetrying :: "goerr \<Rightarrow> bool" where
  "stopsRetrying (PermanentError e) = True"
| "stopsRetrying (IssuerError e) = stopsRetrying e"
| "stopsRetrying (Wrapf s es) = list_ex stopsRetrying es"
| "stopsRetrying (Joined es) = list_ex stopsRetrying es"
| "stopsRetrying (KmpError k) = (case k of Error op st a m b p x \<Rightarrow> (case x of Some e \<Rightarrow> stopsRetrying e | None \<Rightarrow> False))"
| "stopsRetrying _ = False"

lemma stopsRetrying_errorfW [simp]:
  "s \<in> {ErrGetAuthSecret, ErrHealthCheckerBuilder, ErrHealthCheckerCheck, ErrSignerBuilder, ErrSignerSign}
   \<Longrightarrow> \<not> stopsRetrying (errorfW s t)"
  by (auto simp: errorfW_def)

lemma stopsRetrying_permanentIf [simp]:
  "s \<in> {ErrHealthCheckerBuilder, ErrHealthCheckerCheck, ErrSignerSign}
   \<Longrightarrow> stopsRetrying (permanentIfUnrecoverable (errorfW s t) cause) \<longleftrightarrow> IsPermanent cause"
  by (auto simp: permanentIfUnrecoverable_def)


section \<open>Operations whose failures are classified\<close>

text \<open>
  The contract of what the controllers call: a failure is permanent and wraps a sentinel, or leads
  to the API error of one of the operations \<open>ops\<close>. An API operation fulfils it, and so do
  \<^verbatim>\<open>Sign\<close> and \<^verbatim>\<open>Provision\<close>.
\<close>

locale classified_operation =
  fixes ops :: "string set"
    and run :: "'a \<Rightarrow> 'w \<Rightarrow> ((goerr + 'b) \<times> 'w) option"
  assumes classified: "run a w = Some (Inl e, w') \<Longrightarrow> sign_failure ops e"
begin

lemma reported_permanent:
  assumes "run a w = Some (Inl e, w')"
  shows "stopsRetrying (permanentIfUnrecoverable (errorfW ErrSignerSign t) e) \<longleftrightarrow>
    errIs e ErrInvalidConfig \<or> errIs e ErrUnusableResponse \<or> (\<exists>k. errAs e = Some k \<and> Op k \<in> ops \<and> Permanent k)"
  using classified [OF assms] by (auto simp: sign_failure_def IsPermanent_def)

end

sublocale api_operation \<subseteq> single: classified_operation "{op}" "\<lambda>a w. Some (run a w)"
proof
  fix a w e w'
  assume "Some (run a w) = Some (Inl e, w')"
  then obtain k where "e = KmpError k" "Op k = op" "plainErr (Err k)"
    using failure by (fastforce simp: api_error_def)
  then show "sign_failure {op} e" by (auto simp: sign_failure_def IsPermanent_plain)
qed

interpretation signing: classified_operation "signOps s" "Sign E s" for E s
  by unfold_locales (rule Sign_error_kind)

interpretation provisioning: classified_operation "provisionOps s" "Provision E s" for E s
  by unfold_locales (rule Provision_error_kind)

section \<open>Signing a request\<close>

lemma mainIssuer_checker:
  "HealthCheckerBuilder (mainIssuer E ns) spec d = map_sum id (kmpSigner_Check E) (signerFromIssuerAndSecretData E spec d)"
  by (simp add: mainIssuer_def KMPHealthCheckerFromIssuerAndSecretData_def)

lemma mainIssuer_signer:
  "SignerBuilder (mainIssuer E ns) spec d = map_sum id (kmpSigner_Sign E) (signerFromIssuerAndSecretData E spec d)"
  by (simp add: mainIssuer_def KMPSignerFromIssuerAndSecretData_def)

text \<open>\<^verbatim>\<open>getSecretData\<close> of the registered controller, with its two builders resolved.\<close>

lemma getSecretData_main:
  "getSecretData E K (mainIssuer E ns) spec n w = (case getSecret K (n, AuthSecretName spec) w of
     (Inl err, w1) \<Rightarrow> (Inl (errorfW ErrGetAuthSecret
        ('', secret name: '' @ nsnameString (n, AuthSecretName spec) @ '', reason: '' @ apiErrText err)), w1)
   | (Inr secret, w1) \<Rightarrow> (case signerFromIssuerAndSecretData E (Some spec) (Data secret) of
       Inl err \<Rightarrow> (Inl (permanentIfUnrecoverable (errorfW ErrHealthCheckerBuilder ('': '' @ errorText E err)) err), w1)
     | Inr k \<Rightarrow> (case Ping E (kmpClient k) w1 of
         (Some err, w2) \<Rightarrow>
           (Inl (permanentIfUnrecoverable (errorfW ErrHealthCheckerCheck ('': '' @ errorText E err)) err), w2)
       | (None, w2) \<Rightarrow> (Inr (Data secret), w2))))"
  by (auto simp: getSecretData_def Let_def mainIssuer_checker kmpSigner_Check_def split: sum.splits prod.splits option.splits)

lemma getSecretData_ok:
  assumes "getSecretData E K (mainIssuer E ns) spec n w = (Inr d, w')"
  obtains secret w1 k where "getSecret K (n, AuthSecretName spec) w = (Inr secret, w1)" "d = Data secret"
    "signerFromIssuerAndSecretData E (Some spec) d = Inr k" "Ping E (kmpClient k) w1 = (None, w')"
  using assms that unfolding getSecretData_main by (auto split: sum.splits prod.splits option.splits)

text \<open>The request a \<^verbatim>\<open>kmpSigner\<close> hands to the signer.\<close>

abbreviation detailsRequest :: "CertificateDetails \<Rightarrow> Request" where
  "detailsRequest d \<equiv> \<lparr>CSRPEM = detailsCSR d, Duration = detailsDuration d, IsCA = detailsIsCA d\<rparr>"

text \<open>
  Once the health check passed, the registered controller builds the same signer again: the
  outcome is that of the signer, split into a bundle.
\<close>

lemma Issuer_Sign_main:
  assumes "getIssuerDetails (mainIssuer E ns) io = Inr (spec, n)"
    and "getSecretData E K (mainIssuer E ns) spec n w = (Inr d, w1)"
    and "signerFromIssuerAndSecretData E (Some spec) d = Inr k"
  shows "Issuer_Sign E K (mainIssuer E ns) (Inr cd) io w = (case Sign E (kmpInner k) (detailsRequest cd) w1 of
     None \<Rightarrow> None
   | Some (Inl err, w2) \<Rightarrow> Some (Inl (permanentIfUnrecoverable (errorfW ErrSignerSign ('': '' @ errorText E err)) err), w2)
   | Some (Inr b, w2) \<Rightarrow> Some (map_sum ErrText id (parseSingleChain K (ChainPEM b)), w2))"
  by (auto simp: Issuer_Sign_def assms mainIssuer_signer kmpSigner_Sign_def split: sum.splits prod.splits option.splits)

lemma Issuer_Sign_unready:
  assumes "Issuer_Check E K o' io w = (Some e, w')"
  shows "Issuer_Sign E K o' details io w = Some (Inl (IssuerError e), w')"
  using assms by (auto simp: Issuer_Check_def Issuer_Sign_def split: sum.splits prod.splits)

lemma Issuer_Check_ready:
  assumes "Issuer_Check E K (mainIssuer E ns) io w = (None, w')"
  obtains spec n d k where "getIssuerDetails (mainIssuer E ns) io = Inr (spec, n)"
    "getSecretData E K (mainIssuer E ns) spec n w = (Inr d, w')" "signerFromIssuerAndSecretData E (Some spec) d = Inr k"
proof -
  from assms obtain spec n d where d: "getIssuerDetails (mainIssuer E ns) io = Inr (spec, n)"
    "getSecretData E K (mainIssuer E ns) spec n w = (Inr d, w')"
    by (auto simp: Issuer_Check_def split: sum.splits prod.splits)
  from d(2) show ?thesis by (rule getSecretData_ok) (use d that in blast)
qed

section \<open>Properties\<close>

text \<open>
  C3. What issuer-lib gets for a request is a signature for that request: when \<^verbatim>\<open>Sign\<close> of the
  registered controller returns a bundle, the credentials were read and passed the health check
  before, and the bundle is cert-manager's split of a chain whose leaf carries the public key and
  every name of the request, and whose PEM reads back as that leaf and the certificates linked
  above it.
\<close>

theorem Issuer_Sign_safe:
  assumes "Issuer_Sign E K (mainIssuer E ns) details io w = Some (Inr bundle, w')"
    and "pem_ok (pemDecode E)" and "x509_ok (parseCertificate E)"
  shows "\<exists>cd csr (b :: Bundle) chain w1. details = Inr cd \<and> Issuer_Check E K (mainIssuer E ns) io w = (None, w1)
    \<and> parseSingleChain K (ChainPEM b) = Inr bundle
    \<and> ParseCSR E (detailsCSR cd) = Inr csr \<and> checkSignature E csr = None
    \<and> (publicKeyMatcher (reqPublicKey csr) \<longrightarrow> certPublicKey (Leaf b) = reqPublicKey csr)
    \<and> set (requestedNames csr) \<subseteq> {i. carries E (Leaf b) i}
    \<and> parsePEMCertificates E (ChainPEM b) = (Leaf b # chain, None) \<and> linked E (Leaf b # chain)"
proof -
  obtain x w1 where c: "Issuer_Check E K (mainIssuer E ns) io w = (x, w1)" by fastforce
  with assms(1) have x: "x = None"
    using Issuer_Sign_unready [of E K "mainIssuer E ns" io w _ w1 details] by (cases x) auto
  from c [unfolded x] obtain spec n d k where
    d: "getIssuerDetails (mainIssuer E ns) io = Inr (spec, n)"
    "getSecretData E K (mainIssuer E ns) spec n w = (Inr d, w1)" "signerFromIssuerAndSecretData E (Some spec) d = Inr k"
    by (rule Issuer_Check_ready)
  from assms(1) d(1,2) obtain cd where cd: "details = Inr cd" by (cases details) (auto simp: Issuer_Sign_def)
  obtain b where s: "Sign E (kmpInner k) (detailsRequest cd) w1 = Some (Inr b, w')"
    and p: "parseSingleChain K (ChainPEM b) = Inr bundle"
    using assms(1) unfolding cd Issuer_Sign_main [OF d]
    by (auto simp: map_sum_def split: option.splits sum.splits prod.splits)
  have "details = Inr cd \<and> Issuer_Check E K (mainIssuer E ns) io w = (None, w1) \<and> parseSingleChain K (ChainPEM b) = Inr bundle"
    using cd c x p by simp
  with Sign_bundle [OF s assms(2,3), simplified] show ?thesis by blast
qed

text \<open>
  C13. The verdict on an issuer: the check passes exactly when the issuer names credentials that
  can be read, a signer can be built from them and the server accepts the probe; issuer-lib is
  told to stop retrying exactly when the object is of an unknown type, no signer can be built from
  it, or the probe failed with a permanent error. A Secret that cannot be read is retried.
\<close>

theorem Issuer_Check_verdict:
  "case getIssuerDetails (mainIssuer E ns) io of
     Inl _ \<Rightarrow> (\<exists>e. Issuer_Check E K (mainIssuer E ns) io w = (Some e, w) \<and> stopsRetrying e)
   | Inr (spec, n) \<Rightarrow> (case getSecret K (n, AuthSecretName spec) w of
       (Inl _, w1) \<Rightarrow> (\<exists>e. Issuer_Check E K (mainIssuer E ns) io w = (Some e, w1) \<and> \<not> stopsRetrying e)
     | (Inr secret, w1) \<Rightarrow> (case signerFromIssuerAndSecretData E (Some spec) (Data secret) of
         Inl _ \<Rightarrow> (\<exists>e. Issuer_Check E K (mainIssuer E ns) io w = (Some e, w1) \<and> stopsRetrying e)
       | Inr k \<Rightarrow> (case Ping E (kmpClient k) w1 of
           (None, w2) \<Rightarrow> Issuer_Check E K (mainIssuer E ns) io w = (None, w2)
         | (Some err, w2) \<Rightarrow> (\<exists>e. Issuer_Check E K (mainIssuer E ns) io w = (Some e, w2)
             \<and> errIs e ErrHealthCheckerCheck \<and> (stopsRetrying e \<longleftrightarrow> IsPermanent err)))))"
proof (cases "getIssuerDetails (mainIssuer E ns) io")
  case (Inl e)
  then show ?thesis by (cases io) (auto simp: Issuer_Check_def)
next
  case (Inr p)
  obtain spec n where p: "p = (spec, n)" by fastforce
  have s: "IsPermanent e" if "signerFromIssuerAndSecretData E (Some spec) d = Inl e" for d e
    using signerFrom_config [OF that] by (auto simp: error_simps)
  have h: "errIs (permanentIfUnrecoverable (errorfW ErrHealthCheckerCheck t) e) ErrHealthCheckerCheck" for t e
    by (simp add: permanentIfUnrecoverable_def errorfW_def)
  show ?thesis unfolding Inr p
    by (auto simp: Issuer_Check_def getSecretData_main Inr p s h split: sum.split prod.split option.split)
qed

text \<open>
  C12. Every failed signing tells issuer-lib what to do. Either the issuer itself is not ready and
  the error is that of the check, reported as the issuer's; or the check passed and the details of
  the request could not be read, whose error is handed on as it is; or the signer failed, and then
  issuer-lib is told to stop retrying exactly when the signer's error wraps one of the two
  permanent sentinels or the error of the failed operation is permanent; or the chain could not be
  split, which is retried.
\<close>

theorem Issuer_Sign_verdict:
  assumes "Issuer_Sign E K (mainIssuer E ns) details io w = Some (Inl e, w')"
  shows "(\<exists>x. Issuer_Check E K (mainIssuer E ns) io w = (Some x, w') \<and> e = IssuerError x)
    \<or> Issuer_Check E K (mainIssuer E ns) io w = (None, w') \<and> details = Inl e
    \<or> (\<exists>cd (k :: kmpSigner) w1 err. details = Inr cd \<and> Issuer_Check E K (mainIssuer E ns) io w = (None, w1)
        \<and> Sign E (kmpInner k) (detailsRequest cd) w1 = Some (Inl err, w') \<and> errIs e ErrSignerSign
        \<and> (stopsRetrying e \<longleftrightarrow> errIs err ErrInvalidConfig \<or> errIs err ErrUnusableResponse
             \<or> (\<exists>x. errAs err = Some x \<and> Op x \<in> signOps (kmpInner k) \<and> Permanent x)))
    \<or> (\<exists>cd (k :: kmpSigner) w1 b t. details = Inr cd \<and> Issuer_Check E K (mainIssuer E ns) io w = (None, w1)
        \<and> Sign E (kmpInner k) (detailsRequest cd) w1 = Some (Inr b, w')
        \<and> parseSingleChain K (ChainPEM b) = Inl t \<and> e = ErrText t \<and> \<not> stopsRetrying e)"
proof -
  obtain x w1 where c: "Issuer_Check E K (mainIssuer E ns) io w = (x, w1)" by fastforce
  show ?thesis
  proof (cases x)
    case (Some x')
    with assms c Issuer_Sign_unready [of E K "mainIssuer E ns" io w x' w1 details] show ?thesis by auto
  next
    case None
    from c [unfolded None] obtain spec n d k where
      d: "getIssuerDetails (mainIssuer E ns) io = Inr (spec, n)"
      "getSecretData E K (mainIssuer E ns) spec n w = (Inr d, w1)" "signerFromIssuerAndSecretData E (Some spec) d = Inr k"
      by (rule Issuer_Check_ready)
    show ?thesis
    proof (cases details)
      case (Inl t)
      with assms have "t = e" "w1 = w'" by (simp_all add: Issuer_Sign_def d)
      with c None Inl show ?thesis by simp
    next
      case (Inr cd)
      from assms [unfolded Inr Issuer_Sign_main [OF d]] consider
          (sign) err where "Sign E (kmpInner k) (detailsRequest cd) w1 = Some (Inl err, w')"
            "e = permanentIfUnrecoverable (errorfW ErrSignerSign ('': '' @ errorText E err)) err"
        | (split) b t where "Sign E (kmpInner k) (detailsRequest cd) w1 = Some (Inr b, w')"
            "parseSingleChain K (ChainPEM b) = Inl t" "e = ErrText t"
        by (auto simp: map_sum_def split: option.splits sum.splits prod.splits)
      then show ?thesis
      proof cases
        case sign
        have "errIs e ErrSignerSign" by (simp add: sign(2) permanentIfUnrecoverable_def errorfW_def)
        moreover have "stopsRetrying e \<longleftrightarrow> errIs err ErrInvalidConfig \<or> errIs err ErrUnusableResponse
            \<or> (\<exists>x. errAs err = Some x \<and> Op x \<in> signOps (kmpInner k) \<and> Permanent x)"
          unfolding sign(2) by (rule signing.reported_permanent [OF sign(1)])
        ultimately show ?thesis using c [unfolded None] sign(1) Inr by blast
      next
        case split
        then show ?thesis using c None Inr by auto
      qed
    qed
  qed
qed

text \<open>
  Signing for issuer-lib returns whenever the clock runs.
\<close>

theorem Issuer_Sign_returns:
  assumes "clock_ok E tm"
  shows "\<exists>r. Issuer_Sign E K (mainIssuer E ns) details io w = Some r"
proof -
  obtain x w1 where c: "Issuer_Check E K (mainIssuer E ns) io w = (x, w1)" by fastforce
  show ?thesis
  proof (cases x)
    case (Some x')
    then show ?thesis using c Issuer_Sign_unready by fastforce
  next
    case None
    from c [unfolded None] obtain spec n d k where
      d: "getIssuerDetails (mainIssuer E ns) io = Inr (spec, n)"
      "getSecretData E K (mainIssuer E ns) spec n w = (Inr d, w1)" "signerFromIssuerAndSecretData E (Some spec) d = Inr k"
      by (rule Issuer_Check_ready)
    show ?thesis
    proof (cases details)
      case (Inl e)
      then show ?thesis using d by (simp add: Issuer_Sign_def)
    next
      case (Inr cd)
      obtain r where "Sign E (kmpInner k) (detailsRequest cd) w1 = Some r" using Sign_total [OF assms] by blast
      then show ?thesis unfolding Inr Issuer_Sign_main [OF d] by (cases r; cases "fst r") auto
    qed
  qed
qed

section \<open>A cluster\<close>

text \<open>
  The scripted server of the client's demonstration beside a store of Secrets, an issuer and its
  credentials.
\<close>

type_synonym demo_kworld = "(nsname \<times> Secret) list demo_world"

abbreviation demo_kenv :: "demo_kworld env" where
  "demo_kenv \<equiv> demo_env"

definition demo_spec :: IssuerSpec where
  "demo_spec = \<lparr>specURL = ''https://kmp:6565'', AuthSecretName = ''auth'',
     Signing = \<lparr>specSignType = ''signWithRoot'', specServerName = [], specCAName = [], specTemplateName = [],
       specAgentName = [], specAgentResponseTimeoutSeconds = None, specRootCertificateCommonName = ''CA'',
       specRootCertificateSerialNumber = [], specSigningValidityDays = None, specIsIntermediate = None,
       specEmail = [], specCSRLookupOperation = []\<rparr>,
     specInsecureSkipTLSVerify = False, RequestTimeout = None\<rparr>"

definition demo_namespaced :: KMPIssuer where
  "demo_namespaced = \<lparr>issuerNamespace = ''ns'', issuerName = ''issuer'', issuerSpec = demo_spec\<rparr>"

abbreviation demo_object :: issuer_object where
  "demo_object \<equiv> NamespacedIssuer demo_namespaced"

definition demo_auth :: Secret where
  "demo_auth = \<lparr>secretType = ''Opaque'', Data = [(AuthSecretTokenKey, ''token'')], secretOwner = None\<rparr>"

definition demo_store :: "(nsname \<times> Secret) list" where
  "demo_store = [((''ns'', ''auth''), demo_auth)]"

definition demo_getSecret :: "nsname \<Rightarrow> demo_kworld \<Rightarrow> (api_err + Secret) \<times> demo_kworld" where
  "demo_getSecret n w = (case map_of (snd (snd w)) n of
     Some s \<Rightarrow> (Inr s, w) | None \<Rightarrow> (Inl \<lparr>apiErrText = ''not found'', apiNotFound = True\<rparr>, w))"

definition demo_cluster :: "demo_kworld cluster" where
  "demo_cluster = \<lparr>getSecret = demo_getSecret, parseSingleChain = (\<lambda>p. Inr \<lparr>bundleChainPEM = p, bundleCAPEM = []\<rparr>)\<rparr>"

definition demo_probe :: http_outcome where
  "demo_probe = Answered 200 (marshal (AMap [(''status'', AStr ''Failed'')]))"

abbreviation demo_start :: demo_kworld where
  "demo_start \<equiv> (0, demo_probe # demo_run, demo_store)"

lemma demo_signerFrom:
  "signerFromIssuerAndSecretData demo_env (Some demo_spec) (Data demo_auth)
     = Inr \<lparr>kmpClient = demo_client, kmpInner = demo_signer\<rparr>"
  by code_simp

lemma demo_kPing: "Ping demo_env demo_client demo_start = (None, (0, demo_run, demo_store))"
  by code_simp

definition demo_details :: CertificateDetails where
  "demo_details = \<lparr>detailsCSR = CSRPEM demo_req0, detailsDuration = 0, detailsIsCA = False\<rparr>"

lemma demo_getSecretData:
  "getSecretData demo_kenv demo_cluster (mainIssuer demo_kenv ns) demo_spec ''ns'' demo_start
     = (Inr (Data demo_auth), (0, demo_run, demo_store))"
proof -
  have "getSecret demo_cluster (''ns'', ''auth'') demo_start = (Inr demo_auth, demo_start)"
    by (simp add: demo_cluster_def demo_getSecret_def demo_store_def)
  moreover have "AuthSecretName demo_spec = ''auth''" by (simp add: demo_spec_def)
  ultimately show ?thesis by (simp add: getSecretData_main demo_signerFrom demo_kPing)
qed

lemma demo_object_details: "getIssuerDetails (mainIssuer demo_kenv ''ns'') demo_object = Inr (demo_spec, ''ns'')"
  by (simp add: demo_namespaced_def)

lemma demo_Issuer_Sign:
  "Issuer_Sign demo_kenv demo_cluster (mainIssuer demo_kenv ''ns'') (Inr demo_details) demo_object demo_start
     = Some (Inr \<lparr>bundleChainPEM = ChainPEM demo_bundle, bundleCAPEM = []\<rparr>, (2 * second, [], demo_store))"
proof -
  have "detailsRequest demo_details = demo_req0" by (simp add: demo_details_def demo_req0_def)
  moreover have "parseSingleChain demo_cluster p = Inr \<lparr>bundleChainPEM = p, bundleCAPEM = []\<rparr>" for p
    by (simp add: demo_cluster_def)
  ultimately show ?thesis
    by (simp add: demo_Sign Issuer_Sign_main [OF demo_object_details demo_getSecretData demo_signerFrom])
qed

theorem Issuer_Sign_safe_witness:
  "\<exists>csr (b :: Bundle). ParseCSR demo_kenv (detailsCSR demo_details) = Inr csr \<and> ChainPEM b = ChainPEM demo_bundle
     \<and> set (requestedNames csr) \<subseteq> {i. carries demo_kenv (Leaf b) i}"
  using Issuer_Sign_safe [OF demo_Issuer_Sign demo_env_laws] by (auto simp: demo_cluster_def)

theorem Issuer_Sign_returns_witness:
  "\<exists>r. Issuer_Sign demo_kenv demo_cluster (mainIssuer demo_kenv ''ns'') (Inr demo_details) demo_object (0, [], []) = Some r"
  by (rule Issuer_Sign_returns [OF demo_clock])

lemma demo_Issuer_Sign_fails:
  "\<exists>e. Issuer_Sign demo_kenv demo_cluster (mainIssuer demo_kenv ''ns'') (Inr demo_details) demo_object (0, [], [])
     = Some (Inl e, (0, [], []))"
  by (simp add: Issuer_Sign_def demo_object_details getSecretData_main demo_cluster_def demo_getSecret_def)

theorem Issuer_Sign_verdict_witness:
  "\<exists>e x. Issuer_Sign demo_kenv demo_cluster (mainIssuer demo_kenv ''ns'') (Inr demo_details) demo_object (0, [], [])
       = Some (Inl e, (0, [], []))
     \<and> Issuer_Check demo_kenv demo_cluster (mainIssuer demo_kenv ''ns'') demo_object (0, [], []) = (Some x, (0, [], []))
     \<and> e = IssuerError x"
proof -
  obtain e where e: "Issuer_Sign demo_kenv demo_cluster (mainIssuer demo_kenv ''ns'') (Inr demo_details) demo_object (0, [], [])
       = Some (Inl e, (0, [], []))" using demo_Issuer_Sign_fails by blast
  have "fst (Issuer_Check demo_kenv demo_cluster (mainIssuer demo_kenv ''ns'') demo_object (0, [], [])) \<noteq> None"
    by (simp add: Issuer_Check_def demo_object_details getSecretData_main demo_cluster_def demo_getSecret_def)
  with e Issuer_Sign_verdict [OF e] show ?thesis by fastforce
qed

end
