(* ===== verification/Certificate.thy ===== *)
theory Certificate
  imports Controllers
begin

text \<open>
  \<^verbatim>\<open>api/v1alpha1/kmpcertificate_types.go\<close> and the functions of
  \<^verbatim>\<open>internal/controllers/kmpcertificate_controller.go\<close> that keep no state: the request for Key
  Manager Plus, the comparison of a certificate with the spec, the renewal time, the conditions of
  the status and the contents of the Secret. The reconciler that composes them is in the theory
  \<open>Reconciler\<close>.

  A \<^verbatim>\<open>time.Time\<close> is the number of nanoseconds since the epoch; a \<^verbatim>\<open>time.Duration\<close> one of 64 bits.
\<close>

section \<open>The API types\<close>

definition KMPCertificateConditionReady :: string where
  "KMPCertificateConditionReady = ''Ready''"

definition KeyStorePasswordSecretKey :: string where
  "KeyStorePasswordSecretKey = ''keystore-password''"

record IssuerReference =
  refName :: string
  refKind :: string

record CertificateSubject =
  subjOrganization :: string
  subjOrganizationalUnit :: string
  subjLocality :: string
  subjProvince :: string
  subjCountry :: string

record PrivateKeySpec =
  pkAlgorithm :: string
  pkSize :: "int option"
  pkSignatureAlgorithm :: string
  pkStoreType :: string

record SecretKeySelector =
  selName :: string
  selKey :: string

record KMPCertificateSpec =
  kcSecretName :: string
  kcIssuerRef :: IssuerReference
  kcCommonName :: string
  kcDNSNames :: "string list"
  kcIPAddresses :: "string list"
  kcSubject :: CertificateSubject
  kcPrivateKey :: PrivateKeySpec
  kcValidityDays :: "int option"
  kcValidityType :: string
  kcRenewBefore :: "int option"
  kcKeyStorePasswordSecretRef :: "SecretKeySelector option"

text \<open>\<^verbatim>\<open>metav1.Condition\<close>.\<close>

record Condition =
  condType :: string
  condStatus :: string
  condReason :: string
  condMessage :: string
  condObservedGeneration :: int
  condLastTransitionTime :: int

record KMPCertificateStatus =
  Conditions :: "Condition list"
  stSerialNumber :: string
  stCSRID :: string
  stNotBefore :: "int option"
  stNotAfter :: "int option"
  stRenewalTime :: "int option"

text \<open>The resource with the parts of its metadata that are read.\<close>

record KMPCertificate =
  kcNamespace :: string
  kcName :: string
  Generation :: int
  DeletionTimestamp :: "int option"
  kcSpec :: KMPCertificateSpec
  Status :: KMPCertificateStatus

section \<open>Times\<close>

text \<open>\<^verbatim>\<open>Time.Sub\<close> saturates, and the division of durations truncates.\<close>

definition timeSub :: "int \<Rightarrow> int \<Rightarrow> int" where
  "timeSub t u = max (- (2 ^ 63)) (min (2 ^ 63 - 1) (t - u))"

definition goQuot :: "int \<Rightarrow> int \<Rightarrow> int" where
  "goQuot a b = sgn a * sgn b * (\<bar>a\<bar> div \<bar>b\<bar>)"

definition renewalFraction :: int where
  "renewalFraction = 3"

definition issuanceFailureRequeue :: int where
  "issuanceFailureRequeue = 60 * second"

definition renewalTime :: "certificate \<Rightarrow> int option \<Rightarrow> int" where
  "renewalTime leaf renewBefore =
     (let before = goQuot (timeSub (certNotAfter leaf) (certNotBefore leaf)) renewalFraction;
          before = (case renewBefore of Some d \<Rightarrow> if 0 < d then d else before | None \<Rightarrow> before)
      in certNotAfter leaf + (- before))"

section \<open>The request\<close>

definition provisionRequest :: "KMPCertificate \<Rightarrow> string \<Rightarrow> ProvisionRequest" where
  "provisionRequest certificate password =
     (let spec = kcSpec certificate;
          altNames = kcDNSNames spec @ kcIPAddresses spec;
          req = \<lparr>pCommonName = kcCommonName spec, pAltNames = altNames,
             pOrganization = subjOrganization (kcSubject spec),
             pOrganizationalUnit = subjOrganizationalUnit (kcSubject spec),
             pLocation = subjLocality (kcSubject spec), pState = subjProvince (kcSubject spec),
             pCountry = subjCountry (kcSubject spec), pKeyAlgorithm = pkAlgorithm (kcPrivateKey spec), pKeyLength = 0,
             pSignatureAlgorithm = pkSignatureAlgorithm (kcPrivateKey spec), pStoreType = pkStoreType (kcPrivateKey spec),
             pValidityType = kcValidityType spec, pValidityDays = kcValidityDays spec, pPassword = password,
             pExportFileType = []\<rparr>
      in case pkSize (kcPrivateKey spec) of Some n \<Rightarrow> req\<lparr>pKeyLength := n\<rparr> | None \<Rightarrow> req)"

section \<open>Comparison with the spec\<close>

text \<open>The package's own \<^verbatim>\<open>containsFold\<close>, a loop that returns at the first hit.\<close>

fun valuesContainFold :: "'r unicode_tables_scheme \<Rightarrow> string list \<Rightarrow> string \<Rightarrow> bool" where
  "valuesContainFold U [] want = False"
| "valuesContainFold U (value # vals) want = (if equalFold U value want then True else valuesContainFold U vals want)"

definition addressMismatch :: "'r unicode_tables_scheme \<Rightarrow> certificate \<Rightarrow> string \<Rightarrow> string option" where
  "addressMismatch U leaf address = (case parseIP address of
     None \<Rightarrow> Some (quote U address @ '' is not an IP address'')
   | Some i \<Rightarrow>
     if \<not> list_ex (\<lambda>issued. ipEqual issued i) (certIPAddresses leaf)
     then Some (''the certificate does not cover IP address '' @ quote U address) else None)"

definition matchesSpec :: "'r unicode_tables_scheme \<Rightarrow> certificate \<Rightarrow> KMPCertificateSpec \<Rightarrow> string" where
  "matchesSpec U leaf spec =
     (if \<not> equalFold U (certCommonName leaf) (kcCommonName spec) then
        ''the certificate is for '' @ quote U (certCommonName leaf) @ '', not '' @ quote U (kcCommonName spec)
      else case first_some (\<lambda>name. if \<not> valuesContainFold U (certDNSNames leaf) name
             then Some (''the certificate does not cover DNS name '' @ quote U name) else None) (kcDNSNames spec) of
        Some mismatch \<Rightarrow> mismatch
      | None \<Rightarrow> (case first_some (addressMismatch U leaf) (kcIPAddresses spec) of
          Some mismatch \<Rightarrow> mismatch
        | None \<Rightarrow>
          let want = subjOrganization (kcSubject spec) in
          if want \<noteq> [] \<and> \<not> valuesContainFold U (certOrganization leaf) want
          then ''the certificate is not for organization '' @ quote U want
          else let want = subjOrganizationalUnit (kcSubject spec) in
            if want \<noteq> [] \<and> \<not> valuesContainFold U (certOrganizationalUnit leaf) want
            then ''the certificate is not for organizational unit '' @ quote U want
            else []))"

section \<open>Conditions\<close>

text \<open>
  \<^verbatim>\<open>setCondition\<close> at the time \<open>now\<close>: the new list and whether anything changed. The first condition
  of the type is the one that is looked at.
\<close>

fun setCondition :: "int \<Rightarrow> Condition list \<Rightarrow> int \<Rightarrow> string \<Rightarrow> string \<Rightarrow> string \<Rightarrow> string \<Rightarrow> Condition list \<times> bool" where
  "setCondition now [] generation conditionType st reason msg =
     ([\<lparr>condType = conditionType, condStatus = st, condReason = reason, condMessage = msg,
        condObservedGeneration = generation, condLastTransitionTime = now\<rparr>], True)"
| "setCondition now (existing # rest) generation conditionType st reason msg =
     (if condType existing \<noteq> conditionType
      then (let (rest', changed) = setCondition now rest generation conditionType st reason msg
            in (existing # rest', changed))
      else if condStatus existing = st \<and> condReason existing = reason
              \<and> condMessage existing = msg \<and> condObservedGeneration existing = generation
      then (existing # rest, False)
      else (let existing = (if condStatus existing \<noteq> st then existing\<lparr>condLastTransitionTime := now\<rparr> else existing)
            in (existing\<lparr>condStatus := st, condReason := reason, condMessage := msg,
                  condObservedGeneration := generation\<rparr> # rest, True)))"

section \<open>The Secret\<close>

definition TLSCertKey :: string where "TLSCertKey = ''tls.crt''"
definition TLSPrivateKeyKey :: string where "TLSPrivateKeyKey = ''tls.key''"
definition cmMetaTLSCAKey :: string where "cmMetaTLSCAKey = ''ca.crt''"

text \<open>Assignment to an entry of a Go map.\<close>

definition dataPut :: "string \<Rightarrow> bytes \<Rightarrow> secret_data \<Rightarrow> secret_data" where
  "dataPut k v m = (k, v) # filter (\<lambda>p. fst p \<noteq> k) m"

text \<open>The function \<^verbatim>\<open>writeSecret\<close> hands to \<^verbatim>\<open>CreateOrUpdate\<close>; \<open>own\<close> is \<^verbatim>\<open>SetControllerReference\<close>.\<close>

definition mutateSecret :: "(KMPCertificate \<Rightarrow> Secret \<Rightarrow> string + Secret) \<Rightarrow> KMPCertificate \<Rightarrow> bytes \<Rightarrow> bytes \<Rightarrow> bytes
    \<Rightarrow> string \<Rightarrow> bool \<Rightarrow> Secret \<Rightarrow> string + Secret" where
  "mutateSecret own certificate chainPEM caPEM keyPEM password generated secret =
     (let d = dataPut TLSPrivateKeyKey keyPEM (dataPut TLSCertKey chainPEM (Data secret));
          d = (if 0 < length caPEM then dataPut cmMetaTLSCAKey caPEM d else d);
          d = (if generated then dataPut KeyStorePasswordSecretKey password d else d)
      in own certificate (secret\<lparr>secretType := ''kubernetes.io/tls'', Data := d\<rparr>))"

section \<open>Lemmas\<close>

lemma dataAt_put [simp]: "dataAt (dataPut k v m) l = (if l = k then v else dataAt m l)"
proof -
  have "map_of (filter (\<lambda>p. fst p \<noteq> k) m) l = map_of m l" if "l \<noteq> k"
    using that by (induction m) auto
  then show ?thesis by (simp add: dataAt_def dataPut_def)
qed

lemma secret_keys_distinct [simp]:
  "TLSCertKey \<noteq> TLSPrivateKeyKey" "TLSPrivateKeyKey \<noteq> TLSCertKey"
  "cmMetaTLSCAKey \<noteq> TLSCertKey" "cmMetaTLSCAKey \<noteq> TLSPrivateKeyKey"
  "TLSCertKey \<noteq> cmMetaTLSCAKey" "TLSPrivateKeyKey \<noteq> cmMetaTLSCAKey"
  "KeyStorePasswordSecretKey \<noteq> TLSCertKey" "KeyStorePasswordSecretKey \<noteq> TLSPrivateKeyKey"
  "TLSCertKey \<noteq> KeyStorePasswordSecretKey" "TLSPrivateKeyKey \<noteq> KeyStorePasswordSecretKey"
  "KeyStorePasswordSecretKey \<noteq> cmMetaTLSCAKey" "cmMetaTLSCAKey \<noteq> KeyStorePasswordSecretKey"
  by (simp_all add: TLSCertKey_def TLSPrivateKeyKey_def cmMetaTLSCAKey_def KeyStorePasswordSecretKey_def)

lemma valuesContainFold_eq [simp]: "valuesContainFold U vals want = containsFold U vals want"
  by (induction vals) (auto simp: containsFold_def)

lemma provisionRequest_fields [simp]:
  "pCommonName (provisionRequest c pw) = kcCommonName (kcSpec c)"
  "pAltNames (provisionRequest c pw) = kcDNSNames (kcSpec c) @ kcIPAddresses (kcSpec c)"
  "pPassword (provisionRequest c pw) = pw"
  by (simp_all add: provisionRequest_def Let_def split: option.split)

section \<open>Properties\<close>

text \<open>The conditions by type; the first of a type counts.\<close>

definition conditionMap :: "Condition list \<Rightarrow> string \<rightharpoonup> Condition" where
  "conditionMap cs = map_of (map (\<lambda>c. (condType c, c)) cs)"

lemma setCondition_map:
  "conditionMap (fst (setCondition now cs g t s r m)) = (conditionMap cs)(t \<mapsto>
     \<lparr>condType = t, condStatus = s, condReason = r, condMessage = m, condObservedGeneration = g,
      condLastTransitionTime = (case conditionMap cs t of
        Some c \<Rightarrow> if condStatus c = s then condLastTransitionTime c else now | None \<Rightarrow> now)\<rparr>)"
  by (induction cs) (auto simp: conditionMap_def Let_def fun_eq_iff split: prod.splits)

lemma setCondition_types:
  "map condType (fst (setCondition now cs g t s r m)) =
     map condType cs @ (if t \<in> condType ` set cs then [] else [t])"
  by (induction cs) (auto simp: Let_def split: prod.splits)

lemma setCondition_changed: "snd (setCondition now cs g t s r m) \<longleftrightarrow> fst (setCondition now cs g t s r m) \<noteq> cs"
proof (induction cs)
  case (Cons c cs)
  have "c\<lparr>condStatus := s, condReason := r, condMessage := m, condObservedGeneration := g\<rparr> = c \<longleftrightarrow>
      condStatus c = s \<and> condReason c = r \<and> condMessage c = m \<and> condObservedGeneration c = g"
    by (cases c) auto
  moreover have "condStatus c \<noteq> s \<Longrightarrow> c\<lparr>condLastTransitionTime := now, condStatus := s, condReason := r, condMessage := m,
      condObservedGeneration := g\<rparr> \<noteq> c"
    by (cases c) auto
  ultimately show ?case using Cons.IH by (auto simp: Let_def split: prod.splits)
qed simp

text \<open>
  C17. \<^verbatim>\<open>setCondition\<close> implements an assignment to a map from condition types: the condition of the
  type gets the status, reason, message and generation, and a new transition time exactly when
  its status changes or it is new; every other condition is kept. The list keeps its order and
  never holds a type twice when it did not before, and \<^verbatim>\<open>true\<close> is returned exactly when the list
  changed.
\<close>

theorem setCondition_refines:
  "let cs' = fst (setCondition now cs g t s r m) in
     conditionMap cs' = (conditionMap cs)(t \<mapsto>
       \<lparr>condType = t, condStatus = s, condReason = r, condMessage = m, condObservedGeneration = g,
        condLastTransitionTime = (case conditionMap cs t of
          Some c \<Rightarrow> if condStatus c = s then condLastTransitionTime c else now | None \<Rightarrow> now)\<rparr>)
     \<and> map condType cs' = map condType cs @ (if t \<in> condType ` set cs then [] else [t])
     \<and> (snd (setCondition now cs g t s r m) \<longleftrightarrow> cs' \<noteq> cs)"
  using setCondition_map setCondition_types setCondition_changed by (simp add: Let_def)

lemma quote_not_Nil [simp]: "xs @ quote U y \<noteq> []" "quote U y @ x # xs \<noteq> []"
  by (simp_all add: quote_def)

lemma addressMismatch_None:
  "addressMismatch U leaf a = None \<longleftrightarrow> (\<exists>i. parseIP a = Some i \<and> carries U leaf (IPAddressId i))"
  by (auto simp: addressMismatch_def list_ex_iff split: option.splits)

definition coversSubject :: "'r unicode_tables_scheme \<Rightarrow> certificate \<Rightarrow> CertificateSubject \<Rightarrow> bool" where
  "coversSubject U leaf subj \<longleftrightarrow>
     (subjOrganization subj = [] \<or> containsFold U (certOrganization leaf) (subjOrganization subj))
     \<and> (subjOrganizationalUnit subj = [] \<or> containsFold U (certOrganizationalUnit leaf) (subjOrganizationalUnit subj))"

lemma first_some_if_None: "first_some (\<lambda>x. if P x then Some (g x) else None) xs = None \<longleftrightarrow> (\<forall>x\<in>set xs. \<not> P x)"
  by (auto simp: first_some_None)

lemma matchesSpec_Nil:
  "matchesSpec U leaf spec = [] \<longleftrightarrow>
     equalFold U (certCommonName leaf) (kcCommonName spec)
     \<and> (\<forall>n \<in> set (kcDNSNames spec). carries U leaf (DNSNameId n))
     \<and> (\<forall>a \<in> set (kcIPAddresses spec). \<exists>i. parseIP a = Some i \<and> carries U leaf (IPAddressId i))
     \<and> coversSubject U leaf (kcSubject spec)"
proof -
  let ?dns = "\<lambda>name. if \<not> valuesContainFold U (certDNSNames leaf) name
      then Some (''the certificate does not cover DNS name '' @ quote U name) else None"
  have d: "first_some ?dns (kcDNSNames spec) \<noteq> Some []"
    by (auto dest: first_some_SomeD split: if_splits)
  have dn: "first_some ?dns (kcDNSNames spec) = None \<longleftrightarrow> (\<forall>n \<in> set (kcDNSNames spec). carries U leaf (DNSNameId n))"
    unfolding first_some_if_None by (auto simp: containsFold_iff)
  have a: "first_some (addressMismatch U leaf) (kcIPAddresses spec) \<noteq> Some []"
    by (auto dest!: first_some_SomeD simp: addressMismatch_def split: if_splits option.splits)
  have an: "first_some (addressMismatch U leaf) (kcIPAddresses spec) = None \<longleftrightarrow>
      (\<forall>x \<in> set (kcIPAddresses spec). \<exists>i. parseIP x = Some i \<and> carries U leaf (IPAddressId i))"
    by (simp only: first_some_None addressMismatch_None)
  show ?thesis
  proof (cases "first_some ?dns (kcDNSNames spec)")
    case None
    note dns = None
    show ?thesis
    proof (cases "first_some (addressMismatch U leaf) (kcIPAddresses spec)")
      case None
      show ?thesis unfolding dn [symmetric] an [symmetric] unfolding matchesSpec_def dns None
        by (simp add: coversSubject_def Let_def)
    next
      case (Some m)
      show ?thesis unfolding dn [symmetric] an [symmetric] using a unfolding matchesSpec_def dns Some by simp
    qed
  next
    case (Some m)
    show ?thesis unfolding dn [symmetric] an [symmetric] using d unfolding matchesSpec_def Some by simp
  qed
qed

text \<open>
  \<^verbatim>\<open>matchesSpec\<close> finds no mismatch exactly when the certificate has the common name of the spec,
  every DNS name, every address (each of which parses), and the organization and organizational
  unit the spec names.
\<close>

theorem matchesSpec_spec:
  "matchesSpec U leaf spec = [] \<longleftrightarrow>
     equalFold U (certCommonName leaf) (kcCommonName spec)
     \<and> set (kcDNSNames spec) \<subseteq> {n. carries U leaf (DNSNameId n)}
     \<and> set (kcIPAddresses spec) \<subseteq> {a. \<exists>i. parseIP a = Some i \<and> carries U leaf (IPAddressId i)}
     \<and> coversSubject U leaf (kcSubject spec)"
  unfolding matchesSpec_Nil by blast

lemma goQuot_nonneg: "0 \<le> a \<Longrightarrow> goQuot a 3 = a div 3"
  by (cases "a = 0") (simp_all add: goQuot_def sgn_if)

lemma renewalTime_default:
  assumes "certNotBefore leaf \<le> certNotAfter leaf"
  shows "renewalTime leaf None = certNotAfter leaf - min (2 ^ 63 - 1) (certNotAfter leaf - certNotBefore leaf) div 3"
  using assms by (simp add: renewalTime_def Let_def renewalFraction_def timeSub_def goQuot_nonneg)

text \<open>
  When the spec does not say when to renew, renewal falls within the validity of the
  certificate, when two thirds of it have passed and, for a lifetime below 292 years, not more
  than one third of it (rounded down to a nanosecond) is left. Otherwise it is exactly the
  duration of the spec before the expiry.
\<close>

theorem renewalTime_bounds:
  assumes "certNotBefore leaf \<le> certNotAfter leaf"
  shows "certNotBefore leaf \<le> renewalTime leaf None \<and> renewalTime leaf None \<le> certNotAfter leaf
    \<and> 2 * (certNotAfter leaf - certNotBefore leaf) \<le> 3 * (renewalTime leaf None - certNotBefore leaf)
    \<and> (certNotAfter leaf - certNotBefore leaf < 2 ^ 63 \<longrightarrow>
         renewalTime leaf None = certNotAfter leaf - (certNotAfter leaf - certNotBefore leaf) div 3)
    \<and> (\<forall>d. 0 < d \<longrightarrow> renewalTime leaf (Some d) = certNotAfter leaf - d)"
proof -
  let ?L = "certNotAfter leaf - certNotBefore leaf"
  have m: "0 \<le> min (2 ^ 63 - 1) ?L" "min (2 ^ 63 - 1) ?L \<le> ?L" using assms by auto
  then have "0 \<le> min (2 ^ 63 - 1) ?L div 3" "3 * (min (2 ^ 63 - 1) ?L div 3) \<le> ?L" by linarith+
  moreover have "?L < 2 ^ 63 \<Longrightarrow> min (2 ^ 63 - 1) ?L = ?L" by simp
  moreover have "0 < d \<Longrightarrow> renewalTime leaf (Some d) = certNotAfter leaf - d" for d
    by (simp add: renewalTime_def Let_def)
  ultimately show ?thesis using renewalTime_default [OF assms] by (smt (verit))
qed

theorem renewalTime_bounds_witness:
  "certNotBefore demo_leaf \<le> renewalTime demo_leaf None \<and> renewalTime demo_leaf None \<le> certNotAfter demo_leaf"
proof -
  have "certNotBefore demo_leaf \<le> certNotAfter demo_leaf" by (simp add: demo_leaf_def)
  from renewalTime_bounds [OF this] show ?thesis by blast
qed

end
