(* ===== verification/Reconciler.thy ===== *)
theory Reconciler
  imports Certificate
begin

text \<open>
  \<^verbatim>\<open>KMPCertificateReconciler\<close> of \<^verbatim>\<open>internal/controllers/kmpcertificate_controller.go\<close>: the operations
  that read and write the cluster, and \<^verbatim>\<open>Reconcile\<close>. The Kubernetes client, the event recorder, the
  random source and the chain decoder of cert-manager are the fields of the record \<open>manager\<close>.
\<close>

section \<open>The manager\<close>

record 'w manager = "'w cluster" +
  getKMPCertificate :: "nsname \<Rightarrow> 'w \<Rightarrow> (api_err + KMPCertificate) \<times> 'w"
  getKMPIssuer :: "nsname \<Rightarrow> 'w \<Rightarrow> (api_err + KMPIssuer) \<times> 'w"
  getKMPClusterIssuer :: "nsname \<Rightarrow> 'w \<Rightarrow> (api_err + KMPClusterIssuer) \<times> 'w"
  createOrUpdateSecret :: "nsname \<Rightarrow> (Secret \<Rightarrow> string + Secret) \<Rightarrow> 'w \<Rightarrow> string option \<times> 'w"
  setControllerReference :: "KMPCertificate \<Rightarrow> Secret \<Rightarrow> string + Secret"
  statusUpdate :: "KMPCertificate \<Rightarrow> 'w \<Rightarrow> string option \<times> 'w"
  recordEvent :: "KMPCertificate \<Rightarrow> string \<Rightarrow> string \<Rightarrow> string \<Rightarrow> 'w \<Rightarrow> 'w"
  randomBytes :: "nat \<Rightarrow> 'w \<Rightarrow> (string + bytes) \<times> 'w"
  decodeChain :: "bytes \<Rightarrow> string + certificate list"
  formatRFC3339 :: "int \<Rightarrow> string"

type_synonym 'w provisioner = "ProvisionRequest \<Rightarrow> 'w \<Rightarrow> ((goerr + ProvisionedCertificate) \<times> 'w) option"

record 'w KMPCertificateReconciler =
  rClusterResourceNamespace :: string
  ProvisionerBuilder :: "IssuerSpec option \<Rightarrow> secret_data \<Rightarrow> goerr + 'w provisioner"
  Clock :: "('w \<Rightarrow> int \<times> 'w) option"

definition reconcilerNow :: "('w, 'r) env_scheme \<Rightarrow> 'w KMPCertificateReconciler \<Rightarrow> 'w \<Rightarrow> int \<times> 'w" where
  "reconcilerNow E r w = (case Clock r of Some c \<Rightarrow> c w | None \<Rightarrow> clock E w)"

definition until :: "('w, 'r) env_scheme \<Rightarrow> 'w KMPCertificateReconciler \<Rightarrow> int option \<Rightarrow> 'w \<Rightarrow> int \<times> 'w" where
  "until E r at w = (case at of
     None \<Rightarrow> (issuanceFailureRequeue, w)
   | Some t \<Rightarrow> (case reconcilerNow E r w of (now, w) \<Rightarrow>
       let wait = timeSub t now in if wait < second then (second, w) else (wait, w)))"

text \<open>\<^verbatim>\<open>setCondition\<close> on the status of a resource, at the time of the clock.\<close>

definition setReady :: "('w, 'r) env_scheme \<Rightarrow> string \<Rightarrow> string \<Rightarrow> string \<Rightarrow> KMPCertificate \<Rightarrow> 'w \<Rightarrow> KMPCertificate \<times> 'w" where
  "setReady E st reason msg certificate w = (case clock E w of (now, w) \<Rightarrow>
     (certificate\<lparr>Status := (Status certificate)\<lparr>Conditions :=
        fst (setCondition now (Conditions (Status certificate)) (Generation certificate) KMPCertificateConditionReady st reason msg)\<rparr>\<rparr>, w))"

section \<open>Whether a certificate is needed\<close>

definition leafOf :: "('w, 'k) manager_scheme \<Rightarrow> bytes \<Rightarrow> string + certificate" where
  "leafOf K chainPEM = (case decodeChain K chainPEM of
     Inl err \<Rightarrow> Inl err
   | Inr certs \<Rightarrow> (case certs of [] \<Rightarrow> Inl ''no certificate in the chain'' | c # _ \<Rightarrow> Inr c))"

definition secretNsName :: "KMPCertificate \<Rightarrow> nsname" where
  "secretNsName certificate = (kcNamespace certificate, kcSecretName (kcSpec certificate))"

definition issuanceNeeded :: "('w, 'r) env_scheme \<Rightarrow> ('w, 'k) manager_scheme \<Rightarrow> 'w KMPCertificateReconciler \<Rightarrow> KMPCertificate \<Rightarrow> 'w
    \<Rightarrow> (string \<times> int option \<times> bool) \<times> 'w" where
  "issuanceNeeded E K r certificate w =
     (let name = secretNsName certificate in
      case getSecret K name w of
        (Inl err, w) \<Rightarrow>
          if apiNotFound err then ((''secret '' @ nsnameString name @ '' does not exist'', None, True), w)
          else ((''secret '' @ nsnameString name @ '' could not be read: '' @ apiErrText err, None, True), w)
      | (Inr secret, w) \<Rightarrow>
        let certPEM = dataAt (Data secret) TLSCertKey; keyPEM = dataAt (Data secret) TLSPrivateKeyKey in
        if length certPEM = 0 \<or> length keyPEM = 0 then
          ((''secret '' @ nsnameString name @ '' holds no certificate and key'', None, True), w)
        else case leafOf K certPEM of
          Inl err \<Rightarrow>
            ((''the certificate in secret '' @ nsnameString name @ '' could not be read: '' @ err, None, True), w)
        | Inr leaf \<Rightarrow>
          let mismatch = matchesSpec E leaf (kcSpec certificate) in
          if mismatch \<noteq> [] then ((mismatch, None, True), w)
          else let renewAt = renewalTime leaf (kcRenewBefore (kcSpec certificate)) in
            case reconcilerNow E r w of (now, w) \<Rightarrow>
              if \<not> now < renewAt then
                ((''the certificate is due for renewal at '' @ formatRFC3339 K renewAt, Some renewAt, True), w)
              else (([], Some renewAt, False), w))"

section \<open>Issuing\<close>

definition resolveIssuer :: "('w, 'r) env_scheme \<Rightarrow> ('w, 'k) manager_scheme \<Rightarrow> 'w KMPCertificateReconciler \<Rightarrow> KMPCertificate \<Rightarrow> 'w
    \<Rightarrow> (goerr + IssuerSpec \<times> string) \<times> 'w" where
  "resolveIssuer E K r certificate w =
     (let ref = kcIssuerRef (kcSpec certificate);
          kind = (if refKind ref = [] then ''KMPIssuer'' else refKind ref) in
      if kind = ''KMPIssuer'' then
        let name = (kcNamespace certificate, refName ref) in
        (case getKMPIssuer K name w of
           (Inl err, w) \<Rightarrow> (Inl (Wrapf (''getting KMPIssuer '' @ nsnameString name @ '': '' @ apiErrText err)
              [ErrText (apiErrText err)]), w)
         | (Inr issuer, w) \<Rightarrow> (Inr (issuerSpec issuer, issuerNamespace issuer), w))
      else if kind = ''KMPClusterIssuer'' then
        let name = ([], refName ref) in
        (case getKMPClusterIssuer K name w of
           (Inl err, w) \<Rightarrow> (Inl (Wrapf (''getting KMPClusterIssuer '' @ nsnameString name @ '': '' @ apiErrText err)
              [ErrText (apiErrText err)]), w)
         | (Inr issuer, w) \<Rightarrow> (Inr (clusterIssuerSpec issuer, rClusterResourceNamespace r), w))
      else (Inl (errorfW ErrInvalidConfig ('': unknown issuer kind '' @ quote E kind)), w))"

definition generatePassword :: "('w, 'k) manager_scheme \<Rightarrow> 'w \<Rightarrow> (goerr + string) \<times> 'w" where
  "generatePassword K w = (case randomBytes K 24 w of
     (Inl err, w) \<Rightarrow> (Inl (Wrapf (''generating a key store password: '' @ err) [ErrText err]), w)
   | (Inr buf, w) \<Rightarrow> (Inr (b64UrlEncode buf), w))"

definition defaultKeyStorePasswordKey :: string where
  "defaultKeyStorePasswordKey = ''password''"

definition keyStorePassword :: "('w, 'r) env_scheme \<Rightarrow> ('w, 'k) manager_scheme \<Rightarrow> KMPCertificate \<Rightarrow> 'w
    \<Rightarrow> (goerr + string \<times> bool) \<times> 'w" where
  "keyStorePassword E K certificate w = (case kcKeyStorePasswordSecretRef (kcSpec certificate) of
     None \<Rightarrow> (case generatePassword K w of
       (Inl err, w) \<Rightarrow> (Inl err, w)
     | (Inr password, w) \<Rightarrow> (Inr (password, True), w))
   | Some ref \<Rightarrow>
     let key = (if selKey ref = [] then defaultKeyStorePasswordKey else selKey ref);
         name = (kcNamespace certificate, selName ref) in
     case getSecret K name w of
       (Inl err, w) \<Rightarrow> (Inl (Wrapf (''reading the key store password from secret '' @ nsnameString name @ '': '' @ apiErrText err)
          [ErrText (apiErrText err)]), w)
     | (Inr secret, w) \<Rightarrow>
       let password = trimSpace (dataAt (Data secret) key) in
       if password = [] then
         (Inl (errorfW ErrInvalidConfig ('': key '' @ quote E key @ '' of secret '' @ nsnameString name @ '' is empty'')), w)
       else (Inr (password, False), w))"

definition writeSecret :: "('w, 'k) manager_scheme \<Rightarrow> KMPCertificate \<Rightarrow> bytes \<Rightarrow> bytes \<Rightarrow> bytes \<Rightarrow> string \<Rightarrow> bool \<Rightarrow> 'w
    \<Rightarrow> goerr option \<times> 'w" where
  "writeSecret K certificate chainPEM caPEM keyPEM password generated w =
     (case createOrUpdateSecret K (secretNsName certificate)
             (mutateSecret (setControllerReference K) certificate chainPEM caPEM keyPEM password generated) w of
        (Some err, w) \<Rightarrow> (Some (Wrapf (''writing secret '' @ kcNamespace certificate @ ''/''
            @ kcSecretName (kcSpec certificate) @ '': '' @ err) [ErrText err]), w)
      | (None, w) \<Rightarrow> (None, w))"

text \<open>The status after an issuance, the end of \<^verbatim>\<open>issue\<close>.\<close>

definition issuedStatus :: "KMPCertificate \<Rightarrow> ProvisionedCertificate \<Rightarrow> KMPCertificate" where
  "issuedStatus certificate provisioned =
     (let leaf = Leaf (pcBundle provisioned) in
      certificate\<lparr>Status := (Status certificate)\<lparr>stSerialNumber := pcSerialNumber provisioned,
        stCSRID := pcCSRID provisioned, stNotBefore := Some (certNotBefore leaf), stNotAfter := Some (certNotAfter leaf),
        stRenewalTime := Some (renewalTime leaf (kcRenewBefore (kcSpec certificate)))\<rparr>\<rparr>)"

definition issue :: "('w, 'r) env_scheme \<Rightarrow> ('w, 'k) manager_scheme \<Rightarrow> 'w KMPCertificateReconciler \<Rightarrow> KMPCertificate \<Rightarrow> 'w
    \<Rightarrow> ((goerr + KMPCertificate) \<times> 'w) option" where
  "issue E K r certificate w = (case resolveIssuer E K r certificate w of
     (Inl err, w) \<Rightarrow> Some (Inl err, w)
   | (Inr (spec, issuerNs), w) \<Rightarrow>
     let authName = (issuerNs, AuthSecretName spec) in
     (case getSecret K authName w of
        (Inl err, w) \<Rightarrow> Some (Inl (errorfW ErrGetAuthSecret
           ('', secret name: '' @ nsnameString authName @ '', reason: '' @ apiErrText err)), w)
      | (Inr authSecret, w) \<Rightarrow> (case keyStorePassword E K certificate w of
          (Inl err, w) \<Rightarrow> Some (Inl err, w)
        | (Inr (password, generated), w) \<Rightarrow> (case ProvisionerBuilder r (Some spec) (Data authSecret) of
            Inl err \<Rightarrow> Some (Inl (errorfW ErrSignerBuilder ('': '' @ errorText E err)), w)
          | Inr provision \<Rightarrow> (case provision (provisionRequest certificate password) w of
              None \<Rightarrow> None
            | Some (Inl err, w) \<Rightarrow> Some (Inl err, w)
            | Some (Inr provisioned, w) \<Rightarrow> (case parseSingleChain K (ChainPEM (pcBundle provisioned)) of
                Inl err \<Rightarrow> Some (Inl (errorfW ErrUnusableResponse ('': splitting the certificate chain: '' @ err)), w)
              | Inr bundle \<Rightarrow>
                (case writeSecret K certificate (bundleChainPEM bundle) (bundleCAPEM bundle)
                        (pcPrivateKeyPEM provisioned) password generated w of
                   (Some err, w) \<Rightarrow> Some (Inl err, w)
                 | (None, w) \<Rightarrow> Some (Inr (issuedStatus certificate provisioned), w))))))))"

section \<open>Reconcile\<close>

record ctrl_result =
  RequeueAfter :: int

text \<open>
  \<^verbatim>\<open>Reconcile\<close> from the registration of the deferred function on: the resource with its new status,
  the result and the error, if any.
\<close>

definition reconcileCertificate :: "('w, 'r) env_scheme \<Rightarrow> ('w, 'k) manager_scheme \<Rightarrow> 'w KMPCertificateReconciler \<Rightarrow> KMPCertificate
    \<Rightarrow> 'w \<Rightarrow> ((KMPCertificate \<times> ctrl_result \<times> goerr option) \<times> 'w) option" where
  "reconcileCertificate E K r certificate w = (case issuanceNeeded E K r certificate w of
     ((reason, renewAt, needed), w) \<Rightarrow>
       if \<not> needed then
         (case setReady E ''True'' ''Issued'' ''The Secret holds a current certificate'' certificate w of
            (certificate, w) \<Rightarrow> (case until E r renewAt w of
              (d, w) \<Rightarrow> Some ((certificate, \<lparr>RequeueAfter = d\<rparr>, None), w)))
       else (case issue E K r certificate w of
         None \<Rightarrow> None
       | Some (Inl issueErr, w) \<Rightarrow>
           (case setReady E ''False'' ''Failed'' (errorText E issueErr) certificate w of
              (certificate, w) \<Rightarrow>
                let w = recordEvent K certificate ''Warning'' ''Failed'' (errorText E issueErr) w in
                if IsPermanent issueErr then Some ((certificate, \<lparr>RequeueAfter = 0\<rparr>, None), w)
                else Some ((certificate, \<lparr>RequeueAfter = issuanceFailureRequeue\<rparr>, Some issueErr), w))
       | Some (Inr certificate, w) \<Rightarrow>
           (case setReady E ''True'' ''Issued'' ''Key Manager Plus issued the certificate'' certificate w of
              (certificate, w) \<Rightarrow>
                let w = recordEvent K certificate ''Normal'' ''Issued'' ''Key Manager Plus issued the certificate'' w in
                (case until E r (stRenewalTime (Status certificate)) w of
                   (d, w) \<Rightarrow> Some ((certificate, \<lparr>RequeueAfter = d\<rparr>, None), w)))))"

text \<open>The deferred function: the status is written when it changed.\<close>

definition deferredUpdate :: "('w, 'k) manager_scheme \<Rightarrow> nsname \<Rightarrow> KMPCertificateStatus \<Rightarrow> KMPCertificate \<times> ctrl_result \<times> goerr option
    \<Rightarrow> 'w \<Rightarrow> (ctrl_result \<times> goerr option) \<times> 'w" where
  "deferredUpdate K name before out w = (case out of (certificate, result, err) \<Rightarrow>
     if before = Status certificate then ((result, err), w)
     else (case statusUpdate K certificate w of
       (Some updateErr, w) \<Rightarrow> ((\<lparr>RequeueAfter = 0\<rparr>, Some (Wrapf (''updating the status of '' @ nsnameString name @ '': '' @ updateErr)
          [ErrText updateErr])), w)
     | (None, w) \<Rightarrow> ((result, err), w)))"

definition Reconcile :: "('w, 'r) env_scheme \<Rightarrow> ('w, 'k) manager_scheme \<Rightarrow> 'w KMPCertificateReconciler \<Rightarrow> nsname \<Rightarrow> 'w
    \<Rightarrow> ((ctrl_result \<times> goerr option) \<times> 'w) option" where
  "Reconcile E K r name w = (case getKMPCertificate K name w of
     (Inl err, w) \<Rightarrow> Some ((\<lparr>RequeueAfter = 0\<rparr>, if apiNotFound err then None else Some (ErrText (apiErrText err))), w)
   | (Inr certificate, w) \<Rightarrow>
     if DeletionTimestamp certificate \<noteq> None then Some ((\<lparr>RequeueAfter = 0\<rparr>, None), w)
     else (case reconcileCertificate E K r certificate w of
       None \<Rightarrow> None
     | Some (out, w) \<Rightarrow> Some (deferredUpdate K name (Status certificate) out w)))"

text \<open>The reconciler \<^verbatim>\<open>main\<close> registers.\<close>

definition mainReconciler :: "('w, 'r) env_scheme \<Rightarrow> string \<Rightarrow> 'w KMPCertificateReconciler" where
  "mainReconciler E ns = \<lparr>rClusterResourceNamespace = ns,
     ProvisionerBuilder = (\<lambda>spec d. map_sum id (kmpSigner_Provision E) (KMPProvisionerFromIssuerAndSecretData E spec d)),
     Clock = None\<rparr>"

section \<open>What the manager promises\<close>

text \<open>
  The documented behaviour of the client: \<open>sec\<close> is the content of the cluster's Secrets.
  \<^verbatim>\<open>CreateOrUpdate\<close> that succeeds stores what the function makes of the present Secret, or of an empty
  one when there is none, since a write based on an outdated Secret is refused;
  \<^verbatim>\<open>SetControllerReference\<close> changes the owner references only. Nothing is said of \<^verbatim>\<open>Get\<close>: the client of
  the manager reads from a cache, which may be behind.
\<close>

definition emptySecret :: Secret where
  "emptySecret = \<lparr>secretType = [], Data = [], secretOwner = None\<rparr>"

definition secret_store_ok :: "('w, 'k) manager_scheme \<Rightarrow> ('w \<Rightarrow> nsname \<Rightarrow> Secret option) \<Rightarrow> bool" where
  "secret_store_ok K sec \<longleftrightarrow>
     (\<forall>n f w w'. createOrUpdateSecret K n f w = (None, w') \<longrightarrow>
          (\<exists>new. f (case sec w n of Some s \<Rightarrow> s | None \<Rightarrow> emptySecret) = Inr new \<and> sec w' = (sec w)(n \<mapsto> new)))
     \<and> (\<forall>c s s'. setControllerReference K c s = Inr s' \<longrightarrow> Data s' = Data s \<and> secretType s' = secretType s)"

text \<open>
  cert-manager's two functions on chains: \<^verbatim>\<open>ParseSingleCertificateChainPEM\<close> keeps the order of a chain
  that is already linked from its leaf, and \<^verbatim>\<open>DecodeX509CertificateChainBytes\<close> reads it back.
\<close>

definition splitter_ok :: "('w, 'r) env_scheme \<Rightarrow> ('w, 'k) manager_scheme \<Rightarrow> bool" where
  "splitter_ok E K \<longleftrightarrow> (\<forall>p b leaf chain. parseSingleChain K p = Inr b \<longrightarrow> parsePEMCertificates E p = (leaf # chain, None)
     \<longrightarrow> linked E (leaf # chain) \<longrightarrow> bundleChainPEM b \<noteq> [] \<and> (\<exists>rest. decodeChain K (bundleChainPEM b) = Inr (leaf # rest)))"

text \<open>\<^verbatim>\<open>rand.Read\<close> fills the buffer.\<close>

definition random_ok :: "('w, 'k) manager_scheme \<Rightarrow> bool" where
  "random_ok K \<longleftrightarrow> (\<forall>n w buf w'. randomBytes K n w = (Inr buf, w') \<longrightarrow> length buf = n)"

section \<open>The stages of an issuance\<close>

lemma mainReconciler_builder:
  "ProvisionerBuilder (mainReconciler E ns) spec d = map_sum id (kmpSigner_Provision E) (signerFromIssuerAndSecretData E spec d)"
  by (simp add: mainReconciler_def KMPProvisionerFromIssuerAndSecretData_def)

lemma issue_stages:
  assumes "issue E K (mainReconciler E ns) c w = Some (Inr c', w')"
  obtains spec n w0 a pw gen w1 w2 pc w3 pb and k :: kmpSigner where
    "resolveIssuer E K (mainReconciler E ns) c w = (Inr (spec, n), w0)"
    "getSecret K (n, AuthSecretName spec) w0 = (Inr a, w1)"
    "signerFromIssuerAndSecretData E (Some spec) (Data a) = Inr k"
    "keyStorePassword E K c w1 = (Inr (pw, gen), w2)"
    "Provision E (kmpInner k) (provisionRequest c pw) w2 = Some (Inr pc, w3)"
    "parseSingleChain K (ChainPEM (pcBundle pc)) = Inr pb"
    "createOrUpdateSecret K (secretNsName c) (mutateSecret (setControllerReference K) c (bundleChainPEM pb)
       (bundleCAPEM pb) (pcPrivateKeyPEM pc) pw gen) w3 = (None, w')"
    "c' = issuedStatus c pc"
proof -
  from assms obtain spec n w0 where 1: "resolveIssuer E K (mainReconciler E ns) c w = (Inr (spec, n), w0)"
    by (auto simp: issue_def split: sum.splits prod.splits)
  with assms obtain a w1 where 2: "getSecret K (n, AuthSecretName spec) w0 = (Inr a, w1)"
    by (auto simp: issue_def Let_def split: sum.splits prod.splits)
  with 1 assms obtain pw gen w2 where 3: "keyStorePassword E K c w1 = (Inr (pw, gen), w2)"
    by (auto simp: issue_def Let_def split: sum.splits prod.splits)
  with 1 2 assms obtain k where 4: "signerFromIssuerAndSecretData E (Some spec) (Data a) = Inr k"
    by (cases "signerFromIssuerAndSecretData E (Some spec) (Data a)") (auto simp: issue_def mainReconciler_builder)
  with 1 2 3 assms obtain pc w3 where 5: "Provision E (kmpInner k) (provisionRequest c pw) w2 = Some (Inr pc, w3)"
    by (auto simp: issue_def mainReconciler_builder kmpSigner_Provision_def split: option.splits sum.splits)
  with 1 2 3 4 assms obtain pb where 6: "parseSingleChain K (ChainPEM (pcBundle pc)) = Inr pb"
    by (auto simp: issue_def mainReconciler_builder kmpSigner_Provision_def split: sum.splits)
  with 1 2 3 4 5 assms have "createOrUpdateSecret K (secretNsName c) (mutateSecret (setControllerReference K) c
      (bundleChainPEM pb) (bundleCAPEM pb) (pcPrivateKeyPEM pc) pw gen) w3 = (None, w')" "c' = issuedStatus c pc"
    by (auto simp: issue_def mainReconciler_builder kmpSigner_Provision_def writeSecret_def split: prod.splits option.splits)
  with that 1 2 3 4 5 6 show ?thesis by blast
qed

text \<open>The written Secret, entry by entry.\<close>

lemma mutateSecret_data:
  assumes "secret_store_ok K sec" and "mutateSecret (setControllerReference K) c chainPEM caPEM keyPEM pw gen old = Inr new"
  shows "secretType new = ''kubernetes.io/tls''" and "dataAt (Data new) TLSCertKey = chainPEM"
    and "dataAt (Data new) TLSPrivateKeyKey = keyPEM"
    and "dataAt (Data new) cmMetaTLSCAKey = (if caPEM = [] then dataAt (Data old) cmMetaTLSCAKey else caPEM)"
    and "dataAt (Data new) KeyStorePasswordSecretKey = (if gen then pw else dataAt (Data old) KeyStorePasswordSecretKey)"
    and "k \<notin> {TLSCertKey, TLSPrivateKeyKey, cmMetaTLSCAKey, KeyStorePasswordSecretKey} \<Longrightarrow> dataAt (Data new) k = dataAt (Data old) k"
proof -
  let ?d = "let d = dataPut TLSPrivateKeyKey keyPEM (dataPut TLSCertKey chainPEM (Data old));
      d = (if 0 < length caPEM then dataPut cmMetaTLSCAKey caPEM d else d)
    in if gen then dataPut KeyStorePasswordSecretKey pw d else d"
  have "setControllerReference K c (old\<lparr>secretType := ''kubernetes.io/tls'', Data := ?d\<rparr>) = Inr new"
    using assms(2) by (simp add: mutateSecret_def Let_def)
  then have t: "secretType new = ''kubernetes.io/tls''" and d: "Data new = ?d"
    using assms(1) unfolding secret_store_ok_def by fastforce+
  show "secretType new = ''kubernetes.io/tls''" by (fact t)
  show "dataAt (Data new) TLSCertKey = chainPEM" "dataAt (Data new) TLSPrivateKeyKey = keyPEM"
    "dataAt (Data new) cmMetaTLSCAKey = (if caPEM = [] then dataAt (Data old) cmMetaTLSCAKey else caPEM)"
    "dataAt (Data new) KeyStorePasswordSecretKey = (if gen then pw else dataAt (Data old) KeyStorePasswordSecretKey)"
    "k \<notin> {TLSCertKey, TLSPrivateKeyKey, cmMetaTLSCAKey, KeyStorePasswordSecretKey} \<Longrightarrow> dataAt (Data new) k = dataAt (Data old) k"
    unfolding d Let_def by simp_all
qed

lemma keyStorePassword_generated:
  assumes "keyStorePassword E K c w = (Inr (pw, gen), w')"
  shows "gen \<longleftrightarrow> kcKeyStorePasswordSecretRef (kcSpec c) = None"
    and "gen \<Longrightarrow> \<exists>buf. randomBytes K 24 w = (Inr buf, w') \<and> pw = b64UrlEncode buf"
  using assms
  by (auto simp: keyStorePassword_def generatePassword_def Let_def split: op_splits)

text \<open>What the cluster holds after an issuance.\<close>

definition issued_pair :: "('w, 'r) env_scheme \<Rightarrow> ('w, 'k) manager_scheme \<Rightarrow> KMPCertificate \<Rightarrow> ProvisionedCertificate \<Rightarrow> Secret \<Rightarrow> bool" where
  "issued_pair E K c pc s \<longleftrightarrow>
     (let leaf = Leaf (pcBundle pc) in
      \<exists>key chain pb. secretType s = ''kubernetes.io/tls''
        \<and> dataAt (Data s) TLSPrivateKeyKey = pcPrivateKeyPEM pc \<and> parsePEMPrivateKey E (pcPrivateKeyPEM pc) [] = Inr key
        \<and> keyPublic key = Some (certPublicKey leaf)
        \<and> parsePEMCertificates E (ChainPEM (pcBundle pc)) = (leaf # chain, None) \<and> linked E (leaf # chain)
        \<and> parseSingleChain K (ChainPEM (pcBundle pc)) = Inr pb \<and> dataAt (Data s) TLSCertKey = bundleChainPEM pb
        \<and> set (provisionedNames (provisionRequest c [])) \<subseteq> {i. carries E leaf i})"

lemma provisionedNames_password: "provisionedNames (provisionRequest c pw) = provisionedNames (provisionRequest c [])"
  by (simp add: provisionedNames_def)

text \<open>
  One issuance, from the issuer the resource names to the Secret: the signer is built from the
  issuer's spec and credentials, a password is chosen, and \<open>pc\<close> is what Key Manager Plus returned for
  that password.
\<close>

definition issuance :: "('w, 'r) env_scheme \<Rightarrow> ('w, 'k) manager_scheme \<Rightarrow> string \<Rightarrow> KMPCertificate \<Rightarrow> 'w \<Rightarrow> string
    \<Rightarrow> bool \<Rightarrow> ProvisionedCertificate \<Rightarrow> bool" where
  "issuance E K ns c w pw gen pc \<longleftrightarrow>
     (\<exists>spec n w0 a w1 w2 w3 (k :: kmpSigner). resolveIssuer E K (mainReconciler E ns) c w = (Inr (spec, n), w0)
        \<and> getSecret K (n, AuthSecretName spec) w0 = (Inr a, w1)
        \<and> signerFromIssuerAndSecretData E (Some spec) (Data a) = Inr k
        \<and> keyStorePassword E K c w1 = (Inr (pw, gen), w2)
        \<and> (gen \<longrightarrow> (\<exists>buf. randomBytes K 24 w1 = (Inr buf, w2) \<and> pw = b64UrlEncode buf))
        \<and> Provision E (kmpInner k) (provisionRequest c pw) w2 = Some (Inr pc, w3))"

lemma issue_pair:
  assumes "issue E K (mainReconciler E ns) c w = Some (Inr c', w')"
    and "pem_ok (pemDecode E)" and "x509_ok (parseCertificate E)"
    and "pkcs8_ok (marshalPKCS8PrivateKey E) (parsePKCS8PrivateKey E)" and "secret_store_ok K sec"
  obtains pw gen pc s where "issuance E K ns c w pw gen pc" "gen \<longleftrightarrow> kcKeyStorePasswordSecretRef (kcSpec c) = None"
    "c' = issuedStatus c pc" "sec w' (secretNsName c) = Some s" "issued_pair E K c pc s"
    "gen \<Longrightarrow> dataAt (Data s) KeyStorePasswordSecretKey = pw"
proof -
  from assms(1) obtain spec n w0 a pw gen w1 w2 pc w3 pb and k :: kmpSigner where
    r: "resolveIssuer E K (mainReconciler E ns) c w = (Inr (spec, n), w0)"
    and a: "getSecret K (n, AuthSecretName spec) w0 = (Inr a, w1)"
    and k: "signerFromIssuerAndSecretData E (Some spec) (Data a) = Inr k"
    and pw: "keyStorePassword E K c w1 = (Inr (pw, gen), w2)"
    and p: "Provision E (kmpInner k) (provisionRequest c pw) w2 = Some (Inr pc, w3)"
    and b: "parseSingleChain K (ChainPEM (pcBundle pc)) = Inr pb"
    and cu: "createOrUpdateSecret K (secretNsName c) (mutateSecret (setControllerReference K) c (bundleChainPEM pb)
       (bundleCAPEM pb) (pcPrivateKeyPEM pc) pw gen) w3 = (None, w')"
    and c': "c' = issuedStatus c pc"
    by (rule issue_stages)
  obtain new where new: "mutateSecret (setControllerReference K) c (bundleChainPEM pb) (bundleCAPEM pb)
      (pcPrivateKeyPEM pc) pw gen (case sec w3 (secretNsName c) of Some s \<Rightarrow> s | None \<Rightarrow> emptySecret) = Inr new"
    "sec w' = (sec w3)(secretNsName c \<mapsto> new)"
    using assms(5) cu unfolding secret_store_ok_def by meson
  note d = mutateSecret_data [OF assms(5) new(1)]
  have "issued_pair E K c pc new"
    using Provision_pair [OF p assms(2-4)] b d(1-3) unfolding issued_pair_def Let_def provisionedNames_password [of c pw] by auto
  moreover have "issuance E K ns c w pw gen pc"
    using r a k pw p keyStorePassword_generated(2) [OF pw] unfolding issuance_def by blast
  ultimately show ?thesis using that c' new(2) d(5) keyStorePassword_generated(1) [OF pw] by simp
qed

end
