(* ===== verification/ReconcilerSpec.thy ===== *)
theory ReconcilerSpec
  imports Reconciler
begin

text \<open>
  What the KMPCertificate controller promises: what it leaves in the Secret and the status, when
  it asks Key Manager Plus for a certificate, what it does about a failure, and that the status
  stays well formed over the life of a resource.
\<close>

section \<open>Issuing\<close>

text \<open>
  C4. After an issuance the target Secret holds a usable pair, the one Key Manager Plus returned in
  this issuance: it is a TLS Secret, its private key reads back to a key whose public half is that
  of the issued leaf, its certificate entry is cert-manager's split of the published chain, which
  reads back as that leaf and the certificates linked above it, and the leaf carries the common
  name and every name of the spec. The status takes the validity and the renewal time from that
  leaf and the serial number and the id from the answers of Key Manager Plus; the rest of the
  resource is unchanged. When the spec supplies no password, the Secret holds the one that was
  generated for this issuance and sent to Key Manager Plus.
\<close>

theorem issue_safe:
  assumes "issue E K (mainReconciler E ns) c w = Some (Inr c', w')"
    and "pem_ok (pemDecode E)" and "x509_ok (parseCertificate E)"
    and "pkcs8_ok (marshalPKCS8PrivateKey E) (parsePKCS8PrivateKey E)" and "secret_store_ok K sec"
  shows "\<exists>pw gen pc s. issuance E K ns c w pw gen pc \<and> sec w' (secretNsName c) = Some s \<and> issued_pair E K c pc s
    \<and> (gen \<longleftrightarrow> kcKeyStorePasswordSecretRef (kcSpec c) = None)
    \<and> (gen \<longrightarrow> dataAt (Data s) KeyStorePasswordSecretKey = pw)
    \<and> (let leaf = Leaf (pcBundle pc) in
        stNotBefore (Status c') = Some (certNotBefore leaf) \<and> stNotAfter (Status c') = Some (certNotAfter leaf)
        \<and> stRenewalTime (Status c') = Some (renewalTime leaf (kcRenewBefore (kcSpec c))))
    \<and> stSerialNumber (Status c') = pcSerialNumber pc \<and> stCSRID (Status c') = pcCSRID pc
    \<and> Conditions (Status c') = Conditions (Status c) \<and> c'\<lparr>Status := Status c\<rparr> = c"
proof -
  obtain pw gen pc s where i: "issuance E K ns c w pw gen pc" "gen \<longleftrightarrow> kcKeyStorePasswordSecretRef (kcSpec c) = None"
    "sec w' (secretNsName c) = Some s" "issued_pair E K c pc s" "gen \<Longrightarrow> dataAt (Data s) KeyStorePasswordSecretKey = pw"
    and c': "c' = issuedStatus c pc"
    by (rule issue_pair [OF assms]) (rule that; assumption)
  show ?thesis
    by (rule exI [of _ pw], rule exI [of _ gen], rule exI [of _ pc], rule exI [of _ s])
      (use i in \<open>simp add: c' issuedStatus_def Let_def\<close>)
qed

section \<open>When a certificate is requested\<close>

text \<open>
  A certificate is not requested exactly when the Secret can be read, holds a certificate and
  a key, the first certificate matches the spec, and the clock is before its renewal time, which
  is then reported.
\<close>

theorem issuanceNeeded_spec:
  "(\<exists>reason at w'. issuanceNeeded E K r c w = ((reason, at, False), w')) \<longleftrightarrow>
     (\<exists>s w1 leaf now w2. getSecret K (secretNsName c) w = (Inr s, w1)
        \<and> dataAt (Data s) TLSCertKey \<noteq> [] \<and> dataAt (Data s) TLSPrivateKeyKey \<noteq> []
        \<and> leafOf K (dataAt (Data s) TLSCertKey) = Inr leaf \<and> matchesSpec E leaf (kcSpec c) = []
        \<and> reconcilerNow E r w1 = (now, w2) \<and> now < renewalTime leaf (kcRenewBefore (kcSpec c))
        \<and> issuanceNeeded E K r c w = (([], Some (renewalTime leaf (kcRenewBefore (kcSpec c))), False), w2))"
  (is "?needed = ?current")
proof
  assume ?needed
  then obtain s w1 where s: "getSecret K (secretNsName c) w = (Inr s, w1)"
    by (auto simp: issuanceNeeded_def Let_def split: prod.splits sum.splits if_splits)
  with \<open>?needed\<close> have ne: "dataAt (Data s) TLSCertKey \<noteq> []" "dataAt (Data s) TLSPrivateKeyKey \<noteq> []"
    by (auto simp: issuanceNeeded_def Let_def split: if_splits)
  with \<open>?needed\<close> s obtain leaf where l: "leafOf K (dataAt (Data s) TLSCertKey) = Inr leaf"
    by (auto simp: issuanceNeeded_def Let_def split: sum.splits)
  obtain now w2 where n: "reconcilerNow E r w1 = (now, w2)" by fastforce
  show ?current
    using \<open>?needed\<close> s ne l n by (auto simp: issuanceNeeded_def Let_def split: if_splits)
qed blast

text \<open>A spec whose names Key Manager Plus stores as they are written.\<close>

definition plain_names :: "KMPCertificateSpec \<Rightarrow> bool" where
  "plain_names spec \<longleftrightarrow>
     (\<forall>n \<in> set (kcDNSNames spec). trimSpace n = n \<and> n \<noteq> [] \<and> parseIP n = None)
     \<and> (\<forall>a \<in> set (kcIPAddresses spec). trimSpace a = a \<and> a \<noteq> [] \<and> parseIP a \<noteq> None)"

lemma eqFoldRune_sym:
  assumes "\<And>x y. foldEqRune U x y = foldEqRune U y x"
  shows "eqFoldRune U a b = eqFoldRune U b a"
  using assms [of a b] by (auto simp: eqFoldRune_def)

lemma equalFold_sym:
  assumes "\<And>x y. foldEqRune U x y = foldEqRune U y x"
  shows "equalFold U s t = equalFold U t s"
proof -
  have "eqFoldRune U = (\<lambda>a b. eqFoldRune U b a)" using eqFoldRune_sym [OF assms] by auto
  then show ?thesis unfolding equalFold_def by (metis list_all2_conv_all_nth)
qed

lemma plain_names_match:
  assumes "set (provisionedNames (provisionRequest c [])) \<subseteq> {i. carries U leaf i}" and "plain_names (kcSpec c)"
    and "\<And>x y. foldEqRune U x y = foldEqRune U y x"
  shows "matchesSpec U leaf (kcSpec c) = [] \<longleftrightarrow> coversSubject U leaf (kcSubject (kcSpec c))"
proof -
  have alt: "carries U leaf (altIdentity n)" if "n \<in> set (kcDNSNames (kcSpec c)) \<union> set (kcIPAddresses (kcSpec c))" for n
  proof -
    have "n = trimSpace n" "n \<noteq> []" using that assms(2) by (auto simp: plain_names_def)
    then have "altIdentity n \<in> set (provisionedNames (provisionRequest c []))"
      using that by (force simp: provisionedNames_def)
    then show ?thesis using assms(1) by blast
  qed
  have "carries U leaf (DNSNameId n)" if "n \<in> set (kcDNSNames (kcSpec c))" for n
  proof -
    have "altIdentity n = DNSNameId n" using that assms(2) by (auto simp: plain_names_def altIdentity_def)
    with alt [of n] that show ?thesis by simp
  qed
  moreover have "\<exists>i. parseIP a = Some i \<and> carries U leaf (IPAddressId i)" if "a \<in> set (kcIPAddresses (kcSpec c))" for a
  proof -
    have "parseIP a \<noteq> None" using that assms(2) unfolding plain_names_def by blast
    then obtain i where i: "parseIP a = Some i" by blast
    then have "altIdentity a = IPAddressId i" by (simp add: altIdentity_def)
    with alt [of a] that i show ?thesis by auto
  qed
  moreover have "equalFold U (certCommonName leaf) (kcCommonName (kcSpec c))"
    using assms(1) equalFold_sym [OF assms(3)] by (auto simp: provisionedNames_def)
  ultimately show ?thesis by (simp add: matchesSpec_Nil)
qed

text \<open>The leaf an issuance leaves in the Secret.\<close>

lemma issued_pair_leaf:
  assumes "issued_pair E K c pc s" and "splitter_ok E K" and "pem_ok (pemDecode E)"
  shows "leafOf K (dataAt (Data s) TLSCertKey) = Inr (Leaf (pcBundle pc))"
    and "dataAt (Data s) TLSCertKey \<noteq> []" and "dataAt (Data s) TLSPrivateKeyKey \<noteq> []"
proof -
  from assms(1,2) have "dataAt (Data s) TLSCertKey \<noteq> []
    \<and> (\<exists>rest. decodeChain K (dataAt (Data s) TLSCertKey) = Inr (Leaf (pcBundle pc) # rest))"
    unfolding issued_pair_def splitter_ok_def Let_def by metis
  then show "leafOf K (dataAt (Data s) TLSCertKey) = Inr (Leaf (pcBundle pc))" "dataAt (Data s) TLSCertKey \<noteq> []"
    by (auto simp: leafOf_def)
  have "parsePEMPrivateKey E [] [] \<noteq> Inr key" for key
    using pem_ok_Nil [OF assms(3)] by (auto simp: parsePEMPrivateKey_def pemBlocks_def)
  then show "dataAt (Data s) TLSPrivateKeyKey \<noteq> []" using assms(1) by (auto simp: issued_pair_def Let_def)
qed

text \<open>Case folding is symmetric.\<close>

definition fold_sym :: "'r unicode_tables_scheme \<Rightarrow> bool" where
  "fold_sym U \<longleftrightarrow> (\<forall>x y. foldEqRune U x y = foldEqRune U y x)"

text \<open>
  The check of the Secret after an issuance, for as long as nobody else changes the Secret: it
  finds the issued leaf.
\<close>

lemma issue_next:
  assumes "issue E K (mainReconciler E ns) c w = Some (Inr c', w')"
    and "pem_ok (pemDecode E)" and "x509_ok (parseCertificate E)"
    and "pkcs8_ok (marshalPKCS8PrivateKey E) (parsePKCS8PrivateKey E)"
    and "secret_store_ok K sec" and "splitter_ok E K" and "fold_sym E" and "plain_names (kcSpec c)"
    and "getSecret K (secretNsName c) w2 = (Inr s, w3)" and "sec w' (secretNsName c) = Some s"
    and "reconcilerNow E r w3 = (now, w4)"
  obtains leaf where "leafOf K (dataAt (Data s) TLSCertKey) = Inr leaf"
    "stRenewalTime (Status c') = Some (renewalTime leaf (kcRenewBefore (kcSpec c)))"
    "coversSubject E leaf (kcSubject (kcSpec c)) \<longleftrightarrow> matchesSpec E leaf (kcSpec c) = []"
    "dataAt (Data s) TLSCertKey \<noteq> []" "dataAt (Data s) TLSPrivateKeyKey \<noteq> []"
proof -
  obtain pc s0 where pc: "c' = issuedStatus c pc" "sec w' (secretNsName c) = Some s0" "issued_pair E K c pc s0"
    by (rule issue_pair [OF assms(1-5)])
  with assms(10) have s: "s0 = s" by simp
  let ?leaf = "Leaf (pcBundle pc)"
  have "set (provisionedNames (provisionRequest c [])) \<subseteq> {i. carries E ?leaf i}"
    using pc(3) by (auto simp: issued_pair_def Let_def)
  then have "matchesSpec E ?leaf (kcSpec c) = [] \<longleftrightarrow> coversSubject E ?leaf (kcSubject (kcSpec c))"
    by (rule plain_names_match [OF _ assms(8)]) (use assms(7) in \<open>auto simp: fold_sym_def\<close>)
  then show ?thesis
    using that [of ?leaf] issued_pair_leaf [OF pc(3) assms(6,2)] pc(1) by (simp add: s issuedStatus_def Let_def)
qed

text \<open>
  C11. An issuance settles the resource: a later check that reads the Secret as the issuance left it,
  neither changed by others nor served from a cache that is behind, finds the issued certificate
  current until the renewal time of the status and reports that time, provided the names of the
  spec are written without surrounding space and in the field of their kind, and the CA kept the
  organization and the unit.
\<close>

theorem issue_then_current:
  assumes "issue E K (mainReconciler E ns) c w = Some (Inr c', w')"
    and "pem_ok (pemDecode E)" and "x509_ok (parseCertificate E)"
    and "pkcs8_ok (marshalPKCS8PrivateKey E) (parsePKCS8PrivateKey E)"
    and "secret_store_ok K sec" and "splitter_ok E K" and "fold_sym E" and "plain_names (kcSpec c)"
    and "getSecret K (secretNsName c) w2 = (Inr s, w3)" and "sec w' (secretNsName c) = Some s"
    and "reconcilerNow E r w3 = (now, w4)"
    and "leafOf K (dataAt (Data s) TLSCertKey) = Inr leaf" and "coversSubject E leaf (kcSubject (kcSpec c))"
    and "stRenewalTime (Status c') = Some t" and "now < t"
  shows "issuanceNeeded E K r c w2 = (([], stRenewalTime (Status c'), False), w4)"
  by (rule issue_next [OF assms(1-11)]) (use assms(9,11-15) in \<open>simp add: issuanceNeeded_def Let_def\<close>)

text \<open>
  C38. The check of an issued certificate and the check that decides about a new one disagree on
  the subject: when the CA drops the organization or unit the spec asks for, an issuance succeeds
  and is reported as such, and the next check asks for another certificate, whatever the time.
\<close>

theorem issue_repeats:
  assumes "issue E K (mainReconciler E ns) c w = Some (Inr c', w')"
    and "pem_ok (pemDecode E)" and "x509_ok (parseCertificate E)"
    and "pkcs8_ok (marshalPKCS8PrivateKey E) (parsePKCS8PrivateKey E)"
    and "secret_store_ok K sec" and "splitter_ok E K" and "fold_sym E" and "plain_names (kcSpec c)"
    and "getSecret K (secretNsName c) w2 = (Inr s, w3)" and "sec w' (secretNsName c) = Some s"
    and "leafOf K (dataAt (Data s) TLSCertKey) = Inr leaf" and "\<not> coversSubject E leaf (kcSubject (kcSpec c))"
  shows "\<exists>reason. issuanceNeeded E K r c w2 = ((reason, None, True), w3)"
proof -
  obtain now w4 where n: "reconcilerNow E r w3 = (now, w4)" by fastforce
  show ?thesis
    by (rule issue_next [OF assms(1-10) n]) (use assms(9,11,12) in \<open>simp add: issuanceNeeded_def Let_def\<close>)
qed

section \<open>Outcomes\<close>

lemma until_bounds:
  assumes "until E r at w = (d, w')"
  shows "second \<le> d" and "d < 2 ^ 63"
  using assms by (auto simp: until_def Let_def issuanceFailureRequeue_def second_def timeSub_def split: option.splits prod.splits if_splits)

lemma issue_Inr: "issue E K r c w = Some (Inr c', w') \<Longrightarrow> \<exists>pc. c' = issuedStatus c pc"
  by (auto simp: issue_def Let_def split: sum.splits prod.splits option.splits)

lemma issuedStatus_keeps [simp]:
  "kcSpec (issuedStatus c pc) = kcSpec c" "Generation (issuedStatus c pc) = Generation c"
  "Conditions (Status (issuedStatus c pc)) = Conditions (Status c)"
  by (simp_all add: issuedStatus_def Let_def)

lemma setReady_result:
  assumes "setReady E st reason msg c w = (c', w')"
  obtains now where "clock E w = (now, w')"
    "c' = c\<lparr>Status := (Status c)\<lparr>Conditions := fst (setCondition now (Conditions (Status c)) (Generation c)
        KMPCertificateConditionReady st reason msg)\<rparr>\<rparr>"
  using assms by (auto simp: setReady_def split: prod.splits)

lemma setReady_ready:
  assumes "setReady E st reason msg c w = (c', w')"
  shows "\<exists>cond. conditionMap (Conditions (Status c')) KMPCertificateConditionReady = Some cond \<and> condStatus cond = st
    \<and> condReason cond = reason \<and> condMessage cond = msg \<and> condObservedGeneration cond = Generation c"
  by (rule setReady_result [OF assms]) (simp add: setCondition_map)

lemma setReady_rest:
  assumes "setReady E st reason msg c w = (c', w')"
  shows "c'\<lparr>Status := (Status c')\<lparr>Conditions := Conditions (Status c)\<rparr>\<rparr> = c"
  by (rule setReady_result [OF assms]) simp

text \<open>The ways a reconciliation ends.\<close>

lemma reconcile_cases:
  assumes "reconcileCertificate E K r c w = Some ((c', res, err), w')"
  obtains (current) reason at w1 w2 d where "issuanceNeeded E K r c w = ((reason, at, False), w1)"
      "setReady E ''True'' ''Issued'' ''The Secret holds a current certificate'' c w1 = (c', w2)"
      "until E r at w2 = (d, w')" "res = \<lparr>RequeueAfter = d\<rparr>" "err = None"
    | (failed) reason at w1 e w2 w3 where "issuanceNeeded E K r c w = ((reason, at, True), w1)"
      "issue E K r c w1 = Some (Inl e, w2)"
      "setReady E ''False'' ''Failed'' (errorText E e) c w2 = (c', w3)"
      "res = \<lparr>RequeueAfter = if IsPermanent e then 0 else issuanceFailureRequeue\<rparr>"
      "err = (if IsPermanent e then None else Some e)"
    | (issued) reason at w1 c1 w2 w3 w4 d where "issuanceNeeded E K r c w = ((reason, at, True), w1)"
      "issue E K r c w1 = Some (Inr c1, w2)"
      "setReady E ''True'' ''Issued'' ''Key Manager Plus issued the certificate'' c1 w2 = (c', w3)"
      "until E r (stRenewalTime (Status c')) w4 = (d, w')" "res = \<lparr>RequeueAfter = d\<rparr>" "err = None"
proof -
  obtain reason at needed w1 where n: "issuanceNeeded E K r c w = ((reason, at, needed), w1)" by (metis surj_pair)
  show ?thesis
  proof (cases needed)
    case False
    then show ?thesis using assms n current by (auto simp: reconcileCertificate_def split: prod.splits)
  next
    case True
    with assms n obtain o' w2 where i: "issue E K r c w1 = Some (o', w2)"
      by (auto simp: reconcileCertificate_def split: option.splits prod.splits)
    show ?thesis
    proof (cases o')
      case (Inl e)
      then show ?thesis using assms n True i failed
        by (auto simp: reconcileCertificate_def Let_def split: prod.splits if_splits)
    next
      case (Inr c1)
      then show ?thesis using assms n True i issued
        by (auto simp: reconcileCertificate_def Let_def split: prod.splits)
    qed
  qed
qed

text \<open>
  C15. What a reconciliation reports is what happened. The resource is Ready, for its generation, and
  is looked at again after a second at the earliest, exactly when its certificate was found
  current, and then nothing else of the status changes, or was issued, and then the status is that
  of the issuance. When the issuance failed the resource says so with the text of the error, and
  then a permanent error is neither returned nor retried, while any other is returned together
  with a delay of a minute.
\<close>

theorem reconcile_outcome:
  assumes "reconcileCertificate E K r c w = Some ((c', res, err), w')"
  shows "\<exists>cond reason at needed w1. conditionMap (Conditions (Status c')) KMPCertificateConditionReady = Some cond
    \<and> condObservedGeneration cond = Generation c \<and> issuanceNeeded E K r c w = ((reason, at, needed), w1)
    \<and> (let ready = condStatus cond = ''True'' \<and> condReason cond = ''Issued'' \<and> err = None
           \<and> second \<le> RequeueAfter res \<and> RequeueAfter res < 2 ^ 63;
           same = (\<lambda>c1. c'\<lparr>Status := (Status c')\<lparr>Conditions := Conditions (Status c1)\<rparr>\<rparr> = c1)
       in if \<not> needed then ready \<and> same c
          else (case issue E K r c w1 of
             None \<Rightarrow> False
           | Some (Inr c1, _) \<Rightarrow> ready \<and> same c1
           | Some (Inl e, _) \<Rightarrow> condStatus cond = ''False'' \<and> condReason cond = ''Failed''
               \<and> condMessage cond = errorText E e \<and> same c
               \<and> (if IsPermanent e then err = None \<and> RequeueAfter res = 0
                  else err = Some e \<and> RequeueAfter res = 60 * second)))"
  using assms
proof (cases rule: reconcile_cases)
  case (current reason at w1 w2 d)
  then show ?thesis
    using setReady_ready [OF current(2)] setReady_rest [OF current(2)] until_bounds [OF current(3)] by auto
next
  case (failed reason at w1 e w2 w3)
  then show ?thesis using setReady_ready [OF failed(3)] setReady_rest [OF failed(3)] by (auto simp: issuanceFailureRequeue_def)
next
  case (issued reason at w1 c1 w2 w3 w4 d)
  obtain pc where "c1 = issuedStatus c pc" using issue_Inr [OF issued(2)] by blast
  then show ?thesis using issued setReady_ready [OF issued(3)] setReady_rest [OF issued(3)] until_bounds [OF issued(4)] by auto
qed

section \<open>The life of a resource\<close>

text \<open>
  A resource is created without a status; from then on users edit everything but the status, and
  reconciliations write it.
\<close>

inductive lifecycle :: "('w, 'r) env_scheme \<Rightarrow> ('w, 'k) manager_scheme \<Rightarrow> 'w KMPCertificateReconciler \<Rightarrow> KMPCertificate \<Rightarrow> bool"
  for E K r where
  created: "Status c = \<lparr>Conditions = [], stSerialNumber = [], stCSRID = [], stNotBefore = None, stNotAfter = None,
      stRenewalTime = None\<rparr> \<Longrightarrow> lifecycle E K r c"
| edited: "lifecycle E K r c \<Longrightarrow> Status c' = Status c \<Longrightarrow> lifecycle E K r c'"
| reconciled: "lifecycle E K r c \<Longrightarrow> reconcileCertificate E K r c w = Some ((c', res, err), w') \<Longrightarrow> lifecycle E K r c'"

text \<open>
  A well-formed status: at most the one condition Ready, and the three times are set together,
  from one certificate.
\<close>

definition status_ok :: "KMPCertificateStatus \<Rightarrow> bool" where
  "status_ok st \<longleftrightarrow>
     (Conditions st = [] \<or> (\<exists>cond. Conditions st = [cond] \<and> condType cond = KMPCertificateConditionReady
        \<and> condStatus cond \<in> {''True'', ''False''}))
     \<and> ((stNotBefore st = None \<and> stNotAfter st = None \<and> stRenewalTime st = None)
        \<or> (\<exists>leaf renewBefore. stNotBefore st = Some (certNotBefore leaf) \<and> stNotAfter st = Some (certNotAfter leaf)
            \<and> stRenewalTime st = Some (renewalTime leaf renewBefore)))"

lemma setReady_ok:
  assumes "setReady E st reason msg c w = (c', w')" and "status_ok (Status c)" and "st \<in> {''True'', ''False''}"
  shows "status_ok (Status c')"
proof -
  obtain now where c': "c' = c\<lparr>Status := (Status c)\<lparr>Conditions := fst (setCondition now (Conditions (Status c)) (Generation c)
        KMPCertificateConditionReady st reason msg)\<rparr>\<rparr>" by (rule setReady_result [OF assms(1)])
  show ?thesis
  proof (cases "Conditions (Status c)")
    case Nil
    then show ?thesis using assms(2,3) unfolding c' status_ok_def by simp
  next
    case (Cons cond rest)
    then have "rest = []" "condType cond = KMPCertificateConditionReady" "condStatus cond \<in> {''True'', ''False''}"
      using assms(2) by (auto simp: status_ok_def)
    then show ?thesis using assms(2,3) Cons unfolding c' status_ok_def by (auto simp: Let_def)
  qed
qed

lemma issuedStatus_ok: "status_ok (Status c) \<Longrightarrow> status_ok (Status (issuedStatus c pc))"
  by (auto simp: status_ok_def issuedStatus_def Let_def)

lemma reconcile_status_ok:
  assumes "reconcileCertificate E K r c w = Some ((c', res, err), w')" and "status_ok (Status c)"
  shows "status_ok (Status c')"
  using assms(1)
proof (cases rule: reconcile_cases)
  case (issued reason at w1 c1 w2 w3 w4 d)
  obtain pc where "c1 = issuedStatus c pc" using issue_Inr [OF issued(2)] by blast
  then show ?thesis using setReady_ok [OF issued(3)] issuedStatus_ok [OF assms(2)] by simp
next
  case (current reason at w1 w2 d)
  show ?thesis by (rule setReady_ok [OF current(2) assms(2)]) simp
next
  case (failed reason at w1 e w2 w3)
  show ?thesis by (rule setReady_ok [OF failed(3) assms(2)]) simp
qed

text \<open>
  C14. Over the whole life of a resource its status stays well formed: it holds at most one
  condition, Ready, which is true or false, and the validity and renewal times of one certificate
  or none of them.
\<close>

theorem lifecycle_status:
  assumes "lifecycle E K r c"
  shows "status_ok (Status c)"
  using assms
proof induction
  case (created c)
  then show ?case by (simp add: status_ok_def)
next
  case (reconciled c w c' res err w')
  show ?case by (rule reconcile_status_ok [OF reconciled.hyps(2) reconciled.IH])
qed simp

text \<open>The conditions a check of a current certificate would set are already there.\<close>

definition settled :: "KMPCertificate \<Rightarrow> bool" where
  "settled c \<longleftrightarrow> (case conditionMap (Conditions (Status c)) KMPCertificateConditionReady of
     None \<Rightarrow> False
   | Some cond \<Rightarrow> condStatus cond = ''True'' \<and> condReason cond = ''Issued''
       \<and> condMessage cond = ''The Secret holds a current certificate'' \<and> condObservedGeneration cond = Generation c)"

lemma setCondition_same:
  assumes "conditionMap cs t = Some cond" and "condStatus cond = s" "condReason cond = r" "condMessage cond = m"
    "condObservedGeneration cond = g"
  shows "setCondition now cs g t s r m = (cs, False)"
  using assms by (induction cs) (auto simp: conditionMap_def split: if_splits)

lemma settled_setReady:
  assumes "settled c" and "clock E w = (now, w')"
  shows "setReady E ''True'' ''Issued'' ''The Secret holds a current certificate'' c w = (c, w')"
proof -
  obtain cond where cond: "conditionMap (Conditions (Status c)) KMPCertificateConditionReady = Some cond"
    "condStatus cond = ''True''" "condReason cond = ''Issued''"
    "condMessage cond = ''The Secret holds a current certificate''" "condObservedGeneration cond = Generation c"
    using assms(1) by (auto simp: settled_def split: option.splits)
  show ?thesis using setCondition_same [OF cond, of now] assms(2) by (simp add: setReady_def)
qed

text \<open>
  C16. A settled resource stays quiet: when the certificate is current and the status says so, a
  reconciliation requests nothing and writes neither the Secret nor the status; it reads the
  clock and asks to be called at the renewal time, a second from now at the earliest. A
  reconciliation of a current certificate settles the resource.
\<close>

theorem Reconcile_quiescent:
  assumes "getKMPCertificate K name w = (Inr c, w1)" and "DeletionTimestamp c = None"
    and "issuanceNeeded E K r c w1 = ((reason, at, False), w2)" and "clock E w2 = (now, w3)" and "until E r at w3 = (d, w4)"
  shows "(settled c \<longrightarrow> Reconcile E K r name w = Some ((\<lparr>RequeueAfter = d\<rparr>, None), w4))
    \<and> second \<le> d
    \<and> (\<exists>c'. reconcileCertificate E K r c w1 = Some ((c', \<lparr>RequeueAfter = d\<rparr>, None), w4) \<and> settled c' \<and> kcSpec c' = kcSpec c)"
proof -
  obtain c' where c': "setReady E ''True'' ''Issued'' ''The Secret holds a current certificate'' c w2 = (c', w3)"
    using assms(4) by (auto simp: setReady_def)
  then have k: "kcSpec c' = kcSpec c" "Generation c' = Generation c" by (auto elim!: setReady_result)
  then have "settled c'" using setReady_ready [OF c'] by (auto simp: settled_def)
  moreover have rc: "reconcileCertificate E K r c w1 = Some ((c', \<lparr>RequeueAfter = d\<rparr>, None), w4)"
    using assms(3,5) c' by (simp add: reconcileCertificate_def)
  moreover have "settled c \<Longrightarrow> Reconcile E K r name w = Some ((\<lparr>RequeueAfter = d\<rparr>, None), w4)"
    using settled_setReady [OF _ assms(4)] c' assms(1,2) rc by (simp add: Reconcile_def deferredUpdate_def)
  ultimately show ?thesis using until_bounds [OF assms(5)] k by blast
qed

section \<open>Termination and a misjudged failure\<close>

lemma issue_total:
  assumes "clock_ok E tm"
  shows "issue E K (mainReconciler E ns) c w \<noteq> None"
proof -
  have p: "kmpSigner_Provision E k req w \<noteq> None" for k req w
    using Provision_total [OF assms, of "kmpInner k" req w] by (auto simp: kmpSigner_Provision_def)
  have "ProvisionerBuilder (mainReconciler E ns) spec d = Inr provision \<Longrightarrow> provision req w \<noteq> None" for spec d provision req w
    unfolding mainReconciler_builder using p by (cases "signerFromIssuerAndSecretData E spec d") auto
  then show ?thesis
    by (auto simp: issue_def Let_def simp del: not_None_eq split: sum.split prod.split option.split)
qed

text \<open>
  C36. A reconciliation returns whenever the clock runs.
\<close>

theorem Reconcile_returns:
  assumes "clock_ok E tm"
  shows "\<exists>r. Reconcile E K (mainReconciler E ns) name w = Some r"
proof -
  have "reconcileCertificate E K (mainReconciler E ns) c w \<noteq> None" for c w
    using issue_total [OF assms] unfolding reconcileCertificate_def Let_def
    by (auto simp del: not_None_eq split: sum.split prod.split option.split)
  then have "Reconcile E K (mainReconciler E ns) name w \<noteq> None"
    unfolding Reconcile_def by (auto simp del: not_None_eq split: sum.split prod.split option.split)
  then show ?thesis by blast
qed

text \<open>
  C39. An issuer that cannot be used is not given up: the error of building the client is permanent,
  but \<^verbatim>\<open>issue\<close> formats it without wrapping it, so the reconciler returns an error and retries.
\<close>

theorem misconfigured_issuer_is_retried:
  assumes "resolveIssuer E K (mainReconciler E ns) c w = (Inr (spec, n), w1)"
    and "getSecret K (n, AuthSecretName spec) w1 = (Inr a, w2)" and "keyStorePassword E K c w2 = (Inr (pw, gen), w3)"
    and "signerFromIssuerAndSecretData E (Some spec) (Data a) = Inl e"
  shows "IsPermanent e \<and> (\<exists>e'. issue E K (mainReconciler E ns) c w = Some (Inl e', w3) \<and> \<not> IsPermanent e')"
proof -
  have "IsPermanent e" using signerFrom_config [OF assms(4)] by (auto simp: error_simps)
  moreover have "\<not> IsPermanent (errorfW ErrSignerBuilder t)" for t by (simp add: error_simps)
  ultimately show ?thesis using assms by (simp add: issue_def mainReconciler_builder)
qed

section \<open>The key store password\<close>

text \<open>
  C35. A key store password is never empty. One that is generated has 32 characters of the URL
  alphabet, so it survives a form field and the trimming of a Secret unchanged, and keeps all
  the randomness: different random buffers give different passwords.
\<close>

theorem keyStorePassword_spec:
  assumes "random_ok K" and "keyStorePassword E K c w = (Inr (pw, gen), w')"
  shows "pw \<noteq> [] \<and> (gen \<longleftrightarrow> kcKeyStorePasswordSecretRef (kcSpec c) = None)
    \<and> (gen \<longrightarrow> (\<exists>buf. randomBytes K 24 w = (Inr buf, w') \<and> length buf = 24 \<and> pw = b64UrlEncode buf)
        \<and> length pw = 32 \<and> set pw \<subseteq> set urlAlphabet)
    \<and> inj_on b64UrlEncode {buf. length buf = 24}"
proof -
  have i: "inj_on b64UrlEncode {buf. length buf = 24}" by (rule inj_onI) (auto intro: b64UrlEncode_inj)
  show ?thesis
  proof (cases gen)
    case True
    then obtain buf where buf: "randomBytes K 24 w = (Inr buf, w')" "pw = b64UrlEncode buf"
      using keyStorePassword_generated(2) [OF assms(2)] by blast
    have len: "length buf = 24" using assms(1) buf(1) by (auto simp: random_ok_def)
    then have "length pw = 32" using length_b64UrlEncode [of buf 8] buf(2) by simp
    then show ?thesis
      using True buf len i b64UrlEncode_set [of buf] keyStorePassword_generated(1) [OF assms(2)] by auto
  next
    case False
    then have r: "kcKeyStorePasswordSecretRef (kcSpec c) \<noteq> None" using keyStorePassword_generated(1) [OF assms(2)] by simp
    then have "pw \<noteq> []"
      using assms(2) by (auto simp: keyStorePassword_def Let_def split: sum.splits prod.splits if_splits)
    then show ?thesis using False r i by blast
  qed
qed

section \<open>A run\<close>

text \<open>
  A manager over a store of Secrets, a resource that asks for the organization \<open>org\<close>, and a server
  that issues a certificate without one.
\<close>

definition demo_decode :: "bytes \<Rightarrow> string + certificate list" where
  "demo_decode p = (case parsePEMCertificates demo_kenv p of (cs, None) \<Rightarrow> Inr cs | (cs, Some e) \<Rightarrow> Inl ''invalid chain'')"

definition demo_cert :: "string \<Rightarrow> KMPCertificate" where
  "demo_cert org = \<lparr>kcNamespace = ''ns'', kcName = ''cert'', Generation = 1, DeletionTimestamp = None,
     kcSpec = \<lparr>kcSecretName = ''tls'', kcIssuerRef = \<lparr>refName = ''issuer'', refKind = []\<rparr>, kcCommonName = ''app.example'',
       kcDNSNames = [''www.example''], kcIPAddresses = [],
       kcSubject = \<lparr>subjOrganization = org, subjOrganizationalUnit = [], subjLocality = [], subjProvince = [], subjCountry = []\<rparr>,
       kcPrivateKey = \<lparr>pkAlgorithm = ''EC'', pkSize = Some 256, pkSignatureAlgorithm = [], pkStoreType = []\<rparr>,
       kcValidityDays = None, kcValidityType = [], kcRenewBefore = None, kcKeyStorePasswordSecretRef = None\<rparr>,
     Status = \<lparr>Conditions = [], stSerialNumber = [], stCSRID = [], stNotBefore = None, stNotAfter = None, stRenewalTime = None\<rparr>\<rparr>"

definition demo_manager :: "demo_kworld manager" where
  "demo_manager = \<lparr>getSecret = demo_getSecret, parseSingleChain = (\<lambda>p. Inr \<lparr>bundleChainPEM = p, bundleCAPEM = []\<rparr>),
     getKMPCertificate = (\<lambda>n w. (Inr (demo_cert []), w)), getKMPIssuer = (\<lambda>n w. (Inr demo_namespaced, w)),
     getKMPClusterIssuer = (\<lambda>n w. (Inl \<lparr>apiErrText = ''not found'', apiNotFound = True\<rparr>, w)),
     createOrUpdateSecret = (\<lambda>n f w. case f (case map_of (snd (snd w)) n of Some s \<Rightarrow> s | None \<Rightarrow> emptySecret) of
        Inl e \<Rightarrow> (Some e, w) | Inr s \<Rightarrow> (None, (fst w, fst (snd w), (n, s) # snd (snd w)))),
     setControllerReference = (\<lambda>c s. Inr (s\<lparr>secretOwner := Some (kcName c)\<rparr>)),
     statusUpdate = (\<lambda>c w. (None, w)), recordEvent = (\<lambda>c t r m w. w),
     randomBytes = (\<lambda>n w. (Inr (replicate n (CHR ''r'')), w)), decodeChain = demo_decode, formatRFC3339 = (\<lambda>t. ''soon'')\<rparr>"

definition demo_secrets :: "demo_kworld \<Rightarrow> nsname \<Rightarrow> Secret option" where
  "demo_secrets w = map_of (snd (snd w))"

lemma demo_manager_laws: "secret_store_ok demo_manager demo_secrets" "splitter_ok demo_kenv demo_manager" "random_ok demo_manager"
proof -
  show "secret_store_ok demo_manager demo_secrets"
    by (auto simp: secret_store_ok_def demo_manager_def demo_getSecret_def demo_secrets_def split: option.splits sum.splits)
  show "random_ok demo_manager" by (simp add: random_ok_def demo_manager_def)
  have "parsePEMCertificates demo_kenv [] \<noteq> (leaf # chain, None)" for leaf chain
    by (simp add: pem_ok_Nil [OF demo_env_laws(1)] parsePEMCertificates_def pemBlocks_def)
  then show "splitter_ok demo_kenv demo_manager"
    by (auto simp: splitter_ok_def demo_manager_def demo_decode_def)
qed

definition demo_written :: Secret where
  "demo_written = \<lparr>secretType = ''kubernetes.io/tls'',
     Data = [(KeyStorePasswordSecretKey, demo_password), (TLSPrivateKeyKey, demo_export), (TLSCertKey, ChainPEM demo_bundle)],
     secretOwner = Some ''cert''\<rparr>"

abbreviation demo_after :: demo_kworld where
  "demo_after \<equiv> (0, [], ((''ns'', ''tls''), demo_written) # demo_store)"

lemma demo_names:
  "kcCommonName (kcSpec (demo_cert org)) = ''app.example''" "kcDNSNames (kcSpec (demo_cert org)) = [''www.example'']"
  "kcIPAddresses (kcSpec (demo_cert org)) = []"
  by (simp_all add: demo_cert_def)

lemma demo_request_of: "provisionRequest (demo_cert org) demo_password = demo_preq\<lparr>pOrganization := org\<rparr>"
  by (simp add: provisionRequest_def demo_cert_def demo_preq_def)

lemma demo_CreateCSR_Acme:
  "CreateCSR demo_env demo_client (createRequest (demo_preq\<lparr>pOrganization := ''Acme''\<rparr>)) (0, demo_prun, demo_store)
     = (Inr \<lparr>CSR_ID = ''7'', CSR_CommonName = ''app.example'',
          CSR_Response = marshal (AMap [(''status'', AStr ''Success''), (''CSR_ID'', AStr ''7'')])\<rparr>, (0, tl demo_prun, demo_store))"
  by code_simp

lemma demo_provisioned_org: "verifyProvisionedNames demo_kenv (demo_preq\<lparr>pOrganization := org\<rparr>) demo_leaf = None"
proof -
  have "verifyProvisionedNames demo_kenv (demo_preq\<lparr>pOrganization := org\<rparr>) demo_leaf = verifyProvisionedNames demo_kenv demo_preq demo_leaf"
    by (simp add: verifyProvisionedNames_def missingProvisioned_def)
  then show ?thesis by (simp add: demo_provisioned)
qed

lemma demo_kProvision:
  assumes "org = [] \<or> org = ''Acme''"
  shows "Provision demo_kenv demo_signer (demo_preq\<lparr>pOrganization := org\<rparr>) (0, demo_prun, demo_store)
    = Some (Inr demo_pair, (0, [], demo_store))"
proof -
  have "demo_preq\<lparr>pOrganization := []\<rparr> = demo_preq" by (simp add: demo_preq_def)
  then have c: "CreateCSR demo_kenv demo_client (createRequest (demo_preq\<lparr>pOrganization := org\<rparr>)) (0, demo_prun, demo_store)
     = (Inr \<lparr>CSR_ID = ''7'', CSR_CommonName = ''app.example'',
          CSR_Response = marshal (AMap [(''status'', AStr ''Success''), (''CSR_ID'', AStr ''7'')])\<rparr>, (0, tl demo_prun, demo_store))"
    using assms demo_CreateCSR demo_CreateCSR_Acme by auto
  have s: "client demo_signer = demo_client" by (simp add: demo_signer_def)
  have t: "trimSpace ''app.example'' = ''app.example''" "demo_password \<noteq> []" by code_simp+
  have p: "pCommonName demo_preq = ''app.example''" "pPassword demo_preq = demo_password" "pExportFileType demo_preq = []"
    by (simp_all add: demo_preq_def)
  show ?thesis
    by (simp add: Provision_def s p t c resolveCSRID_def demo_pSignCSR demo_pfetchCertificate exportKey_def
        demo_ExportCSR demo_export_read demo_assemblePair [OF demo_provisioned_org])
qed

lemma demo_resolve:
  "resolveIssuer demo_kenv demo_manager (mainReconciler demo_kenv ns) (demo_cert org) w = (Inr (demo_spec, ''ns''), w)"
  by (simp add: resolveIssuer_def demo_manager_def demo_cert_def demo_namespaced_def)

lemma demo_issue:
  assumes "org = [] \<or> org = ''Acme''"
  shows "issue demo_kenv demo_manager (mainReconciler demo_kenv ''ns'') (demo_cert org) (0, demo_prun, demo_store)
    = Some (Inr (issuedStatus (demo_cert org) demo_pair), demo_after)"
proof -
  have 2: "getSecret demo_manager (''ns'', ''auth'') (u, v, demo_store) = (Inr demo_auth, (u, v, demo_store))" for u v
    by (simp add: demo_manager_def demo_getSecret_def demo_store_def)
  have 3: "keyStorePassword demo_kenv demo_manager (demo_cert org) w = (Inr (demo_password, True), w)" for w
    by (simp add: keyStorePassword_def generatePassword_def demo_manager_def demo_cert_def demo_password_def)
  have 4: "writeSecret demo_manager (demo_cert org) (ChainPEM demo_bundle) [] demo_export demo_password True (0, [], demo_store)
      = (None, demo_after)"
    by (simp add: writeSecret_def secretNsName_def demo_manager_def demo_cert_def mutateSecret_def emptySecret_def demo_store_def
        demo_written_def dataPut_def)
  have 5: "parseSingleChain demo_manager p = Inr \<lparr>bundleChainPEM = p, bundleCAPEM = []\<rparr>" for p by (simp add: demo_manager_def)
  have 6: "AuthSecretName demo_spec = ''auth''" by (simp add: demo_spec_def)
  show ?thesis
    using demo_kProvision [OF assms]
    by (simp add: issue_def demo_request_of demo_resolve 2 3 4 5 6 mainReconciler_builder demo_signerFrom kmpSigner_Provision_def demo_pair_def)
qed

lemma demo_read: "getSecret demo_manager (secretNsName (demo_cert org)) demo_after = (Inr demo_written, demo_after)"
  by (simp add: demo_manager_def demo_getSecret_def secretNsName_def demo_cert_def)

lemma demo_clean: "plain_names (kcSpec (demo_cert org))" "fold_sym demo_kenv"
proof -
  have "trimSpace ''www.example'' = ''www.example''" "parseIP ''www.example'' = None" by code_simp+
  then show "plain_names (kcSpec (demo_cert org))" by (simp add: plain_names_def demo_names)
  show "fold_sym demo_kenv" by (simp add: fold_sym_def demo_env_def)
qed

lemma demo_leafOf: "leafOf demo_manager (dataAt (Data demo_written) TLSCertKey) = Inr demo_leaf"
proof -
  have "dataAt (Data demo_written) TLSCertKey = ChainPEM demo_bundle" by (simp add: demo_written_def dataAt_def)
  moreover have "parsePEMCertificates demo_kenv (ChainPEM demo_bundle) = ([demo_leaf, demo_root], None)" by code_simp
  ultimately show ?thesis by (simp add: leafOf_def demo_manager_def demo_decode_def)
qed

lemma demo_now: "reconcilerNow demo_kenv (mainReconciler demo_kenv ns) w = (fst w, w)"
  by (simp add: reconcilerNow_def mainReconciler_def demo_env_def)

lemma demo_renewal: "renewalTime demo_leaf None = 667"
  by code_simp

lemma demo_bundle_leaf: "Leaf (pcBundle demo_pair) = demo_leaf"
  by (simp add: demo_pair_def demo_bundle_def)

theorem issue_safe_witness:
  "\<exists>pw pc s. issuance demo_kenv demo_manager ''ns'' (demo_cert []) (0, demo_prun, demo_store) pw True pc
     \<and> demo_secrets demo_after (''ns'', ''tls'') = Some s \<and> issued_pair demo_kenv demo_manager (demo_cert []) pc s
     \<and> dataAt (Data s) KeyStorePasswordSecretKey = pw"
proof -
  have i: "issue demo_kenv demo_manager (mainReconciler demo_kenv ''ns'') (demo_cert []) (0, demo_prun, demo_store)
    = Some (Inr (issuedStatus (demo_cert []) demo_pair), demo_after)" by (rule demo_issue) simp
  have n: "secretNsName (demo_cert []) = (''ns'', ''tls'')" "kcKeyStorePasswordSecretRef (kcSpec (demo_cert [])) = None"
    by (simp_all add: secretNsName_def demo_cert_def)
  from issue_safe [OF i demo_env_laws demo_env_pkcs8 demo_manager_laws(1)] show ?thesis
    unfolding n by (elim exE conjE) (intro exI conjI; simp)
qed

lemma demo_stored: "demo_secrets demo_after (secretNsName (demo_cert org)) = Some demo_written"
  by (simp add: demo_secrets_def secretNsName_def demo_cert_def)

theorem issue_then_current_witness:
  "issuanceNeeded demo_kenv demo_manager (mainReconciler demo_kenv ''ns'') (demo_cert []) demo_after
     = (([], Some 667, False), demo_after)"
proof -
  have i: "issue demo_kenv demo_manager (mainReconciler demo_kenv ''ns'') (demo_cert []) (0, demo_prun, demo_store)
    = Some (Inr (issuedStatus (demo_cert []) demo_pair), demo_after)" by (rule demo_issue) simp
  have r: "stRenewalTime (Status (issuedStatus (demo_cert []) demo_pair)) = Some 667"
    by (simp add: issuedStatus_def demo_bundle_leaf demo_cert_def demo_renewal)
  have c: "coversSubject demo_kenv demo_leaf (kcSubject (kcSpec (demo_cert [])))"
    by (simp add: coversSubject_def demo_cert_def)
  from issue_then_current [OF i demo_env_laws demo_env_pkcs8 demo_manager_laws(1,2) demo_clean(2,1) demo_read demo_stored demo_now demo_leafOf c r]
  show ?thesis using r by simp
qed

theorem issue_repeats_witness:
  "\<exists>reason. issuanceNeeded demo_kenv demo_manager (mainReconciler demo_kenv ''ns'') (demo_cert ''Acme'') demo_after
     = ((reason, None, True), demo_after)"
proof -
  have i: "issue demo_kenv demo_manager (mainReconciler demo_kenv ''ns'') (demo_cert ''Acme'') (0, demo_prun, demo_store)
    = Some (Inr (issuedStatus (demo_cert ''Acme'') demo_pair), demo_after)" by (rule demo_issue) simp
  have c: "\<not> coversSubject demo_kenv demo_leaf (kcSubject (kcSpec (demo_cert ''Acme'')))"
    by (simp add: coversSubject_def demo_cert_def demo_leaf_def containsFold_def)
  show ?thesis
    by (rule issue_repeats [OF i demo_env_laws demo_env_pkcs8 demo_manager_laws(1,2) demo_clean(2,1) demo_read demo_stored demo_leafOf c])
qed

lemma demo_due: "issuanceNeeded demo_kenv demo_manager (mainReconciler demo_kenv ''ns'') (demo_cert []) (0, [], [])
    = ((''secret ns/tls does not exist'', None, True), (0, [], []))"
  by (simp add: issuanceNeeded_def demo_manager_def demo_getSecret_def secretNsName_def demo_cert_def nsnameString_def)

lemma demo_reconcile:
  "\<exists>c' res err. reconcileCertificate demo_kenv demo_manager (mainReconciler demo_kenv ''ns'') (demo_cert []) (0, [], [])
     = Some ((c', res, err), (0, [], []))"
proof -
  have "getSecret demo_manager n (0, [], []) = (Inl \<lparr>apiErrText = ''not found'', apiNotFound = True\<rparr>, (0, [], []))" for n
    by (simp add: demo_manager_def demo_getSecret_def)
  then obtain e where "issue demo_kenv demo_manager (mainReconciler demo_kenv ''ns'') (demo_cert []) (0, [], [])
      = Some (Inl e, (0, [], []))" by (simp add: issue_def demo_resolve)
  moreover have "recordEvent demo_manager c t r m w = w" for c t r m w by (simp add: demo_manager_def)
  ultimately show ?thesis by (simp add: reconcileCertificate_def demo_due setReady_def demo_clock_read)
qed

theorem reconcile_outcome_witness:
  "\<exists>c' res err cond. reconcileCertificate demo_kenv demo_manager (mainReconciler demo_kenv ''ns'') (demo_cert []) (0, [], [])
       = Some ((c', res, err), (0, [], []))
     \<and> conditionMap (Conditions (Status c')) KMPCertificateConditionReady = Some cond"
proof -
  obtain c' res err where e: "reconcileCertificate demo_kenv demo_manager (mainReconciler demo_kenv ''ns'') (demo_cert []) (0, [], [])
       = Some ((c', res, err), (0, [], []))" using demo_reconcile by blast
  with reconcile_outcome [OF e] show ?thesis by blast
qed

theorem lifecycle_status_witness:
  "\<exists>c' res err. reconcileCertificate demo_kenv demo_manager (mainReconciler demo_kenv ''ns'') (demo_cert []) (0, [], [])
       = Some ((c', res, err), (0, [], [])) \<and> status_ok (Status c')"
proof -
  obtain c' res err where e: "reconcileCertificate demo_kenv demo_manager (mainReconciler demo_kenv ''ns'') (demo_cert []) (0, [], [])
       = Some ((c', res, err), (0, [], []))" using demo_reconcile by blast
  have "lifecycle demo_kenv demo_manager (mainReconciler demo_kenv ''ns'') (demo_cert [])"
    by (rule lifecycle.created) (simp add: demo_cert_def)
  from lifecycle.reconciled [OF this e] have "status_ok (Status c')" by (rule lifecycle_status)
  with e show ?thesis by blast
qed

theorem Reconcile_returns_witness:
  "\<exists>r. Reconcile demo_kenv demo_manager (mainReconciler demo_kenv ''ns'') (''ns'', ''cert'') (0, [], []) = Some r"
  by (rule Reconcile_returns [OF demo_clock])

theorem keyStorePassword_spec_witness:
  "keyStorePassword demo_kenv demo_manager (demo_cert []) demo_after = (Inr (demo_password, True), demo_after) \<and> length demo_password = 32"
proof -
  have k: "keyStorePassword demo_kenv demo_manager (demo_cert []) demo_after = (Inr (demo_password, True), demo_after)"
    by (simp add: keyStorePassword_def generatePassword_def demo_manager_def demo_cert_def demo_password_def)
  with keyStorePassword_spec [OF demo_manager_laws(3) k] show ?thesis by blast
qed

lemma demo_current:
  "issuanceNeeded demo_kenv demo_manager (mainReconciler demo_kenv ''ns'') (demo_cert []) demo_after
     = (([], Some 667, False), demo_after)"
proof -
  have "dataAt (Data demo_written) TLSCertKey \<noteq> []" "dataAt (Data demo_written) TLSPrivateKeyKey \<noteq> []"
    "matchesSpec demo_kenv demo_leaf (kcSpec (demo_cert [])) = []" by code_simp+
  moreover have "kcRenewBefore (kcSpec (demo_cert [])) = None" by (simp add: demo_cert_def)
  ultimately show ?thesis by (simp add: issuanceNeeded_def demo_read demo_leafOf demo_now demo_renewal)
qed

theorem Reconcile_quiescent_witness:
  "\<exists>c'. reconcileCertificate demo_kenv demo_manager (mainReconciler demo_kenv ''ns'') (demo_cert []) demo_after
     = Some ((c', \<lparr>RequeueAfter = second\<rparr>, None), demo_after) \<and> settled c'"
proof -
  have g: "getKMPCertificate demo_manager (''ns'', ''cert'') demo_after = (Inr (demo_cert []), demo_after)"
    by (simp add: demo_manager_def)
  have d: "DeletionTimestamp (demo_cert []) = None" by (simp add: demo_cert_def)
  have u: "until demo_kenv (mainReconciler demo_kenv ''ns'') (Some 667) demo_after = (second, demo_after)"
    by (simp add: until_def demo_now timeSub_def second_def)
  from Reconcile_quiescent [OF g d demo_current demo_clock_read u] show ?thesis by blast
qed

theorem misconfigured_issuer_is_retried_witness:
  "\<exists>e'. issue demo_kenv demo_manager (mainReconciler demo_kenv ''ns'') (demo_cert [])
       (0, [], [((''ns'', ''auth''), demo_auth\<lparr>Data := []\<rparr>)]) = Some (Inl e', (0, [], [((''ns'', ''auth''), demo_auth\<lparr>Data := []\<rparr>)]))
     \<and> \<not> IsPermanent e'"
proof -
  let ?w = "(0, [], [((''ns'', ''auth''), demo_auth\<lparr>Data := []\<rparr>)]) :: demo_kworld"
  have g: "getSecret demo_manager (''ns'', AuthSecretName demo_spec) ?w = (Inr (demo_auth\<lparr>Data := []\<rparr>), ?w)"
    by (simp add: demo_manager_def demo_getSecret_def demo_spec_def)
  have k: "keyStorePassword demo_kenv demo_manager (demo_cert []) ?w = (Inr (demo_password, True), ?w)"
    by (simp add: keyStorePassword_def generatePassword_def demo_manager_def demo_cert_def demo_password_def)
  have "trimSpace [] = []" by code_simp
  then obtain e where e: "signerFromIssuerAndSecretData demo_kenv (Some demo_spec) (Data (demo_auth\<lparr>Data := []\<rparr>)) = Inl e"
    by (simp add: signerFromIssuerAndSecretData_def dataAt_def)
  from misconfigured_issuer_is_retried [OF demo_resolve g k e] show ?thesis by blast
qed

end
