(* ===== verification/Requests.thy ===== *)
theory Requests
  imports ReconcilerSpec
begin

text \<open>
  The order of the requests: what the server sees of one signing, one provisioning and one
  reconciliation. A flow is a walk through a state machine with one transition per request, so a
  request is stored before it is looked up or signed, signed at most once, and fetched and exported
  only after that. The state of the world is observed through \<open>sent\<close>, the requests sent so far.
\<close>

section \<open>Observing the requests\<close>

definition sent_by :: "('w, 'r) env_scheme \<Rightarrow> ('w \<Rightarrow> http_request list) \<Rightarrow> bool" where
  "sent_by E sent \<longleftrightarrow> (\<forall>hc r w. sent (snd (httpDo E hc r w)) = sent w @ [r])
     \<and> (\<forall>w. sent (snd (boundary E w)) = sent w) \<and> (\<forall>w. sent (snd (clock E w)) = sent w)
     \<and> (\<forall>d w. sent (snd (waitFor E d w)) = sent w)"

lemma sent_by_simps:
  assumes "sent_by E sent"
  shows "httpDo E hc r w = (x, w') \<Longrightarrow> sent w' = sent w @ [r]" and "boundary E w = (b, w') \<Longrightarrow> sent w' = sent w"
    and "clock E w = (t, w') \<Longrightarrow> sent w' = sent w" and "waitFor E d w = (y, w') \<Longrightarrow> sent w' = sent w"
  using assms unfolding sent_by_def by (metis snd_conv)+

text \<open>A label is a method and an operation; a request that a client makes for it carries its token.\<close>

type_synonym label = "string \<times> string"

definition request_for :: "('w, 'r) env_scheme \<Rightarrow> Client \<Rightarrow> label \<Rightarrow> http_request \<Rightarrow> bool" where
  "request_for E c l r \<longleftrightarrow> httpMethod r = fst l
     \<and> (\<exists>q. httpURL r = urlString E ((endpoint c (snd l))\<lparr>RawQuery := q\<rparr>))
     \<and> map_of (httpHeaders r) ''Authtoken'' = Some (authToken c)"

lemma map_of_setField [simp]: "map_of (setField k v fs) = (map_of fs)(k \<mapsto> v)"
  by (induction k v fs rule: setField.induct) auto

lemma requestHeaders_token: "map_of (requestHeaders c ct) ''Authtoken'' = Some (authToken c)"
proof -
  have "canonicalHeader True authTokenHeader = ''Authtoken''" "canonicalHeader True ''Accept'' \<noteq> ''Authtoken''"
    "canonicalHeader True ''Content-Type'' \<noteq> ''Authtoken''" "canonicalHeader True ''User-Agent'' \<noteq> ''Authtoken''"
    by code_simp+
  then show ?thesis by (simp add: requestHeaders_def headerSet_def Let_def)
qed

text \<open>At most one request for the label, and one whenever there is a result.\<close>

definition sends :: "('w, 'r) env_scheme \<Rightarrow> ('w \<Rightarrow> http_request list) \<Rightarrow> Client \<Rightarrow> label \<Rightarrow> 'w \<Rightarrow> (goerr + 'a) \<times> 'w \<Rightarrow> bool" where
  "sends E sent c l w r \<longleftrightarrow> (\<exists>rs. sent (snd r) = sent w @ rs \<and> length rs \<le> 1 \<and> list_all (request_for E c l) rs
     \<and> (\<forall>x. fst r = Inr x \<longrightarrow> rs \<noteq> []))"

lemma sends_quiet: "sent w' = sent w \<Longrightarrow> sends E sent c l w (Inl e, w')"
  by (auto simp: sends_def)

lemma sends_result: "sends E sent c l w (Inr x, w') \<Longrightarrow> sends E sent c l w (r, w')"
  by (auto simp: sends_def)

lemma sends_error: "sends E sent c l w (r, w') \<Longrightarrow> sends E sent c l w (Inl e, w')"
  by (auto simp: sends_def)

lemma sends_after: "sends E sent c l w1 r \<Longrightarrow> sent w1 = sent w \<Longrightarrow> sends E sent c l w r"
  by (simp add: sends_def)

section \<open>The operations\<close>

lemma doRequest_sends:
  assumes "sent_by E sent"
  shows "sends E sent c (meth, op) w (doRequest E c meth op query bdy ct w)"
proof -
  let ?ep = "if query \<noteq> [] then (endpoint c op)\<lparr>RawQuery := encodeQuery query\<rparr> else endpoint c op"
  let ?r = "\<lparr>httpMethod = meth, httpURL = urlString E ?ep, httpHeaders = requestHeaders c ct, httpBody = bdy\<rparr>"
  have "\<exists>q. ?ep = (endpoint c op)\<lparr>RawQuery := q\<rparr>"
  proof (cases "query = []")
    case True
    moreover have "endpoint c op = (endpoint c op)\<lparr>RawQuery := []\<rparr>" by (simp add: endpoint_def)
    ultimately show ?thesis by metis
  qed auto
  then have r: "request_for E c (meth, op) ?r" by (fastforce simp: request_for_def requestHeaders_token)
  show ?thesis
  proof (cases "newRequestError E meth (urlString E ?ep)")
    case None
    obtain x w' where x: "httpDo E (httpClient c) ?r w = (x, w')" by fastforce
    then have "sent w' = sent w @ [?r]" by (rule sent_by_simps(1) [OF assms])
    then have "sends E sent c (meth, op) w (y, w')" for y :: "goerr + int \<times> bytes" using r by (auto simp: sends_def)
    then show ?thesis by (cases x) (simp_all add: doRequest_def Let_def None x)
  qed (simp add: doRequest_def Let_def sends_quiet)
qed

lemma call_sends:
  assumes "sent_by E sent"
  shows "sends E sent c (meth, op) w (call E c meth op query bdy ct w)"
  using doRequest_sends [OF assms, of c meth op w query bdy ct]
  by (auto simp: call_def split: op_splits intro: sends_result sends_error)

lemma callRaw_sends:
  assumes "sent_by E sent"
  shows "sends E sent c (meth, op) w (callRaw E c meth op query w)"
  using doRequest_sends [OF assms, of c meth op w query "[]" "[]"]
  by (auto simp: callRaw_def split: op_splits intro: sends_result sends_error)

text \<open>An operation that makes one call and then decides what to return.\<close>

lemma sends_then:
  assumes "sends E sent c l w k" and "\<And>x w'. snd (f x w') = w'"
  shows "sends E sent c l w (case k of (Inl e, w') \<Rightarrow> (Inl e, w') | (Inr x, w') \<Rightarrow> f x w')"
proof -
  obtain x w' where k: "k = (x, w')" by fastforce
  then show ?thesis
  proof (cases x)
    case (Inr y)
    obtain r w'' where f: "f y w' = (r, w'')" by fastforce
    then have "w'' = w'" using assms(2) [of y w'] by simp
    with f k Inr assms(1) show ?thesis by (auto intro: sends_result)
  qed (use assms(1) in \<open>auto intro: sends_error\<close>)
qed

lemma ImportCSR_sends:
  assumes "sent_by E sent"
  shows "sends E sent c (''POST'', opImportCSR) w (ImportCSR E c csr email w)"
proof (cases "csr = []")
  case False
  obtain b w1 where b: "boundary E w = (b, w1)" by fastforce
  then have w1: "sent w1 = sent w" by (rule sent_by_simps(2) [OF assms])
  show ?thesis
    using False by (auto simp: ImportCSR_def inputData_def b intro!: sends_then sends_after [OF call_sends [OF assms] w1])
qed (simp add: ImportCSR_def sends_quiet)

lemma FindCSRID_sends:
  assumes "sent_by E sent"
  shows "sends E sent c (''GET'', operation) w (FindCSRID E c operation cn w)"
proof (cases "operation = [] \<or> cn = []")
  case False
  show ?thesis
    using False by (auto simp: FindCSRID_def inputData_def Let_def intro!: sends_then call_sends [OF assms] split: option.split sum.split)
qed (auto simp: FindCSRID_def sends_quiet)

lemma SignCSR_sends:
  assumes "sent_by E sent"
  shows "sends E sent c (''POST'', opSignCSR) w (SignCSR E c req w)"
proof (cases "CSRID req = []")
  case False
  show ?thesis
    using False by (auto simp: SignCSR_def inputData_def Let_def intro!: sends_then call_sends [OF assms] split: option.split sum.split)
qed (simp add: SignCSR_def sends_quiet)

lemma GetCertificate_sends:
  assumes "sent_by E sent"
  shows "sends E sent c (''GET'', opGetCertificate) w (GetCertificate E c cn sn w)"
proof (cases "cn = [] \<and> sn = []")
  case False
  show ?thesis
    using False by (auto simp: GetCertificate_def inputData_def intro!: sends_then call_sends [OF assms] split: option.split sum.split)
qed (simp add: GetCertificate_def sends_quiet)

lemma CreateCSR_sends:
  assumes "sent_by E sent"
  shows "sends E sent c (''POST'', opCreateCSR) w (CreateCSR E c req w)"
proof (cases "trimSpace (CC_CommonName req) = []")
  case False
  show ?thesis
    using False by (auto simp: CreateCSR_def inputData_def Let_def intro!: sends_then call_sends [OF assms] split: option.split sum.split)
qed (simp add: CreateCSR_def sends_quiet)

lemma ExportCSR_sends:
  assumes "sent_by E sent"
  shows "sends E sent c (''GET'', opExportCSR) w (ExportCSR E c i ft w)"
  using callRaw_sends [OF assms] by (simp add: ExportCSR_def inputData_def sends_quiet)

section \<open>The flows\<close>

text \<open>
  How far a flow has come. It enters by storing a request, imported or created; the request may
  be looked up; it is signed; the certificate is fetched, in as many attempts as it takes; and the
  key may be exported.
\<close>

datatype phase = Initial | Stored | Located | Signed | Fetched | Exported

inductive flow_step :: "string \<Rightarrow> string \<Rightarrow> phase \<Rightarrow> label \<Rightarrow> phase \<Rightarrow> bool" for entry lookup where
  store: "flow_step entry lookup Initial (''POST'', entry) Stored"
| locate: "flow_step entry lookup Stored (''GET'', lookup) Located"
| sign: "p \<in> {Stored, Located} \<Longrightarrow> flow_step entry lookup p (''POST'', opSignCSR) Signed"
| fetch: "p \<in> {Signed, Fetched} \<Longrightarrow> flow_step entry lookup p (''GET'', opGetCertificate) Fetched"
| export: "flow_step entry lookup Fetched (''GET'', opExportCSR) Exported"

inductive_cases flow_stepE: "flow_step entry lookup p l q"

inductive flow :: "string \<Rightarrow> string \<Rightarrow> label list \<Rightarrow> phase \<Rightarrow> bool" for entry lookup where
  start: "flow entry lookup [] Initial"
| step: "flow entry lookup ls p \<Longrightarrow> flow_step entry lookup p l q \<Longrightarrow> flow entry lookup (ls @ [l]) q"

text \<open>In every flow a request is stored once, signed at most once and exported at most once.\<close>

lemma flow_counts:
  assumes "flow entry lookup ls p" and "entry \<noteq> opSignCSR"
  shows "count_list ls (''POST'', entry) = (if p = Initial then 0 else 1)
    \<and> count_list ls (''POST'', opSignCSR) = (if p \<in> {Signed, Fetched, Exported} then 1 else 0)"
  using assms
proof (induction rule: flow.induct)
  case (step ls p l q)
  then show ?case by (auto elim!: flow_stepE)
qed simp

lemma flow_at_most_once:
  assumes "flow entry lookup ls p" and "entry \<noteq> opSignCSR"
  shows "count_list ls (''POST'', entry) \<le> 1 \<and> count_list ls (''POST'', opSignCSR) \<le> 1"
  using flow_counts [OF assms] by (metis (full_types) le_refl zero_le)

lemma flow_posts:
  assumes "flow entry lookup ls p" and "entry \<noteq> opSignCSR"
  shows "count_list ls (''POST'', op) \<le> (if op \<in> {entry, opSignCSR} then 1 else 0)"
proof (cases "op \<in> {entry, opSignCSR}")
  case True
  then show ?thesis using flow_at_most_once [OF assms] by auto
next
  case False
  from assms(1) have "(''POST'', op) \<notin> set ls"
    by (induction rule: flow.induct) (use False in \<open>auto elim!: flow_stepE\<close>)
  then show ?thesis by (simp add: count_notin)
qed

lemma flow_single: "flow entry lookup [l] p \<Longrightarrow> l = (''POST'', entry)"
  by (auto elim!: flow.cases [of _ _ _ p] flow_stepE elim: flow.cases)

text \<open>The key leaves the server only in a flow that has come to its end; certificates come after a signature.\<close>

lemma flow_keeps_key:
  assumes "flow entry lookup ls p" and "p \<noteq> Exported" and "lookup \<noteq> opExportCSR"
  shows "(''GET'', opExportCSR) \<notin> set ls"
proof -
  have "opGetCertificate \<noteq> opExportCSR" by (simp add: opGetCertificate_def opExportCSR_def)
  with assms show ?thesis
  proof (induction rule: flow.induct)
    case (step ls p l q)
    then show ?case by (auto elim!: flow_stepE)
  qed simp
qed

text \<open>The requests sent between two states of the world are a flow that has come to a phase.\<close>

definition conforms :: "('w, 'r) env_scheme \<Rightarrow> ('w \<Rightarrow> http_request list) \<Rightarrow> Client \<Rightarrow> string \<Rightarrow> string \<Rightarrow> 'w \<Rightarrow> phase \<Rightarrow> 'w \<Rightarrow> bool" where
  "conforms E sent c entry lookup w p w' \<longleftrightarrow>
     (\<exists>ls rs. flow entry lookup ls p \<and> sent w' = sent w @ rs \<and> list_all2 (request_for E c) ls rs)"

lemma conforms_start: "sent w' = sent w \<Longrightarrow> conforms E sent c entry lookup w Initial w'"
  by (auto simp: conforms_def intro: flow.start)

lemma conforms_quiet: "conforms E sent c entry lookup w p w1 \<Longrightarrow> sent w2 = sent w1 \<Longrightarrow> conforms E sent c entry lookup w p w2"
  by (simp add: conforms_def)

lemma conforms_sends:
  assumes "conforms E sent c entry lookup w p w1" and "sends E sent c l w1 (r, w2)" and "flow_step entry lookup p l q"
  obtains p' where "conforms E sent c entry lookup w p' w2" and "p' = p \<or> p' = q" and "\<And>x. r = Inr x \<Longrightarrow> p' = q"
proof -
  from assms(1) obtain ls rs where f: "flow entry lookup ls p" "sent w1 = sent w @ rs" "list_all2 (request_for E c) ls rs"
    by (auto simp: conforms_def)
  from assms(2) obtain ts where t: "sent w2 = sent w1 @ ts" "length ts \<le> 1" "list_all (request_for E c l) ts"
    "\<And>x. r = Inr x \<Longrightarrow> ts \<noteq> []" by (auto simp: sends_def)
  show ?thesis
  proof (cases ts)
    case Nil
    with f t that [of p] show ?thesis by (auto simp: conforms_def)
  next
    case (Cons x xs)
    with t(2) have ts: "ts = [x]" by simp
    have "list_all2 (request_for E c) (ls @ [l]) (rs @ [x])" using f(3) t(3) by (simp add: ts list_all2_appendI)
    then have "conforms E sent c entry lookup w q w2"
      unfolding conforms_def using flow.step [OF f(1) assms(3)] f(2) t(1) by (metis append.assoc ts)
    with that show ?thesis by blast
  qed
qed

text \<open>Polling: any number of attempts, at least one when there is a result.\<close>

definition polls :: "('w, 'r) env_scheme \<Rightarrow> ('w \<Rightarrow> http_request list) \<Rightarrow> Client \<Rightarrow> 'w \<Rightarrow> (goerr + 'a) \<times> 'w \<Rightarrow> bool" where
  "polls E sent c w r \<longleftrightarrow> (\<exists>rs. sent (snd r) = sent w @ rs \<and> list_all (request_for E c (''GET'', opGetCertificate)) rs
     \<and> (\<forall>x. fst r = Inr x \<longrightarrow> rs \<noteq> []))"

lemma sends_polls: "sends E sent c (''GET'', opGetCertificate) w r \<Longrightarrow> polls E sent c w r"
  by (auto simp: sends_def polls_def)

lemma polls_quiet: "polls E sent c w (r, w1) \<Longrightarrow> sent w2 = sent w1 \<Longrightarrow> polls E sent c w (Inl e, w2)"
  by (auto simp: polls_def)

lemma polls_trans: "polls E sent c w (Inl e, w1) \<Longrightarrow> sent w2 = sent w1 \<Longrightarrow> polls E sent c w2 r \<Longrightarrow> polls E sent c w r"
  by (fastforce simp: polls_def)

lemma fetchLoop_polls:
  fixes E :: "('w, 'r) env_scheme"
  assumes "fetchLoop E c cn sn interval deadline w = Some r" and "sent_by E sent"
  shows "polls E sent c w r"
proof -
  have "sent_by E sent \<longrightarrow> polls E sent c w r"
  proof (rule fetchLoop.raw_induct [where P = "\<lambda>E c cn sn i d w r. sent_by E sent \<longrightarrow> polls E sent c w r", OF _ assms(1)], rule impI)
    fix loop and E :: "('w, 'r) env_scheme" and c cn sn interval deadline w r
    assume IH: "\<And>E c cn sn i d w r. loop E c cn sn i d w = Some r \<Longrightarrow> sent_by E sent \<longrightarrow> polls E sent c w r"
      and E: "sent_by E sent"
      and body: "(case GetCertificate E c cn sn w of
          (Inl err, w1) \<Rightarrow>
          if IsPermanent err then Some (Inl err, w1)
          else (case clock E w1 of (t, w2) \<Rightarrow>
            if deadline < t + interval then Some (Inl err, w2)
            else (case waitFor E interval w2 of
              (None, w3) \<Rightarrow> loop E c cn sn interval deadline w3
            | (Some e, w3) \<Rightarrow> Some (Inl (Joined [err, ErrText e]), w3)))
        | (Inr certs, w1) \<Rightarrow> Some (Inr certs, w1)) = Some r"
    obtain g w1 where g: "GetCertificate E c cn sn w = (g, w1)" by fastforce
    then have g1: "polls E sent c w (g, w1)" using sends_polls [OF GetCertificate_sends [OF E]] by metis
    obtain t w2 where t: "clock E w1 = (t, w2)" by fastforce
    obtain x w3 where x: "waitFor E interval w2 = (x, w3)" by fastforce
    have w: "sent w2 = sent w1" "sent w3 = sent w1" using sent_by_simps(3,4) [OF E] t x by metis+
    show "polls E sent c w r"
    proof (cases g)
      case (Inl err)
      have "polls E sent c w r" if "loop E c cn sn interval deadline w3 = Some r"
        using polls_trans [OF g1 [unfolded Inl] w(2)] IH [OF that] E by blast
      then show ?thesis using body polls_quiet [OF g1] w g1
        by (cases x) (auto simp: g Inl t x split: if_splits)
    qed (use body g1 in \<open>simp add: g\<close>)
  qed
  then show ?thesis using assms(2) by blast
qed

lemma fetchCertificate_polls:
  assumes "sent_by E sent" and "fetchCertificate E s cn sn w = Some r"
  shows "polls E sent (client s) w r"
proof -
  obtain t w1 where t: "clock E w = (t, w1)" by fastforce
  then have "polls E sent (client s) w1 r" using fetchLoop_polls [OF _ assms(1)] assms(2) by (simp add: fetchCertificate_def)
  then show ?thesis using sent_by_simps(3) [OF assms(1) t] by (simp add: polls_def)
qed

lemma conforms_polls:
  assumes "conforms E sent c entry lookup w Signed w1" and "polls E sent c w1 (r, w2)"
  obtains p where "conforms E sent c entry lookup w p w2" and "p = Signed \<or> p = Fetched" and "\<And>x. r = Inr x \<Longrightarrow> p = Fetched"
proof -
  from assms(1) obtain ls rs where f: "flow entry lookup ls Signed" "sent w1 = sent w @ rs" "list_all2 (request_for E c) ls rs"
    by (auto simp: conforms_def)
  from assms(2) obtain ts where t: "sent w2 = sent w1 @ ts" "list_all (request_for E c (''GET'', opGetCertificate)) ts"
    "\<And>x. r = Inr x \<Longrightarrow> ts \<noteq> []" by (auto simp: polls_def)
  have "flow entry lookup (ls @ replicate n (''GET'', opGetCertificate)) (if n = 0 then Signed else Fetched)" for n
  proof (induction n)
    case (Suc n)
    then show ?case using flow.step [OF Suc flow_step.fetch] by (auto simp: replicate_append_same [symmetric])
  qed (simp add: f(1))
  moreover have "list_all2 (request_for E c) (ls @ replicate (length ts) (''GET'', opGetCertificate)) (rs @ ts)"
    using f(3) t(2) by (intro list_all2_appendI) (auto simp: list_all2_conv_all_nth list_all_length)
  ultimately have "conforms E sent c entry lookup w (if length ts = 0 then Signed else Fetched) w2"
    unfolding conforms_def using f(2) t(1) by (metis append.assoc)
  with that t(3) show ?thesis by (auto split: if_splits)
qed

lemma conforms_resolve:
  assumes "sent_by E sent" and "conforms E sent (client s) entry (optCSRLookupOperation (opts s)) w Stored w1"
    and "resolveCSRID E s stored cn w1 = (r, w2)"
  obtains p where "conforms E sent (client s) entry (optCSRLookupOperation (opts s)) w p w2" and "p \<in> {Stored, Located}"
proof (cases "CSR_ID stored \<noteq> [] \<or> optCSRLookupOperation (opts s) = []")
  case True
  then have "w2 = w1" using assms(3) by (auto simp: resolveCSRID_def Let_def split: if_splits)
  with assms(2) that [of Stored] show ?thesis by simp
next
  case False
  let ?n = "if CSR_CommonName stored = [] then cn else CSR_CommonName stored"
  obtain x w3 where x: "FindCSRID E (client s) (optCSRLookupOperation (opts s)) ?n w1 = (x, w3)" by fastforce
  then have "w2 = w3" using assms(3) False by (auto simp: resolveCSRID_def Let_def split: op_splits)
  moreover have "sends E sent (client s) (''GET'', optCSRLookupOperation (opts s)) w1 (x, w3)"
    using FindCSRID_sends [OF assms(1)] x by metis
  ultimately show ?thesis
    using conforms_sends [OF assms(2) _ flow_step.locate] that by (metis insertCI)
qed

text \<open>
  The middle of both flows: from a stored request on, whatever the next steps return, the requests
  conform, and they have come to the end when there are certificates.
\<close>

lemma conforms_middle:
  fixes E :: "('w, 'r) env_scheme"
  assumes "sent_by E sent" and "conforms E sent (client s) entry (optCSRLookupOperation (opts s)) w Stored w1"
  defines "C \<equiv> \<lambda>p w'. conforms E sent (client s) entry (optCSRLookupOperation (opts s)) w p w'"
  shows "resolveCSRID E s stored cn w1 = (Inl e, w2) \<Longrightarrow> \<exists>p. C p w2 \<and> p \<noteq> Exported"
    and "resolveCSRID E s stored cn w1 = (Inr i, w2) \<Longrightarrow> SignCSR E (client s) req w2 = (Inl e, w3) \<Longrightarrow> \<exists>p. C p w3 \<and> p \<noteq> Exported"
    and "resolveCSRID E s stored cn w1 = (Inr i, w2) \<Longrightarrow> SignCSR E (client s) req w2 = (Inr x, w3) \<Longrightarrow> C Signed w3"
    and "resolveCSRID E s stored cn w1 = (Inr i, w2) \<Longrightarrow> SignCSR E (client s) req w2 = (Inr x, w3) \<Longrightarrow>
      fetchCertificate E s cn' sn w3 = Some (y, w4) \<Longrightarrow> \<exists>p. C p w4 \<and> p \<noteq> Exported \<and> (\<forall>cs. y = Inr cs \<longrightarrow> p = Fetched)"
proof -
  have located: "\<exists>p. C p w2 \<and> p \<in> {Stored, Located}" if "resolveCSRID E s stored cn w1 = (z, w2)" for z
    using conforms_resolve [OF assms(1,2) that] unfolding C_def by metis
  then show "resolveCSRID E s stored cn w1 = (Inl e, w2) \<Longrightarrow> \<exists>p. C p w2 \<and> p \<noteq> Exported" by fastforce
  have signed: "\<exists>q. C q w3 \<and> (q \<in> {Stored, Located, Signed}) \<and> (\<forall>x. z = Inr x \<longrightarrow> q = Signed)"
    if r: "resolveCSRID E s stored cn w1 = (Inr i, w2)" and z: "SignCSR E (client s) req w2 = (z, w3)" for z
  proof -
    obtain p where p: "C p w2" "p \<in> {Stored, Located}" using located [OF r] by blast
    have "sends E sent (client s) (''POST'', opSignCSR) w2 (z, w3)" using SignCSR_sends [OF assms(1)] z by metis
    from conforms_sends [OF p(1) [unfolded C_def] this flow_step.sign [OF p(2)]] show ?thesis
      using p(2) unfolding C_def by (metis insertCI insertE)
  qed
  show "resolveCSRID E s stored cn w1 = (Inr i, w2) \<Longrightarrow> SignCSR E (client s) req w2 = (Inl e, w3) \<Longrightarrow> \<exists>p. C p w3 \<and> p \<noteq> Exported"
    using signed by fastforce
  show s: "resolveCSRID E s stored cn w1 = (Inr i, w2) \<Longrightarrow> SignCSR E (client s) req w2 = (Inr x, w3) \<Longrightarrow> C Signed w3"
    using signed by blast
  assume r: "resolveCSRID E s stored cn w1 = (Inr i, w2)" and x: "SignCSR E (client s) req w2 = (Inr x, w3)"
    and f: "fetchCertificate E s cn' sn w3 = Some (y, w4)"
  have "C Signed w3" using r x by (rule s)
  from conforms_polls [OF this [unfolded C_def] fetchCertificate_polls [OF assms(1) f]]
  show "\<exists>p. C p w4 \<and> p \<noteq> Exported \<and> (\<forall>cs. y = Inr cs \<longrightarrow> p = Fetched)"
    unfolding C_def by (metis phase.distinct(27) phase.distinct(29))
qed

lemma Sign_conforms:
  assumes "sent_by E sent" and "Sign E s req w = Some (r, w')"
  shows "\<exists>p. conforms E sent (client s) opImportCSR (optCSRLookupOperation (opts s)) w p w' \<and> p \<noteq> Exported
    \<and> (\<forall>b. r = Inr b \<longrightarrow> p = Fetched)"
proof (cases "ParseCSR E (CSRPEM req)")
  case (Inl e)
  with assms(2) have "w' = w" "\<And>b. r \<noteq> Inr b" by (auto simp: Sign_def)
  then show ?thesis using conforms_start [of sent w' w] by (metis phase.distinct(9))
next
  case (Inr csr)
  note csr = Inr
  obtain i w1 where i: "ImportCSR E (client s) (CSRPEM req) (optEmail (opts s)) w = (i, w1)" by fastforce
  have "sends E sent (client s) (''POST'', opImportCSR) w (i, w1)" using ImportCSR_sends [OF assms(1)] i by metis
  from conforms_sends [OF conforms_start [OF refl] this flow_step.store]
  obtain p where p: "conforms E sent (client s) opImportCSR (optCSRLookupOperation (opts s)) w p w1" "p = Initial \<or> p = Stored"
    "\<And>x. i = Inr x \<Longrightarrow> p = Stored" by metis
  show ?thesis
  proof (cases i)
    case (Inl e)
    with assms(2) p(1,2) csr i show ?thesis by (auto simp: Sign_def)
  next
    case (Inr stored)
    note m = conforms_middle [OF assms(1) p(1) [unfolded p(3) [OF Inr]], of stored "csrCommonName csr"]
    show ?thesis using assms(2) csr i Inr by (auto simp: Sign_def Let_def split: op_splits dest: m)
  qed
qed

lemma Provision_conforms:
  assumes "sent_by E sent" and "Provision E s req w = Some (r, w')"
  shows "\<exists>p. conforms E sent (client s) opCreateCSR (optCSRLookupOperation (opts s)) w p w' \<and> (\<forall>pc. r = Inr pc \<longrightarrow> p = Exported)"
proof (cases "trimSpace (pCommonName req) = [] \<or> pPassword req = []")
  case True
  with assms(2) have "w' = w" "\<And>b. r \<noteq> Inr b" by (auto simp: Provision_def split: if_splits)
  then show ?thesis using conforms_start [of sent w' w] by metis
next
  case False
  let ?C = "conforms E sent (client s) opCreateCSR (optCSRLookupOperation (opts s)) w"
  obtain i w1 where i: "CreateCSR E (client s) (createRequest req) w = (i, w1)" by fastforce
  have "sends E sent (client s) (''POST'', opCreateCSR) w (i, w1)" using CreateCSR_sends [OF assms(1)] i by metis
  from conforms_sends [OF conforms_start [OF refl] this flow_step.store]
  obtain p where p: "?C p w1" "\<And>x. i = Inr x \<Longrightarrow> p = Stored" by metis
  have exported: "\<exists>q. ?C q w2 \<and> (\<forall>pc. x = Inr pc \<longrightarrow> q = Exported)"
    if c: "?C Fetched w1" and e: "exportKey E s req certs csrID sn w1 = (x, w2)" for certs csrID sn w1 w2 x
  proof -
    obtain y w3 where y: "ExportCSR E (client s) csrID (pExportFileType req) w1 = (y, w3)" by fastforce
    then have "sends E sent (client s) (''GET'', opExportCSR) w1 (y, w3)" using ExportCSR_sends [OF assms(1)] by metis
    from conforms_sends [OF c this flow_step.export] obtain q where "?C q w3" "\<And>z. y = Inr z \<Longrightarrow> q = Exported" by metis
    moreover have "w2 = w3" "\<And>pc. x = Inr pc \<Longrightarrow> \<exists>z. y = Inr z" using e y by (auto simp: exportKey_def split: op_splits)
    ultimately show ?thesis by metis
  qed
  show ?thesis
  proof (cases i)
    case (Inl e)
    with assms(2) p(1) False i show ?thesis by (auto simp: Provision_def)
  next
    case (Inr stored)
    note m = conforms_middle [OF assms(1) p(1) [unfolded p(2) [OF Inr]], of stored "pCommonName req"]
    have ended: "\<exists>q. ?C q w5 \<and> ((\<exists>pc. x = Inr pc) \<longrightarrow> q = Exported)"
      if "resolveCSRID E s stored (pCommonName req) w1 = (Inr j, w2)" "SignCSR E (client s) sr w2 = (Inr g, w3)"
        "fetchCertificate E s cn sn w3 = Some (Inr certs, w4)" "exportKey E s req certs csrID sn' w4 = (x, w5)"
      for j w2 sr g w3 cn sn certs w4 csrID sn' x w5
      using m(4) [OF that(1-3)] exported [OF _ that(4)] by blast
    show ?thesis using assms(2) False i Inr by (auto simp: Provision_def Let_def split: op_splits dest: m intro: ended)
  qed
qed

section \<open>The controllers\<close>

text \<open>The Kubernetes API, the recorder and the random source send nothing to Key Manager Plus.\<close>

definition cluster_quiet :: "('w, 'k) cluster_scheme \<Rightarrow> ('w \<Rightarrow> http_request list) \<Rightarrow> bool" where
  "cluster_quiet K sent \<longleftrightarrow> (\<forall>n w. sent (snd (getSecret K n w)) = sent w)"

definition manager_quiet :: "('w, 'k) manager_scheme \<Rightarrow> ('w \<Rightarrow> http_request list) \<Rightarrow> bool" where
  "manager_quiet K sent \<longleftrightarrow> cluster_quiet K sent
     \<and> (\<forall>n w. sent (snd (getKMPCertificate K n w)) = sent w) \<and> (\<forall>n w. sent (snd (getKMPIssuer K n w)) = sent w)
     \<and> (\<forall>n w. sent (snd (getKMPClusterIssuer K n w)) = sent w)
     \<and> (\<forall>n f w. sent (snd (createOrUpdateSecret K n f w)) = sent w)
     \<and> (\<forall>c w. sent (snd (statusUpdate K c w)) = sent w)
     \<and> (\<forall>c t r m w. sent (recordEvent K c t r m w) = sent w)
     \<and> (\<forall>n w. sent (snd (randomBytes K n w)) = sent w)"

lemma quiet:
  assumes "manager_quiet K sent"
  shows "getSecret K n w = (x1, w') \<Longrightarrow> sent w' = sent w" and "getKMPCertificate K n w = (x2, w') \<Longrightarrow> sent w' = sent w"
    and "getKMPIssuer K n w = (x3, w') \<Longrightarrow> sent w' = sent w" and "getKMPClusterIssuer K n w = (x4, w') \<Longrightarrow> sent w' = sent w"
    and "createOrUpdateSecret K n f w = (x5, w') \<Longrightarrow> sent w' = sent w" and "statusUpdate K c w = (x6, w') \<Longrightarrow> sent w' = sent w"
    and "sent (recordEvent K c t r m w) = sent w" and "randomBytes K k w = (x7, w') \<Longrightarrow> sent w' = sent w"
  using assms unfolding manager_quiet_def cluster_quiet_def by (metis snd_conv)+

lemma conforms_from: "sent w1 = sent w \<Longrightarrow> conforms E sent c entry lookup w1 p w2 \<Longrightarrow> conforms E sent c entry lookup w p w2"
  by (simp add: conforms_def)

lemma resolve_quiet:
  assumes "manager_quiet K sent" and "resolveIssuer E K r c w = (x, w')"
  shows "sent w' = sent w"
proof -
  let ?n = "(kcNamespace c, refName (kcIssuerRef (kcSpec c)))" and ?m = "([], refName (kcIssuerRef (kcSpec c)))"
  obtain i w1 where i: "getKMPIssuer K ?n w = (i, w1)" by fastforce
  obtain j w2 where j: "getKMPClusterIssuer K ?m w = (j, w2)" by fastforce
  have "w' = w \<or> w' = w1 \<or> w' = w2"
    using assms(2) unfolding resolveIssuer_def Let_def i j by (cases i; cases j) (auto split: if_splits)
  then show ?thesis using quiet(3,4) [OF assms(1)] i j by metis
qed

lemma password_quiet:
  assumes "manager_quiet K sent" and "keyStorePassword E K c w = (x, w')"
  shows "sent w' = sent w"
proof (cases "kcKeyStorePasswordSecretRef (kcSpec c)")
  case None
  then show ?thesis using assms(2) quiet(8) [OF assms(1), of 24 w]
    by (auto simp: keyStorePassword_def generatePassword_def split: sum.splits prod.splits)
next
  case (Some ref)
  then show ?thesis using assms(2) quiet(1) [OF assms(1), of "(kcNamespace c, selName ref)" w]
    by (auto simp: keyStorePassword_def Let_def split: if_splits sum.splits prod.splits)
qed

lemma write_quiet:
  assumes "manager_quiet K sent" and "writeSecret K c ch ca ke pw g w = (x, w')"
  shows "sent w' = sent w"
  using assms(2) quiet(5) [OF assms(1), of "secretNsName c" "mutateSecret (setControllerReference K) c ch ca ke pw g" w]
  by (auto simp: writeSecret_def split: option.splits prod.splits)

text \<open>
  The issuer a resource names, in the resource's namespace or, of the cluster, with its credentials in
  the namespace \<open>ns\<close>; and the data of the Secret this issuer names, both as they are read when an
  issuance starts in the state \<open>w\<close>.
\<close>

definition named_issuer :: "('w, 'k) manager_scheme \<Rightarrow> string \<Rightarrow> KMPCertificate \<Rightarrow> 'w \<Rightarrow> IssuerSpec \<Rightarrow> string \<Rightarrow> 'w \<Rightarrow> bool" where
  "named_issuer K ns c w spec n w' \<longleftrightarrow> (let ref = kcIssuerRef (kcSpec c) in
     if refKind ref \<in> {[], ''KMPIssuer''} then
       (\<exists>i. getKMPIssuer K (kcNamespace c, refName ref) w = (Inr i, w') \<and> spec = issuerSpec i \<and> n = issuerNamespace i)
     else refKind ref = ''KMPClusterIssuer''
       \<and> (\<exists>i. getKMPClusterIssuer K ([], refName ref) w = (Inr i, w') \<and> spec = clusterIssuerSpec i \<and> n = ns))"

definition secret_read :: "('w, 'k) cluster_scheme \<Rightarrow> 'w \<Rightarrow> nsname \<Rightarrow> secret_data \<Rightarrow> bool" where
  "secret_read K w name d \<longleftrightarrow> (\<exists>secret w'. getSecret K name w = (Inr secret, w') \<and> d = Data secret)"

definition issued_for :: "('w, 'k) manager_scheme \<Rightarrow> string \<Rightarrow> KMPCertificate \<Rightarrow> 'w \<Rightarrow> IssuerSpec \<Rightarrow> secret_data \<Rightarrow> bool" where
  "issued_for K ns c w spec d \<longleftrightarrow> (\<exists>n w1. named_issuer K ns c w spec n w1 \<and> secret_read K w1 (n, AuthSecretName spec) d)"

lemma resolveIssuer_named:
  "resolveIssuer E K (mainReconciler E ns) c w = (Inr (spec, n), w') \<Longrightarrow> named_issuer K ns c w spec n w'"
  by (auto simp: resolveIssuer_def named_issuer_def mainReconciler_def Let_def split: if_splits sum.splits prod.splits)

text \<open>The same for a reconciliation: the resource it reads, and that it needs a certificate.\<close>

definition reconciled_for :: "('w, 'r) env_scheme \<Rightarrow> ('w, 'k) manager_scheme \<Rightarrow> string \<Rightarrow> nsname \<Rightarrow> 'w \<Rightarrow> IssuerSpec \<Rightarrow> secret_data \<Rightarrow> bool" where
  "reconciled_for E K ns name w spec d \<longleftrightarrow> (\<exists>c w1 reason at w2. getKMPCertificate K name w = (Inr c, w1)
     \<and> issuanceNeeded E K (mainReconciler E ns) c w1 = ((reason, at, True), w2) \<and> issued_for K ns c w2 spec d)"

text \<open>Nothing is sent, or one flow with the signer of an issuer and credentials for which \<open>C\<close> holds.\<close>

definition one_flow :: "('w, 'r) env_scheme \<Rightarrow> ('w \<Rightarrow> http_request list) \<Rightarrow> (IssuerSpec \<Rightarrow> secret_data \<Rightarrow> bool) \<Rightarrow> 'w \<Rightarrow> 'w \<Rightarrow> bool" where
  "one_flow E sent C w w' \<longleftrightarrow> sent w' = sent w \<or> (\<exists>spec d p (k :: kmpSigner). C spec d
     \<and> signerFromIssuerAndSecretData E (Some spec) d = Inr k
     \<and> conforms E sent (kmpClient k) opCreateCSR (specCSRLookupOperation (Signing spec)) w p w')"

lemma one_flow_quiet: "one_flow E sent C w w1 \<Longrightarrow> sent w2 = sent w1 \<Longrightarrow> one_flow E sent C w w2"
  unfolding one_flow_def using conforms_quiet by metis

lemma one_flow_from: "one_flow E sent C w1 w2 \<Longrightarrow> sent w1 = sent w \<Longrightarrow> one_flow E sent C w w2"
  unfolding one_flow_def using conforms_from by metis

lemma one_flow_mono: "one_flow E sent C w w' \<Longrightarrow> (\<And>spec d. C spec d \<Longrightarrow> C' spec d) \<Longrightarrow> one_flow E sent C' w w'"
  unfolding one_flow_def by blast

lemma issue_provisions:
  assumes "manager_quiet K sent" and "issue E K (mainReconciler E ns) c w = Some (r, w')"
  obtains (early) e where "r = Inl e" and "sent w' = sent w"
    | (provision) spec d w1 req y w2 and k :: kmpSigner where "issued_for K ns c w spec d" and "signerFromIssuerAndSecretData E (Some spec) d = Inr k" and "sent w1 = sent w"
        and "Provision E (kmpInner k) req w1 = Some (y, w2)" and "sent w' = sent w2" and "\<And>c'. r = Inr c' \<Longrightarrow> \<exists>pc. y = Inr pc"
proof -
  obtain i w1 where i: "resolveIssuer E K (mainReconciler E ns) c w = (i, w1)" by fastforce
  note s1 = resolve_quiet [OF assms(1) i]
  show thesis
  proof (cases i)
    case (Inl e)
    with assms(2) i s1 early show thesis by (auto simp: issue_def)
  next
    case (Inr si)
    then obtain spec n where si: "i = Inr (spec, n)" by (cases si) simp
    obtain a w2 where a: "getSecret K (n, AuthSecretName spec) w1 = (a, w2)" by fastforce
    note s2 = quiet(1) [OF assms(1) a]
    obtain p w3 where p: "keyStorePassword E K c w2 = (p, w3)" by fastforce
    note s3 = password_quiet [OF assms(1) p]
    show thesis
    proof (cases "\<exists>auth pw gen k. a = Inr auth \<and> p = Inr (pw, gen) \<and> signerFromIssuerAndSecretData E (Some spec) (Data auth) = Inr k")
      case False
      with assms(2) i si a p s1 s2 s3 early show thesis
        by (cases a; cases p; cases "signerFromIssuerAndSecretData E (Some spec) (Data (projr a))")
          (auto simp: issue_def mainReconciler_builder)
    next
      case True
      then obtain auth pw gen k where k: "a = Inr auth" "p = Inr (pw, gen)" "signerFromIssuerAndSecretData E (Some spec) (Data auth) = Inr k"
        by blast
      with assms(2) i si a p obtain y w4 where y: "Provision E (kmpInner k) (provisionRequest c pw) w3 = Some (y, w4)"
        by (auto simp: issue_def mainReconciler_builder kmpSigner_Provision_def split: option.splits)
      have for_d: "issued_for K ns c w spec (Data auth)" 
        using resolveIssuer_named [OF i [unfolded si]] a k(1) unfolding issued_for_def secret_read_def by blast
      have "sent w' = sent w4" "\<And>c'. r = Inr c' \<Longrightarrow> \<exists>pc. y = Inr pc"
        using assms(2) i si a p k y
        by (auto simp: issue_def mainReconciler_builder kmpSigner_Provision_def split: sum.splits prod.splits option.splits
          dest: write_quiet [OF assms(1)])
      then show thesis using provision [OF for_d k(3) _ y] s1 s2 s3 by simp
    qed
  qed
qed

lemma issue_flow:
  assumes "sent_by E sent" and "manager_quiet K sent" and "issue E K (mainReconciler E ns) c w = Some (r, w')"
  shows "one_flow E sent (issued_for K ns c w) w w'"
  using assms(2,3)
proof (cases rule: issue_provisions)
  case (provision spec d w1 req y w2 k)
  have k: "client (kmpInner k) = kmpClient k" "opts (kmpInner k) = signingOptions spec"
    using signerFrom_Inr [OF provision(2)] by simp_all
  from Provision_conforms [OF assms(1) provision(4)] obtain p where
    p: "conforms E sent (client (kmpInner k)) opCreateCSR (optCSRLookupOperation (opts (kmpInner k))) w1 p w2" by blast
  have "conforms E sent (kmpClient k) opCreateCSR (specCSRLookupOperation (Signing spec)) w p w'"
    using conforms_from [OF provision(3) conforms_quiet [OF p provision(5)]] by (simp add: k signingOptions_def)
  then show ?thesis using provision(1,2) unfolding one_flow_def by blast
qed (simp add: one_flow_def)

lemma clock_quiet:
  assumes "sent_by E sent"
  shows "reconcilerNow E (mainReconciler E ns) w = (t, w') \<Longrightarrow> sent w' = sent w"
    and "setReady E st reason msg c w = (c', w') \<Longrightarrow> sent w' = sent w"
    and "until E (mainReconciler E ns) at w = (d, w') \<Longrightarrow> sent w' = sent w"
proof -
  show now: "reconcilerNow E (mainReconciler E ns) w = (t, w') \<Longrightarrow> sent w' = sent w" for t w w'
    using sent_by_simps(3) [OF assms] by (simp add: reconcilerNow_def mainReconciler_def)
  obtain t1 w1 where t: "clock E w = (t1, w1)" by fastforce
  show "setReady E st reason msg c w = (c', w') \<Longrightarrow> sent w' = sent w"
    using sent_by_simps(3) [OF assms t] by (auto simp: setReady_def t)
  obtain t2 w2 where u: "reconcilerNow E (mainReconciler E ns) w = (t2, w2)" by fastforce
  show "until E (mainReconciler E ns) at w = (d, w') \<Longrightarrow> sent w' = sent w"
    using now [OF u] by (auto simp: until_def u Let_def split: option.splits if_splits)
qed

lemma needed_quiet:
  assumes "sent_by E sent" and "manager_quiet K sent" and "issuanceNeeded E K (mainReconciler E ns) c w = (x, w')"
  shows "sent w' = sent w"
proof -
  obtain a w1 where a: "getSecret K (secretNsName c) w = (a, w1)" by fastforce
  obtain t w2 where t: "reconcilerNow E (mainReconciler E ns) w1 = (t, w2)" by fastforce
  have "w' = w1 \<or> w' = w2"
    using assms(3) unfolding issuanceNeeded_def Let_def a by (cases a) (auto simp: t split: if_splits sum.splits)
  then show ?thesis using quiet(1) [OF assms(2) a] clock_quiet(1) [OF assms(1) t] by auto
qed

lemma reconcileCertificate_flow:
  assumes "sent_by E sent" and "manager_quiet K sent"
    and "reconcileCertificate E K (mainReconciler E ns) c w = Some (out, w')"
  shows "one_flow E sent (\<lambda>spec d. \<exists>reason at w1. issuanceNeeded E K (mainReconciler E ns) c w = ((reason, at, True), w1)
    \<and> issued_for K ns c w1 spec d) w w'"
proof -
  obtain reason at needed w1 where n: "issuanceNeeded E K (mainReconciler E ns) c w = ((reason, at, needed), w1)"
    by (metis surj_pair)
  note s1 = needed_quiet [OF assms(1,2) n]
  note q = clock_quiet(2,3) [OF assms(1)]
  show ?thesis
  proof (cases needed)
    case False
    with assms(3) n have "sent w' = sent w1" by (auto simp: reconcileCertificate_def dest!: q split: prod.splits)
    with s1 show ?thesis by (simp add: one_flow_def)
  next
    case True
    then obtain r w2 where r: "issue E K (mainReconciler E ns) c w1 = Some (r, w2)"
      using assms(3) n by (cases "issue E K (mainReconciler E ns) c w1") (auto simp: reconcileCertificate_def)
    note i = one_flow_from [OF issue_flow [OF assms(1,2) r] s1]
    have "sent w' = sent w2"
      using assms(3) n r True quiet(7) [OF assms(2)]
      by (cases r) (auto simp: reconcileCertificate_def Let_def dest!: q split: prod.splits if_splits)
    from one_flow_quiet [OF i this] show ?thesis
      by (rule one_flow_mono) (intro exI conjI, use n True in simp)
  qed
qed

lemma Reconcile_flow:
  assumes "sent_by E sent" and "manager_quiet K sent" and "Reconcile E K (mainReconciler E ns) name w = Some (r, w')"
  shows "one_flow E sent (reconciled_for E K ns name w) w w'"
proof -
  obtain x w1 where x: "getKMPCertificate K name w = (x, w1)" by fastforce
  note s1 = quiet(2) [OF assms(2) x]
  show ?thesis
  proof (cases "\<exists>c. x = Inr c \<and> DeletionTimestamp c = None")
    case False
    with assms(3) x have "w' = w1" by (cases x) (auto simp: Reconcile_def split: if_splits)
    with s1 show ?thesis by (simp add: one_flow_def)
  next
    case True
    then obtain c where c: "x = Inr c" "DeletionTimestamp c = None" by blast
    with assms(3) x obtain out w2 where o: "reconcileCertificate E K (mainReconciler E ns) c w1 = Some (out, w2)"
        and d: "deferredUpdate K name (Status c) out w2 = (r, w')"
      by (auto simp: Reconcile_def split: option.splits)
    obtain c' res err where out: "out = (c', res, err)" by (cases out) simp
    obtain u w3 where u: "statusUpdate K c' w2 = (u, w3)" by fastforce
    have "w' = w2 \<or> w' = w3" using d by (auto simp: deferredUpdate_def out u split: if_splits option.splits)
    then have "sent w' = sent w2" using quiet(6) [OF assms(2) u] by auto
    from one_flow_from [OF one_flow_quiet [OF reconcileCertificate_flow [OF assms(1,2) o] this] s1] show ?thesis
      by (rule one_flow_mono) (use x c(1) in \<open>auto simp: reconciled_for_def\<close>)
  qed
qed

text \<open>
  C10. One reconciliation asks Key Manager Plus for at most one certificate: it sends nothing, or the
  requests of one flow, all to the server of one issuer, the one the reconciled resource names when
  it needs a certificate, and with the token of the Secret this issuer names, as they are read in
  this reconciliation; in the order create, look up, sign, fetch, export; at most one request
  creates a key pair and at most one signs.
\<close>

theorem Reconcile_requests:
  assumes "sent_by E sent" and "manager_quiet K sent" and "Reconcile E K (mainReconciler E ns) name w = Some (r, w')"
  shows "sent w' = sent w
    \<or> (\<exists>spec d (k :: kmpSigner) ls rs p. reconciled_for E K ns name w spec d
        \<and> signerFromIssuerAndSecretData E (Some spec) d = Inr k
        \<and> sent w' = sent w @ rs \<and> list_all2 (request_for E (kmpClient k)) ls rs
        \<and> flow opCreateCSR (specCSRLookupOperation (Signing spec)) ls p
        \<and> count_list ls (''POST'', opCreateCSR) \<le> 1 \<and> count_list ls (''POST'', opSignCSR) \<le> 1)"
proof -
  have ne: "opCreateCSR \<noteq> opSignCSR" by (simp add: opCreateCSR_def opSignCSR_def)
  consider "sent w' = sent w" | spec d p and k :: kmpSigner where "reconciled_for E K ns name w spec d"
      "signerFromIssuerAndSecretData E (Some spec) d = Inr k"
      "conforms E sent (kmpClient k) opCreateCSR (specCSRLookupOperation (Signing spec)) w p w'"
    using Reconcile_flow [OF assms] unfolding one_flow_def by blast
  then show ?thesis
  proof cases
    case 2
    then obtain ls rs where "sent w' = sent w @ rs" "list_all2 (request_for E (kmpClient k)) ls rs"
      and "flow opCreateCSR (specCSRLookupOperation (Signing spec)) ls p"
      by (auto simp: conforms_def)
    with 2(1,2) flow_at_most_once [OF _ ne] show ?thesis by blast
  qed simp
qed

text \<open>
  C9. One signing stores the certificate signing request, may look up its identifier, signs it at most
  once and only then polls for the certificate, every request to the client's server with the
  client's token. It never asks for a private key, unless that is the operation configured for the
  lookup, and it has fetched the certificate when it succeeds.
\<close>

theorem Sign_requests:
  assumes "sent_by E sent" and "optCSRLookupOperation (opts s) \<noteq> opExportCSR" and "Sign E s req w = Some (r, w')"
  shows "\<exists>ls rs p. sent w' = sent w @ rs \<and> list_all2 (request_for E (client s)) ls rs
    \<and> flow opImportCSR (optCSRLookupOperation (opts s)) ls p \<and> (\<forall>b. r = Inr b \<longrightarrow> p = Fetched)
    \<and> count_list ls (''POST'', opImportCSR) \<le> 1 \<and> count_list ls (''POST'', opSignCSR) \<le> 1
    \<and> (''GET'', opExportCSR) \<notin> set ls"
proof -
  have "opImportCSR \<noteq> opSignCSR" by (simp add: opImportCSR_def opSignCSR_def)
  moreover obtain ls rs p where "flow opImportCSR (optCSRLookupOperation (opts s)) ls p" "sent w' = sent w @ rs"
      "list_all2 (request_for E (client s)) ls rs" "p \<noteq> Exported" "\<forall>b. r = Inr b \<longrightarrow> p = Fetched"
    using Sign_conforms [OF assms(1,3)] by (auto simp: conforms_def)
  ultimately show ?thesis using flow_at_most_once flow_keeps_key [OF _ _ assms(2)] by metis
qed

section \<open>A recorded run\<close>

text \<open>The demonstration server, which now records the requests, beside a manager that records nothing.\<close>

type_synonym logged = "http_request list demo_world"

definition rec_env :: "logged env" where
  "rec_env = demo_env\<lparr>httpDo := \<lambda>cl r w. (case demo_httpDo cl r w of (x, (t, as, rs)) \<Rightarrow> (x, (t, as, rs @ [r])))\<rparr>"

definition recorded :: "logged \<Rightarrow> http_request list" where
  "recorded w = snd (snd w)"

lemma rec_sent: "sent_by rec_env recorded"
  by (auto simp: sent_by_def rec_env_def recorded_def demo_httpDo_def demo_env_def split: list.splits)

definition rec_manager :: "logged manager" where
  "rec_manager = \<lparr>getSecret = (\<lambda>n w. (if n = (''ns'', ''auth'') then Inr demo_auth else Inl \<lparr>apiErrText = ''not found'', apiNotFound = True\<rparr>, w)),
     parseSingleChain = (\<lambda>p. Inr \<lparr>bundleChainPEM = p, bundleCAPEM = []\<rparr>),
     getKMPCertificate = (\<lambda>n w. (Inr (demo_cert []), w)), getKMPIssuer = (\<lambda>n w. (Inr demo_namespaced, w)),
     getKMPClusterIssuer = (\<lambda>n w. (Inl \<lparr>apiErrText = ''not found'', apiNotFound = True\<rparr>, w)),
     createOrUpdateSecret = (\<lambda>n f w. (case f emptySecret of Inl e \<Rightarrow> Some e | Inr s \<Rightarrow> None, w)),
     setControllerReference = (\<lambda>c s. Inr (s\<lparr>secretOwner := Some (kcName c)\<rparr>)),
     statusUpdate = (\<lambda>c w. (None, w)), recordEvent = (\<lambda>c t r m w. w),
     randomBytes = (\<lambda>n w. (Inr (replicate n (CHR ''r'')), w)), decodeChain = (\<lambda>p. Inl ''no chain''), formatRFC3339 = (\<lambda>t. ''soon'')\<rparr>"

lemma rec_quiet: "manager_quiet rec_manager recorded"
  by (simp add: manager_quiet_def cluster_quiet_def rec_manager_def)

lemma rec_clock: "clock rec_env w = (fst w, w)"
  by (simp add: rec_env_def demo_env_def)

text \<open>The four requests of a signing, whatever was recorded before.\<close>

definition gives :: "(goerr + 'a) \<times> logged \<Rightarrow> 'a \<Rightarrow> int \<Rightarrow> http_outcome list \<Rightarrow> bool" where
  "gives r x t as \<longleftrightarrow> (case r of (y, u, bs, l) \<Rightarrow> y = Inr x \<and> u = t \<and> bs = as)"

lemma givesE:
  assumes "gives r x t as"
  obtains l where "r = (Inr x, t, as, l)"
  using assms by (auto simp: gives_def split: prod.splits)

lemma rec_ImportCSR:
  "gives (ImportCSR rec_env demo_client (CSRPEM demo_req0) [] (0, demo_run, l))
     \<lparr>CSR_ID = ''7'', CSR_CommonName = [],
      CSR_Response = marshal (AMap [(''status'', AStr ''Success''), (''CSR_ID'', AStr ''7'')])\<rparr> 0 (tl demo_run)"
  by code_simp

lemma rec_SignCSR:
  "gives (SignCSR rec_env demo_client (signRequest demo_signer ''7'' demo_req0) (0, tl demo_run, l))
     \<lparr>CertificateID = [], SR_CommonName = [], SR_SerialNumber = ''0A''\<rparr> 0 (tl (tl demo_run))"
  by code_simp

lemma rec_fetchAttempts:
  "case fetchAttempts 2 rec_env demo_client ''app.example'' ''0A'' (2 * second) (60 * second) (0, tl (tl demo_run), l) of
     None \<Rightarrow> False | Some r \<Rightarrow> gives r [demo_root, demo_leaf] (2 * second) []"
  by code_simp

lemma rec_Sign: "\<exists>b l. Sign rec_env demo_signer demo_req0 (0, demo_run, []) = Some (Inr b, 2 * second, [], l)"
proof -
  have "ParseCSR rec_env (CSRPEM demo_req0) = Inr demo_request" by code_simp
  moreover have "BuildBundle rec_env [demo_root, demo_leaf] (ECDSAKey ''k'') = Inr demo_bundle"
    by (simp add: BuildBundle_def findLeaf_def chainAbove.simps isSelfSigned_def demo_bundle_def rec_env_def demo_env_def demo_lib_def demo_certs)
  moreover have "reqPublicKey demo_request = ECDSAKey ''k''" by (simp add: demo_request_def)
  moreover have "verifyRequestedNames rec_env demo_request (Leaf demo_bundle) = None" by code_simp
  moreover have s: "client demo_signer = demo_client" "optEmail (opts demo_signer) = []" "reqCommonName demo_request = ''app.example''"
    by (simp_all add: demo_signer_def demo_options_def demo_request_def)
  moreover obtain l1 where "ImportCSR rec_env demo_client (CSRPEM demo_req0) [] (0, demo_run, []) = (Inr \<lparr>CSR_ID = ''7'', CSR_CommonName = [],
      CSR_Response = marshal (AMap [(''status'', AStr ''Success''), (''CSR_ID'', AStr ''7'')])\<rparr>, 0, tl demo_run, l1)"
    using rec_ImportCSR by (rule givesE)
  moreover obtain l2 where "SignCSR rec_env demo_client (signRequest demo_signer ''7'' demo_req0) (0, tl demo_run, l1)
      = (Inr \<lparr>CertificateID = [], SR_CommonName = [], SR_SerialNumber = ''0A''\<rparr>, 0, tl (tl demo_run), l2)"
    using rec_SignCSR by (rule givesE)
  moreover obtain l3 where "fetchCertificate rec_env demo_signer ''app.example'' ''0A'' (0, tl (tl demo_run), l2)
      = Some (Inr [demo_root, demo_leaf], 2 * second, [], l3)"
  proof -
    obtain r where r: "fetchAttempts 2 rec_env demo_client ''app.example'' ''0A'' (2 * second) (60 * second) (0, tl (tl demo_run), l2) = Some r"
        "gives r [demo_root, demo_leaf] (2 * second) []" using rec_fetchAttempts [of l2] by (auto split: option.splits)
    from r(2) obtain l3 where "r = (Inr [demo_root, demo_leaf], 2 * second, [], l3)" by (rule givesE)
    with fetchAttempts_loop [OF r(1)] that show thesis
      by (simp add: fetchCertificate_def rec_clock demo_signer_def pollInterval_def pollTimeout_def defaultPollInterval_def defaultPollTimeout_def)
  qed
  ultimately show ?thesis by (simp add: Sign_def resolveCSRID_def assemble_def)
qed

theorem Sign_requests_witness:
  "\<exists>b w' ls rs. Sign rec_env demo_signer demo_req0 (0, demo_run, []) = Some (Inr b, w') \<and> recorded w' = rs
     \<and> list_all2 (request_for rec_env demo_client) ls rs \<and> flow opImportCSR [] ls Fetched"
proof -
  obtain b l where r: "Sign rec_env demo_signer demo_req0 (0, demo_run, []) = Some (Inr b, 2 * second, [], l)" using rec_Sign by blast
  have d: "client demo_signer = demo_client" "optCSRLookupOperation (opts demo_signer) = []"
    by (simp_all add: demo_signer_def demo_options_def)
  then have "optCSRLookupOperation (opts demo_signer) \<noteq> opExportCSR" by (simp add: opExportCSR_def)
  moreover have "recorded (0, demo_run, []) = []" by (simp add: recorded_def)
  ultimately show ?thesis using Sign_requests [OF rec_sent _ r] r d by fastforce
qed

text \<open>A reconciliation whose first request is refused.\<close>

lemma rec_CreateCSR:
  "case CreateCSR rec_env demo_client (createRequest demo_preq) (0, [], []) of (y, _, _, l) \<Rightarrow> isl y \<and> length l = 1"
  by code_simp

lemma rec_signerFrom:
  "signerFromIssuerAndSecretData rec_env (Some demo_spec) (Data demo_auth) = Inr \<lparr>kmpClient = demo_client, kmpInner = demo_signer\<rparr>"
  by code_simp

lemma rec_issue:
  "\<exists>e u as r. issue rec_env rec_manager (mainReconciler rec_env ''ns'') (demo_cert []) (0, [], []) = Some (Inl e, u, as, [r])"
proof -
  obtain e u as l where c: "CreateCSR rec_env demo_client (createRequest demo_preq) (0, [], []) = (Inl e, u, as, l)" and "length l = 1"
    using rec_CreateCSR by (auto simp: isl_def split: prod.splits)
  then obtain r where l: "l = [r]" by (auto simp: length_Suc_conv)
  have 1: "resolveIssuer rec_env rec_manager (mainReconciler rec_env ''ns'') (demo_cert []) w = (Inr (demo_spec, ''ns''), w)" for w
    by (simp add: resolveIssuer_def rec_manager_def demo_cert_def demo_namespaced_def)
  have 2: "getSecret rec_manager (''ns'', AuthSecretName demo_spec) w = (Inr demo_auth, w)" for w
    by (simp add: rec_manager_def demo_spec_def)
  have 3: "keyStorePassword rec_env rec_manager (demo_cert []) w = (Inr (demo_password, True), w)" for w
    by (simp add: keyStorePassword_def generatePassword_def rec_manager_def demo_cert_def demo_password_def)
  have 4: "provisionRequest (demo_cert []) demo_password = demo_preq"
    using demo_request_of [of "[]"] by (simp add: demo_preq_def)
  have "trimSpace ''app.example'' = ''app.example''" "demo_password \<noteq> []" by code_simp+
  then have "\<exists>e. Provision rec_env demo_signer demo_preq (0, [], []) = Some (Inl e, u, as, [r])"
    using c l by (simp add: Provision_def demo_preq_def demo_signer_def)
  then show ?thesis
    by (auto simp: issue_def 1 2 3 4 mainReconciler_builder rec_signerFrom kmpSigner_Provision_def)
qed

lemma rec_Reconcile:
  "\<exists>e u as q. Reconcile rec_env rec_manager (mainReconciler rec_env ''ns'') (''ns'', ''cert'') (0, [], []) = Some (e, u, as, [q])"
proof -
  obtain e u as q where i: "issue rec_env rec_manager (mainReconciler rec_env ''ns'') (demo_cert []) (0, [], []) = Some (Inl e, u, as, [q])"
    using rec_issue by blast
  have n: "\<exists>reason. issuanceNeeded rec_env rec_manager (mainReconciler rec_env ''ns'') (demo_cert []) w = ((reason, None, True), w)" for w
    by (simp add: issuanceNeeded_def rec_manager_def secretNsName_def demo_cert_def)
  have m: "recordEvent rec_manager c t y m w = w" "statusUpdate rec_manager c w = (None, w)"
    "getKMPCertificate rec_manager k w = (Inr (demo_cert []), w)" for c t y m k w
    by (simp_all add: rec_manager_def)
  have d: "DeletionTimestamp (demo_cert []) = None" by (simp add: demo_cert_def)
  obtain reason where "issuanceNeeded rec_env rec_manager (mainReconciler rec_env ''ns'') (demo_cert []) (0, [], []) = ((reason, None, True), (0, [], []))"
    using n by blast
  then obtain out where "reconcileCertificate rec_env rec_manager (mainReconciler rec_env ''ns'') (demo_cert []) (0, [], []) = Some (out, u, as, [q])"
    using i by (cases "IsPermanent e") (auto simp: reconcileCertificate_def m setReady_def rec_clock)
  then show ?thesis
    by (cases out) (auto simp: Reconcile_def m d deferredUpdate_def split: if_splits)
qed

theorem Reconcile_requests_witness:
  "\<exists>e w' q (k :: kmpSigner) l. Reconcile rec_env rec_manager (mainReconciler rec_env ''ns'') (''ns'', ''cert'') (0, [], []) = Some (e, w')
     \<and> recorded w' = [q] \<and> request_for rec_env (kmpClient k) l q \<and> l = (''POST'', opCreateCSR)"
proof -
  obtain e u as q where r: "Reconcile rec_env rec_manager (mainReconciler rec_env ''ns'') (''ns'', ''cert'') (0, [], []) = Some (e, u, as, [q])"
    using rec_Reconcile by blast
  from Reconcile_requests [OF rec_sent rec_quiet r] show ?thesis
  proof (elim disjE exE conjE)
    fix spec d ls rs p and k :: kmpSigner
    assume "recorded (u, as, [q]) = recorded (0, [], []) @ rs" and l: "list_all2 (request_for rec_env (kmpClient k)) ls rs"
      and f: "flow opCreateCSR (specCSRLookupOperation (Signing spec)) ls p"
    then have "rs = [q]" by (simp add: recorded_def)
    with l obtain x where x: "ls = [x]" "request_for rec_env (kmpClient k) x q" by (auto simp: list_all2_Cons2)
    from f have "x = (''POST'', opCreateCSR)" unfolding x(1) by (rule flow_single)
    with r x(2) show ?thesis by (auto simp: recorded_def)
  qed (simp add: recorded_def)
qed

end
