(* ===== verification/Registration.thy ===== *)
theory Registration
  imports Requests
begin

text \<open>
  What the process registers, and what the registered handlers may do: the types of
  \<^verbatim>\<open>api/v1alpha1/groupversion_info.go\<close> and the scheme of \<^verbatim>\<open>cmd/main.go\<close>, the two \<^verbatim>\<open>SetupWithManager\<close>
  of \<^verbatim>\<open>internal/controllers\<close>, and the runs in which issuer-lib and controller-runtime call the
  handlers of the two controllers in any order, while the rest of the cluster changes as it likes.
\<close>

section \<open>The scheme\<close>

text \<open>The Go types that are registered or watched, by their names.\<close>

datatype api_type =
    KMPCertificateType | KMPCertificateListType | KMPClusterIssuerType | KMPClusterIssuerListType
  | KMPIssuerType | KMPIssuerListType | CoreSecretType

record GroupVersion =
  Group :: string
  Version :: string

definition SchemeGroupVersion :: GroupVersion where
  "SchemeGroupVersion = \<lparr>Group = ''kmp.cert-manager.io'', Version = ''v1alpha1''\<rparr>"

text \<open>
  The API machinery: the registrations of client-go and cert-manager, \<^verbatim>\<open>Scheme.AddKnownTypes\<close>,
  \<^verbatim>\<open>metav1.AddToGroupVersion\<close>, and \<^verbatim>\<open>AddToScheme\<close> of a scheme builder made of functions.
\<close>

record 's scheme_lib =
  clientgoAddToScheme :: "'s \<Rightarrow> string option \<times> 's"
  cmapiAddToScheme :: "'s \<Rightarrow> string option \<times> 's"
  AddKnownTypes :: "GroupVersion \<Rightarrow> api_type list \<Rightarrow> 's \<Rightarrow> 's"
  AddToGroupVersion :: "GroupVersion \<Rightarrow> 's \<Rightarrow> 's"
  schemeBuilder :: "('s \<Rightarrow> string option \<times> 's) list \<Rightarrow> 's \<Rightarrow> string option \<times> 's"

definition addKnownTypes :: "'s scheme_lib \<Rightarrow> 's \<Rightarrow> string option \<times> 's" where
  "addKnownTypes L scheme =
     (let scheme = AddKnownTypes L SchemeGroupVersion
            [KMPCertificateType, KMPCertificateListType, KMPClusterIssuerType, KMPClusterIssuerListType,
             KMPIssuerType, KMPIssuerListType] scheme;
          scheme = AddToGroupVersion L SchemeGroupVersion scheme
      in (None, scheme))"

definition AddToScheme :: "'s scheme_lib \<Rightarrow> 's \<Rightarrow> string option \<times> 's" where
  "AddToScheme L = schemeBuilder L [addKnownTypes L]"

text \<open>\<^verbatim>\<open>utilruntime.Must\<close> panics on an error, which is \<^const>\<open>None\<close> here.\<close>

definition must :: "string option \<times> 's \<Rightarrow> 's option" where
  "must r = (case r of (Some err, _) \<Rightarrow> None | (None, s) \<Rightarrow> Some s)"

definition initScheme :: "'s scheme_lib \<Rightarrow> 's \<Rightarrow> 's option" where
  "initScheme L scheme = (case must (clientgoAddToScheme L scheme) of
     None \<Rightarrow> None
   | Some scheme \<Rightarrow> (case must (cmapiAddToScheme L scheme) of
       None \<Rightarrow> None
     | Some scheme \<Rightarrow> must (AddToScheme L scheme)))"

section \<open>The controllers\<close>

text \<open>issuer-lib's \<^verbatim>\<open>CombinedController\<close>, with the name of its event recorder.\<close>

definition maxRetryDuration :: int where
  "maxRetryDuration = 5 * (60 * second)"

record 'w combined_controller =
  IssuerTypes :: "api_type list"
  ClusterIssuerTypes :: "api_type list"
  FieldOwner :: string
  MaxRetryDuration :: int
  ccSign :: "goerr + CertificateDetails \<Rightarrow> issuer_object \<Rightarrow> 'w \<Rightarrow> ((goerr + PEMBundle) \<times> 'w) option"
  ccCheck :: "issuer_object \<Rightarrow> 'w \<Rightarrow> goerr option \<times> 'w"
  ccEventRecorder :: string

text \<open>
  \<^verbatim>\<open>Issuer.SetupWithManager\<close>: \<open>K\<close> is the client of the manager and \<open>setup\<close> the method of the same name
  of the combined controller. The receiver is a copy, so the client is set for the handlers only.
\<close>

definition combinedController :: "('w, 'r) env_scheme \<Rightarrow> ('w, 'k) cluster_scheme \<Rightarrow> 'w IssuerController \<Rightarrow> 'w combined_controller" where
  "combinedController E K s = \<lparr>IssuerTypes = [KMPIssuerType], ClusterIssuerTypes = [KMPClusterIssuerType],
     FieldOwner = ''kmpissuer.cert-manager.io'', MaxRetryDuration = maxRetryDuration,
     ccSign = Issuer_Sign E K s, ccCheck = Issuer_Check E K s, ccEventRecorder = ''kmpissuer.cert-manager.io''\<rparr>"

definition Issuer_SetupWithManager :: "('w, 'r) env_scheme \<Rightarrow> ('w, 'k) cluster_scheme \<Rightarrow> ('w combined_controller \<Rightarrow> 'm \<Rightarrow> string option \<times> 'm)
    \<Rightarrow> 'w IssuerController \<Rightarrow> 'm \<Rightarrow> string option \<times> 'm" where
  "Issuer_SetupWithManager E K setup s mgr = setup (combinedController E K s) mgr"

text \<open>What the builder of controller-runtime is given; \<open>complete\<close> is its last method.\<close>

record 'w managed_controller =
  ctlFor :: api_type
  ctlOwns :: "api_type list"
  ctlNamed :: string
  ctlRecorder :: string
  ctlReconcile :: "nsname \<Rightarrow> 'w \<Rightarrow> ((ctrl_result \<times> goerr option) \<times> 'w) option"

definition managedController :: "('w, 'r) env_scheme \<Rightarrow> ('w, 'k) manager_scheme \<Rightarrow> 'w KMPCertificateReconciler \<Rightarrow> string option
    \<Rightarrow> 'w managed_controller" where
  "managedController E K r recorder =
     \<lparr>ctlFor = KMPCertificateType, ctlOwns = [CoreSecretType], ctlNamed = ''kmpcertificate'',
      ctlRecorder = (case recorder of None \<Rightarrow> ''kmpcertificate'' | Some n \<Rightarrow> n), ctlReconcile = Reconcile E K r\<rparr>"

definition KMPCertificateReconciler_SetupWithManager :: "('w, 'r) env_scheme \<Rightarrow> ('w, 'k) manager_scheme
    \<Rightarrow> ('w managed_controller \<Rightarrow> 'm \<Rightarrow> string option \<times> 'm) \<Rightarrow> 'w KMPCertificateReconciler \<Rightarrow> string option \<Rightarrow> 'm \<Rightarrow> string option \<times> 'm" where
  "KMPCertificateReconciler_SetupWithManager E K complete r recorder mgr = complete (managedController E K r recorder) mgr"

text \<open>
  The part of \<^verbatim>\<open>main\<close> that registers both controllers, with the failure it logs; the second one is
  registered only when the first one was.
\<close>

definition registerControllers :: "('w, 'r) env_scheme \<Rightarrow> ('w, 'k) manager_scheme \<Rightarrow> ('w combined_controller \<Rightarrow> 'm \<Rightarrow> string option \<times> 'm)
    \<Rightarrow> ('w managed_controller \<Rightarrow> 'm \<Rightarrow> string option \<times> 'm) \<Rightarrow> string \<Rightarrow> 'm \<Rightarrow> string option \<times> 'm" where
  "registerControllers E K setup complete ns mgr =
     (case Issuer_SetupWithManager E K setup (mainIssuer E ns) mgr of
        (Some err, mgr) \<Rightarrow> (Some ''unable to create Signer controllers'', mgr)
      | (None, mgr) \<Rightarrow>
        (case KMPCertificateReconciler_SetupWithManager E K complete (mainReconciler E ns) (Some ''kmpcertificate'') mgr of
           (Some err, mgr) \<Rightarrow> (Some ''unable to create the KMPCertificate controller'', mgr)
         | (None, mgr) \<Rightarrow> (None, mgr)))"

section \<open>Known types\<close>

text \<open>
  The documented behaviour of the API machinery: \<open>known\<close> is the set of types a scheme recognises in a
  version; a registration adds and never removes, and a scheme builder applies its functions.
\<close>

definition scheme_lib_ok :: "'s scheme_lib \<Rightarrow> ('s \<Rightarrow> (GroupVersion \<times> api_type) set) \<Rightarrow> bool" where
  "scheme_lib_ok L known \<longleftrightarrow>
     (\<forall>s s'. clientgoAddToScheme L s = (None, s') \<longrightarrow> insert (\<lparr>Group = [], Version = ''v1''\<rparr>, CoreSecretType) (known s) \<subseteq> known s')
     \<and> (\<forall>s s'. cmapiAddToScheme L s = (None, s') \<longrightarrow> known s \<subseteq> known s')
     \<and> (\<forall>gv ts s. known s \<union> {gv} \<times> set ts \<subseteq> known (AddKnownTypes L gv ts s))
     \<and> (\<forall>gv s. known s \<subseteq> known (AddToGroupVersion L gv s))
     \<and> (\<forall>f s. schemeBuilder L [f] s = f s)"

lemma addKnownTypes_known:
  assumes "scheme_lib_ok L known" and "AddToScheme L s = (e, s')"
  shows "e = None" and "known s \<subseteq> known s'"
    and "{SchemeGroupVersion} \<times> {KMPCertificateType, KMPCertificateListType, KMPClusterIssuerType, KMPClusterIssuerListType,
           KMPIssuerType, KMPIssuerListType} \<subseteq> known s'"
proof -
  let ?ts = "[KMPCertificateType, KMPCertificateListType, KMPClusterIssuerType, KMPClusterIssuerListType, KMPIssuerType, KMPIssuerListType]"
  have s': "e = None" "s' = AddToGroupVersion L SchemeGroupVersion (AddKnownTypes L SchemeGroupVersion ?ts s)"
    using assms by (auto simp: AddToScheme_def addKnownTypes_def scheme_lib_ok_def)
  have "known s \<union> {SchemeGroupVersion} \<times> set ?ts \<subseteq> known (AddKnownTypes L SchemeGroupVersion ?ts s)"
    "known (AddKnownTypes L SchemeGroupVersion ?ts s) \<subseteq> known s'"
    using assms(1) unfolding s'(2) scheme_lib_ok_def by blast+
  then have all: "known s \<union> {SchemeGroupVersion} \<times> set ?ts \<subseteq> known s'" by (rule order_trans)
  show "e = None" by (rule s'(1))
  show "known s \<subseteq> known s'" using all by blast
  show "{SchemeGroupVersion} \<times> {KMPCertificateType, KMPCertificateListType, KMPClusterIssuerType, KMPClusterIssuerListType,
           KMPIssuerType, KMPIssuerListType} \<subseteq> known s'" using all by simp
qed

section \<open>Runs of the registered handlers\<close>

datatype 'w controller = Combined "'w combined_controller" | Managed "'w managed_controller"

text \<open>What \<^verbatim>\<open>main\<close> registers with a manager that refuses nothing.\<close>

definition mainControllers :: "('w, 'r) env_scheme \<Rightarrow> ('w, 'k) manager_scheme \<Rightarrow> string \<Rightarrow> 'w controller list" where
  "mainControllers E K ns = snd (registerControllers E K (\<lambda>c m. (None, m @ [Combined c])) (\<lambda>c m. (None, m @ [Managed c])) ns [])"

datatype handler_call = CheckCall issuer_object | SignCall "goerr + CertificateDetails" issuer_object | ReconcileCall nsname

fun invoke :: "'w controller \<Rightarrow> handler_call \<Rightarrow> 'w \<Rightarrow> 'w option" where
  "invoke (Combined c) (CheckCall io) w = Some (snd (ccCheck c io w))"
| "invoke (Combined c) (SignCall d io) w = map_option snd (ccSign c d io w)"
| "invoke (Managed c) (ReconcileCall n) w = map_option snd (ctlReconcile c n w)"
| "invoke _ _ _ = None"

text \<open>A run, with the handler calls in their order, each with the state in which it starts.\<close>

inductive runs :: "'w controller list \<Rightarrow> ('w \<Rightarrow> http_request list) \<Rightarrow> 'w \<Rightarrow> (handler_call \<times> 'w) list \<Rightarrow> 'w \<Rightarrow> bool" for cs sent w where
  idle: "runs cs sent w [] w"
| handled: "runs cs sent w tr w1 \<Longrightarrow> c \<in> set cs \<Longrightarrow> invoke c h w1 = Some w2 \<Longrightarrow> runs cs sent w (tr @ [(h, w1)]) w2"
| changed: "runs cs sent w tr w1 \<Longrightarrow> sent w2 = sent w1 \<Longrightarrow> runs cs sent w tr w2"

lemma mainControllers_simps: "mainControllers E K ns =
    [Combined (combinedController E K (mainIssuer E ns)), Managed (managedController E K (mainReconciler E ns) (Some ''kmpcertificate''))]"
  by (simp add: mainControllers_def registerControllers_def Issuer_SetupWithManager_def KMPCertificateReconciler_SetupWithManager_def)

text \<open>
  Every type the controllers watch is known to the scheme the process starts with, and the
  identifiers of the issuer types end in the registered group.
\<close>

fun watched :: "'w controller \<Rightarrow> (GroupVersion \<times> api_type) set" where
  "watched (Combined c) = {SchemeGroupVersion} \<times> set (IssuerTypes c @ ClusterIssuerTypes c)"
| "watched (Managed c) = insert (SchemeGroupVersion, ctlFor c) ({\<lparr>Group = [], Version = ''v1''\<rparr>} \<times> set (ctlOwns c))"

lemma watched_known:
  assumes "scheme_lib_ok L known" and "initScheme L s = Some s'" and "c \<in> set (mainControllers E K ns)"
  shows "watched c \<subseteq> known s'"
proof -
  from assms(2) obtain s1 s2 e where 1: "clientgoAddToScheme L s = (None, s1)" and 2: "cmapiAddToScheme L s1 = (None, s2)"
    and 3: "AddToScheme L s2 = (e, s')"
    by (auto simp: initScheme_def must_def split: prod.splits option.splits)
  have "(\<lparr>Group = [], Version = ''v1''\<rparr>, CoreSecretType) \<in> known s1" "known s1 \<subseteq> known s2"
    using assms(1) 1 2 unfolding scheme_lib_ok_def by blast+
  then show ?thesis
    using addKnownTypes_known(2,3) [OF assms(1) 3] assms(3)
    by (auto simp: mainControllers_simps combinedController_def managedController_def)
qed

lemma identifiers_in_group:
  "KMPIssuer_GetIssuerTypeIdentifier = ''kmpissuers.'' @ Group SchemeGroupVersion"
  "KMPClusterIssuer_GetIssuerTypeIdentifier = ''kmpclusterissuers.'' @ Group SchemeGroupVersion"
  by (simp_all add: KMPIssuer_GetIssuerTypeIdentifier_def KMPClusterIssuer_GetIssuerTypeIdentifier_def SchemeGroupVersion_def)

text \<open>
  The issuer a call is for and the data of the Secret this issuer names: issuer-lib hands over the
  issuer, a reconciliation finds it through its resource; the Secret is the one of that name in the
  issuer's namespace or, for a cluster issuer, in \<open>ns\<close>, as the handler reads it.
\<close>

fun issuer_at :: "string \<Rightarrow> issuer_object \<Rightarrow> (IssuerSpec \<times> string) option" where
  "issuer_at ns (NamespacedIssuer i) = Some (issuerSpec i, issuerNamespace i)"
| "issuer_at ns (ClusterIssuer i) = Some (clusterIssuerSpec i, ns)"
| "issuer_at ns (OtherIssuer _) = None"

fun for_call :: "('w, 'r) env_scheme \<Rightarrow> ('w, 'k) manager_scheme \<Rightarrow> string \<Rightarrow> handler_call \<Rightarrow> 'w \<Rightarrow> IssuerSpec \<Rightarrow> secret_data \<Rightarrow> bool" where
  "for_call E K ns (CheckCall io) w spec d = (\<exists>n. issuer_at ns io = Some (spec, n) \<and> secret_read K w (n, AuthSecretName spec) d)"
| "for_call E K ns (SignCall _ io) w spec d = (\<exists>n. issuer_at ns io = Some (spec, n) \<and> secret_read K w (n, AuthSecretName spec) d)"
| "for_call E K ns (ReconcileCall name) w spec d = reconciled_for E K ns name w spec d"

text \<open>A request of an operation, to the server of a spec and with the token in the data of a Secret.\<close>

definition addressed :: "('w, 'r) env_scheme \<Rightarrow> IssuerSpec \<Rightarrow> secret_data \<Rightarrow> label \<Rightarrow> http_request \<Rightarrow> bool" where
  "addressed E spec d l r \<longleftrightarrow> (\<exists>base q. urlParse E (trimSpace (specURL spec)) = Inr base \<and> httpMethod r = fst l
     \<and> httpURL r = urlString E (base\<lparr>Path := pathJoin [Path base, apiBasePath, snd l], RawQuery := q\<rparr>)
     \<and> map_of (httpHeaders r) ''Authtoken'' = Some (trimSpace (trimSpace (dataAt d ''authtoken''))))"

text \<open>How many requests a call may make that store or sign something, by their operation.\<close>

fun budget :: "handler_call \<Rightarrow> string \<Rightarrow> nat" where
  "budget (CheckCall _) op = 0"
| "budget (SignCall _ _) op = (if op \<in> {opImportCSR, opSignCSR} then 1 else 0)"
| "budget (ReconcileCall _) op = (if op \<in> {opCreateCSR, opSignCSR} then 1 else 0)"

text \<open>What a call may send: nothing, or requests for its own issuer within its budget.\<close>

definition sends_for :: "('w, 'r) env_scheme \<Rightarrow> IssuerSpec \<Rightarrow> secret_data \<Rightarrow> (string \<Rightarrow> nat) \<Rightarrow> http_request list \<Rightarrow> bool" where
  "sends_for E spec d b rs \<longleftrightarrow> (\<exists>ls. list_all2 (addressed E spec d) ls rs \<and> (\<forall>op. count_list ls (''POST'', op) \<le> b op))"

definition call_sends :: "('w, 'r) env_scheme \<Rightarrow> ('w, 'k) manager_scheme \<Rightarrow> string \<Rightarrow> handler_call \<times> 'w \<Rightarrow> http_request list \<Rightarrow> bool" where
  "call_sends E K ns hw rs \<longleftrightarrow> (case hw of (h, w) \<Rightarrow> rs = [] \<or> (\<exists>spec d. for_call E K ns h w spec d \<and> sends_for E spec d (budget h) rs))"

lemma sends_for_append:
  assumes "sends_for E spec d b rs" and "sends_for E spec d b' rs'"
  shows "sends_for E spec d (\<lambda>op. b op + b' op) (rs @ rs')"
proof -
  from assms obtain ls ls' where "list_all2 (addressed E spec d) ls rs" "\<And>op. count_list ls (''POST'', op) \<le> b op"
    and "list_all2 (addressed E spec d) ls' rs'" "\<And>op. count_list ls' (''POST'', op) \<le> b' op"
    by (auto simp: sends_for_def)
  then show ?thesis
    unfolding sends_for_def by (intro exI [of _ "ls @ ls'"]) (simp add: list_all2_appendI count_list_append add_mono)
qed

lemma sends_for_Nil: "sends_for E spec d b []"
  unfolding sends_for_def by (intro exI [of _ "[]"]) simp

lemma NewClient_base: "NewClient E cfg = Inr c \<Longrightarrow> urlParse E (trimSpace (BaseURL cfg)) = Inr (baseURL c)"
  by (auto simp: NewClient_def split: op_splits)

text \<open>The signer of an issuer addresses the server of its spec with the token of its Secret.\<close>

lemma request_addressed:
  assumes "signerFromIssuerAndSecretData E (Some spec) d = Inr k" and "request_for E (kmpClient k) l r"
  shows "addressed E spec d l r"
proof -
  note c = signerFrom_Inr(1) [OF assms(1)]
  have "urlParse E (trimSpace (specURL spec)) = Inr (baseURL (kmpClient k))"
    using NewClient_base [OF c] by simp
  moreover have "authToken (kmpClient k) = trimSpace (trimSpace (dataAt d ''authtoken''))"
    using NewClient_fields(2) [OF c] by (simp add: AuthSecretTokenKey_def)
  ultimately show ?thesis using assms(2) unfolding request_for_def addressed_def endpoint_def by fastforce
qed

lemma flow_sends_for:
  assumes "signerFromIssuerAndSecretData E (Some spec) d = Inr k" and "conforms E sent (kmpClient k) entry lookup w p w'"
    and "entry \<noteq> opSignCSR"
  obtains rs where "sent w' = sent w @ rs" and "sends_for E spec d (\<lambda>op. if op \<in> {entry, opSignCSR} then 1 else 0) rs"
proof -
  from assms(2) obtain ls rs where f: "flow entry lookup ls p" "sent w' = sent w @ rs" "list_all2 (request_for E (kmpClient k)) ls rs"
    by (auto simp: conforms_def)
  have "list_all2 (addressed E spec d) ls rs"
    using f(3) by (rule list_all2_mono) (rule request_addressed [OF assms(1)])
  then show ?thesis using that [OF f(2)] flow_posts [OF f(1) assms(3)] unfolding sends_for_def by blast
qed

section \<open>What each handler may send\<close>

lemma Ping_sends_for:
  assumes "sent_by E sent" and "signerFromIssuerAndSecretData E (Some spec) d = Inr k" and "Ping E (kmpClient k) w = (x, w')"
  obtains rs where "sent w' = sent w @ rs" and "sends_for E spec d (\<lambda>op. 0) rs"
proof -
  obtain g w1 where g: "GetCertificate E (kmpClient k) ''kmp-issuer-connectivity-probe.invalid'' [] w = (g, w1)" by fastforce
  then have w': "w' = w1" using assms(3) by (auto simp: Ping_def split: sum.splits if_splits option.splits)
  have "sends E sent (kmpClient k) (''GET'', opGetCertificate) w (g, w1)" using GetCertificate_sends [OF assms(1)] g by metis
  then obtain rs where rs: "sent w' = sent w @ rs" "list_all (request_for E (kmpClient k) (''GET'', opGetCertificate)) rs"
    by (auto simp: sends_def w')
  have "list_all2 (addressed E spec d) (replicate (length rs) (''GET'', opGetCertificate)) rs"
    using rs(2) request_addressed [OF assms(2)] by (auto simp: list_all2_conv_all_nth list_all_length)
  moreover have "count_list (replicate n (''GET'', opGetCertificate)) (''POST'', op) = 0" for n op by (induction n) auto
  ultimately show ?thesis using that [OF rs(1)] unfolding sends_for_def by (metis le_refl)
qed

text \<open>Reading the credentials and checking them: the Secret is the one the issuer names.\<close>

lemma getSecretData_sends_for:
  assumes "sent_by E sent" and "cluster_quiet K sent" and "getSecretData E K (mainIssuer E ns) spec n w = (x, w')"
  obtains (quiet) e where "x = Inl e" and "sent w' = sent w"
    | (probe) d rs where "secret_read K w (n, AuthSecretName spec) d" and "sent w' = sent w @ rs"
        and "sends_for E spec d (\<lambda>op. 0) rs" and "\<And>d'. x = Inr d' \<Longrightarrow> d' = d"
proof -
  obtain a w1 where a: "getSecret K (n, AuthSecretName spec) w = (a, w1)" by fastforce
  then have s1: "sent w1 = sent w" using assms(2) unfolding cluster_quiet_def by (metis snd_conv)
  show thesis
  proof (cases "\<exists>secret k. a = Inr secret \<and> signerFromIssuerAndSecretData E (Some spec) (Data secret) = Inr k")
    case False
    then have "w' = w1" "\<exists>e. x = Inl e" using assms(3) a unfolding getSecretData_main
      by (cases a; cases "signerFromIssuerAndSecretData E (Some spec) (Data (projr a))"; auto)+
    with s1 quiet show thesis by auto
  next
    case True
    then obtain secret k where k: "a = Inr secret" "signerFromIssuerAndSecretData E (Some spec) (Data secret) = Inr k" by blast
    obtain y w2 where y: "Ping E (kmpClient k) w1 = (y, w2)" by fastforce
    have w2: "w' = w2" "\<And>d'. x = Inr d' \<Longrightarrow> d' = Data secret"
      using assms(3) a k y unfolding getSecretData_main by (auto split: option.splits)
    obtain rs where "sent w2 = sent w1 @ rs" "sends_for E spec (Data secret) (\<lambda>op. 0) rs"
      by (rule Ping_sends_for [OF assms(1) k(2) y])
    with w2 s1 a k(1) show thesis by (intro probe [of "Data secret" rs]) (auto simp: secret_read_def)
  qed
qed

lemma getIssuerDetails_main: "getIssuerDetails (mainIssuer E ns) io = Inr (spec, n) \<Longrightarrow> issuer_at ns io = Some (spec, n)"
  by (cases io) (simp_all add: mainIssuer_def)

lemma Check_sends:
  assumes "sent_by E sent" and "cluster_quiet K sent" and "Issuer_Check E K (mainIssuer E ns) io w = (x, w')"
  shows "\<exists>rs. sent w' = sent w @ rs \<and> call_sends E K ns (CheckCall io, w) rs"
proof (cases "getIssuerDetails (mainIssuer E ns) io")
  case (Inl e)
  with assms(3) show ?thesis by (simp add: Issuer_Check_def call_sends_def)
next
  case (Inr si)
  then obtain spec n where io: "getIssuerDetails (mainIssuer E ns) io = Inr (spec, n)" by (cases si) simp
  obtain y w1 where y: "getSecretData E K (mainIssuer E ns) spec n w = (y, w1)" by fastforce
  have w': "w' = w1" using assms(3) io y by (cases y) (auto simp: Issuer_Check_def)
  from assms(1,2) y show ?thesis
  proof (cases rule: getSecretData_sends_for)
    case (quiet e)
    then show ?thesis by (simp add: w' call_sends_def)
  next
    case (probe d rs)
    have "budget (CheckCall io) = (\<lambda>op. 0)" by (rule ext) simp
    with probe show ?thesis using getIssuerDetails_main [OF io] by (auto simp: w' call_sends_def)
  qed
qed

lemma Sign_sends:
  assumes "sent_by E sent" and "cluster_quiet K sent" and "Issuer_Sign E K (mainIssuer E ns) details io w = Some (x, w')"
  shows "\<exists>rs. sent w' = sent w @ rs \<and> call_sends E K ns (SignCall details io, w) rs"
proof (cases "getIssuerDetails (mainIssuer E ns) io")
  case (Inl e)
  with assms(3) show ?thesis by (simp add: Issuer_Sign_def call_sends_def)
next
  case (Inr si)
  then obtain spec n where io: "getIssuerDetails (mainIssuer E ns) io = Inr (spec, n)" by (cases si) simp
  note at = getIssuerDetails_main [OF io]
  obtain y w1 where y: "getSecretData E K (mainIssuer E ns) spec n w = (y, w1)" by fastforce
  from assms(1,2) y show ?thesis
  proof (cases rule: getSecretData_sends_for)
    case (quiet e)
    with assms(3) io y have "w' = w1" by (simp add: Issuer_Sign_def)
    with quiet show ?thesis by (simp add: call_sends_def)
  next
    case (probe d rs)
    have "\<exists>rs'. sent w' = sent w1 @ rs' \<and> sends_for E spec d (\<lambda>op. if op \<in> {opImportCSR, opSignCSR} then 1 else 0) rs'"
    proof (cases "\<exists>d' cd. y = Inr d' \<and> details = Inr cd")
      case False
      then have "w' = w1" using assms(3) io y by (cases y; cases details) (auto simp: Issuer_Sign_def)
      then show ?thesis by (simp add: sends_for_Nil)
    next
      case True
      then obtain cd where d: "y = Inr d" "details = Inr cd" using probe(4) by blast
      from y [unfolded d(1)] obtain secret w2 k where k: "signerFromIssuerAndSecretData E (Some spec) d = Inr k"
        by (rule getSecretData_ok)
      obtain r where r: "Sign E (kmpInner k) (detailsRequest cd) w1 = Some (r, w')"
        using assms(3) unfolding d(2) Issuer_Sign_main [OF io y [unfolded d(1)] k] by (auto split: option.splits sum.splits prod.splits)
      obtain p where "conforms E sent (client (kmpInner k)) opImportCSR (optCSRLookupOperation (opts (kmpInner k))) w1 p w'"
        using Sign_conforms [OF assms(1) r] by blast
      moreover have "client (kmpInner k) = kmpClient k" using signerFrom_Inr(2) [OF k] by simp
      moreover have "opImportCSR \<noteq> opSignCSR" by (simp add: opImportCSR_def opSignCSR_def)
      ultimately show ?thesis using flow_sends_for [OF k] by metis
    qed
    then obtain rs' where rs': "sent w' = sent w1 @ rs'"
      "sends_for E spec d (\<lambda>op. if op \<in> {opImportCSR, opSignCSR} then 1 else 0) rs'" by blast
    have "budget (SignCall details io) = (\<lambda>op. if op \<in> {opImportCSR, opSignCSR} then 1 else 0)" by (rule ext) simp
    then have "sends_for E spec d (budget (SignCall details io)) (rs @ rs')"
      using sends_for_append [OF probe(3) rs'(2)] by simp
    then show ?thesis using probe(1,2) rs'(1) at by (auto simp: call_sends_def)
  qed
qed

lemma Reconcile_sends:
  assumes "sent_by E sent" and "manager_quiet K sent" and "Reconcile E K (mainReconciler E ns) name w = Some (x, w')"
  shows "\<exists>rs. sent w' = sent w @ rs \<and> call_sends E K ns (ReconcileCall name, w) rs"
proof -
  have ne: "opCreateCSR \<noteq> opSignCSR" by (simp add: opCreateCSR_def opSignCSR_def)
  have b: "budget (ReconcileCall name) = (\<lambda>op. if op \<in> {opCreateCSR, opSignCSR} then 1 else 0)" by (rule ext) simp
  consider "sent w' = sent w" | spec d p and k :: kmpSigner where "reconciled_for E K ns name w spec d"
      "signerFromIssuerAndSecretData E (Some spec) d = Inr k"
      "conforms E sent (kmpClient k) opCreateCSR (specCSRLookupOperation (Signing spec)) w p w'"
    using Reconcile_flow [OF assms] unfolding one_flow_def by blast
  then show ?thesis
  proof cases
    case 2
    obtain rs where "sent w' = sent w @ rs" "sends_for E spec d (\<lambda>op. if op \<in> {opCreateCSR, opSignCSR} then 1 else 0) rs"
      by (rule flow_sends_for [OF 2(2,3) ne])
    then show ?thesis using 2(1) b by (auto simp: call_sends_def simp del: budget.simps)
  qed (simp add: call_sends_def)
qed

lemma invoke_sends:
  assumes "sent_by E sent" and "manager_quiet K sent" and "c \<in> set (mainControllers E K ns)" and "invoke c h w = Some w'"
  shows "\<exists>rs. sent w' = sent w @ rs \<and> call_sends E K ns (h, w) rs"
proof -
  have q: "cluster_quiet K sent" using assms(2) by (simp add: manager_quiet_def)
  consider "c = Combined (combinedController E K (mainIssuer E ns))"
    | "c = Managed (managedController E K (mainReconciler E ns) (Some ''kmpcertificate''))"
    using assms(3) by (auto simp: mainControllers_simps)
  then show ?thesis
  proof cases
    case 1
    show ?thesis
    proof (cases h)
      case (CheckCall io)
      then obtain x where "Issuer_Check E K (mainIssuer E ns) io w = (x, w')"
        using assms(4) 1 by (cases "Issuer_Check E K (mainIssuer E ns) io w") (auto simp: combinedController_def)
      from Check_sends [OF assms(1) q this] show ?thesis by (simp add: CheckCall)
    next
      case (SignCall d io)
      then obtain x where "Issuer_Sign E K (mainIssuer E ns) d io w = Some (x, w')"
        using assms(4) 1 by (auto simp: combinedController_def)
      from Sign_sends [OF assms(1) q this] show ?thesis by (simp add: SignCall)
    qed (use assms(4) 1 in simp)
  next
    case 2
    with assms(4) obtain name x where h: "h = ReconcileCall name" "Reconcile E K (mainReconciler E ns) name w = Some (x, w')"
      by (cases h) (auto simp: managedController_def)
    from Reconcile_sends [OF assms(1,2) h(2)] show ?thesis by (simp add: h(1))
  qed
qed

text \<open>
  C8. Whatever the order in which issuer-lib and controller-runtime call the registered handlers, and
  whatever else changes in the cluster meanwhile, the requests to Key Manager Plus are, call by call,
  those of the handlers: a call sends nothing, or requests to the server of its own issuer's spec
  with the token of the Secret this issuer names, in the issuer's namespace or, for a cluster issuer,
  in that of the controller, as the handler reads them. A check stores and signs nothing, a signing
  imports at most one request and signs at most once, and a reconciliation creates at most one key
  pair and signs at most once.
\<close>

theorem runs_requests:
  assumes "sent_by E sent" and "manager_quiet K sent" and "runs (mainControllers E K ns) sent w tr w'"
  shows "\<exists>segs. sent w' = sent w @ concat segs \<and> list_all2 (call_sends E K ns) tr segs"
  using assms(3)
proof (induction rule: runs.induct)
  case (handled tr w1 c h w2)
  obtain segs rs where "sent w1 = sent w @ concat segs" "list_all2 (call_sends E K ns) tr segs"
    "sent w2 = sent w1 @ rs" "call_sends E K ns (h, w1) rs"
    using handled.IH invoke_sends [OF assms(1,2) handled.hyps(2,3)] by blast
  then show ?case by (intro exI [of _ "segs @ [rs]"]) (simp add: list_all2_appendI)
qed simp_all

theorem runs_requests_witness:
  "\<exists>w' q. runs (mainControllers rec_env rec_manager ''ns'') recorded (0, [], []) [(ReconcileCall (''ns'', ''cert''), (0, [], []))] w'
     \<and> recorded w' = [q] \<and> map_of (httpHeaders q) ''Authtoken'' = Some ''token''"
proof -
  obtain e u as q where r: "Reconcile rec_env rec_manager (mainReconciler rec_env ''ns'') (''ns'', ''cert'') (0, [], []) = Some (e, u, as, [q])"
    using rec_Reconcile by blast
  have run: "runs (mainControllers rec_env rec_manager ''ns'') recorded (0, [], []) ([] @ [(ReconcileCall (''ns'', ''cert''), (0, [], []))]) (u, as, [q])"
  proof (rule runs.handled [OF runs.idle])
    show "Managed (managedController rec_env rec_manager (mainReconciler rec_env ''ns'') (Some ''kmpcertificate''))
        \<in> set (mainControllers rec_env rec_manager ''ns'')" by (simp add: mainControllers_simps)
  qed (simp add: managedController_def r)
  have rec: "recorded (u, as, [q]) = [q]" by (simp add: recorded_def)
  obtain segs where "[q] = concat segs" "list_all2 (call_sends rec_env rec_manager ''ns'') [(ReconcileCall (''ns'', ''cert''), (0, [], []))] segs"
    using runs_requests [OF rec_sent rec_quiet run] by (auto simp: recorded_def)
  then have "call_sends rec_env rec_manager ''ns'' (ReconcileCall (''ns'', ''cert''), (0, [], [])) [q]"
    by (auto simp: list_all2_Cons1)
  then obtain spec d l where f: "reconciled_for rec_env rec_manager ''ns'' (''ns'', ''cert'') (0, [], []) spec d" "addressed rec_env spec d l q"
    by (auto simp: call_sends_def sends_for_def list_all2_Cons2)
  from f(1) have "d = Data demo_auth"
    by (auto simp: reconciled_for_def issued_for_def secret_read_def rec_manager_def split: if_splits)
  moreover have "trimSpace (trimSpace (dataAt (Data demo_auth) ''authtoken'')) = ''token''" by code_simp
  ultimately have "map_of (httpHeaders q) ''Authtoken'' = Some ''token''" using f(2) by (auto simp: addressed_def)
  with run [unfolded append_Nil] rec show ?thesis by blast
qed

end
