(* ===== verification/GoHeap.thy ===== *)
theory GoHeap
  imports Prelude
begin

text \<open>
  Memory that Go code shares through pointers and slices, and what it means for a function to make
  a deep copy: the interface \<open>deepcopy\<close>, its consequences, and the copies of pointers, slices
  and structs from which the generated \<^verbatim>\<open>DeepCopyInto\<close> functions are put together.
\<close>

section \<open>The heap\<close>

text \<open>
  A cell holds what one pointer points to, or the whole backing array of a slice, as long as its
  capacity. Addresses from \<open>fresh\<close> on are not in use.
\<close>

record 'c heap =
  store :: "nat \<rightharpoonup> 'c"
  fresh :: nat

definition heap_ok :: "'c heap \<Rightarrow> bool" where
  "heap_ok h \<longleftrightarrow> (\<forall>a. fresh h \<le> a \<longrightarrow> store h a = None)"

definition newRef :: "'c \<Rightarrow> 'c heap \<Rightarrow> nat \<times> 'c heap" where
  "newRef c h = (fresh h, h\<lparr>store := (store h)(fresh h \<mapsto> c), fresh := Suc (fresh h)\<rparr>)"

text \<open>A pointer is an address or nil; a slice is its backing array and its length, or nil.\<close>

type_synonym pointer = "nat option"
type_synonym slice = "(nat \<times> nat) option"

text \<open>Cells of several types share the heap; \<open>prj\<close> reads those of one type.\<close>

definition readCell :: "('c \<Rightarrow> 'v option) \<Rightarrow> 'c heap \<Rightarrow> nat \<Rightarrow> 'v option" where
  "readCell prj h a = (case store h a of None \<Rightarrow> None | Some c \<Rightarrow> prj c)"

text \<open>Two heaps agree on a set of addresses; a heap extends another when it agrees on all it had.\<close>

definition agree :: "nat set \<Rightarrow> 'c heap \<Rightarrow> 'c heap \<Rightarrow> bool" where
  "agree A h h' \<longleftrightarrow> (\<forall>a\<in>A. store h' a = store h a)"

definition extends :: "'c heap \<Rightarrow> 'c heap \<Rightarrow> bool" where
  "extends h h' \<longleftrightarrow> agree {..<fresh h} h h' \<and> fresh h \<le> fresh h'"

lemma extends_refl [simp]: "extends h h"
  by (simp add: extends_def agree_def)

lemma extends_trans [trans]: "extends h h' \<Longrightarrow> extends h' h'' \<Longrightarrow> extends h h''"
  by (auto simp: extends_def agree_def)

lemma agree_mono: "agree B h h' \<Longrightarrow> A \<subseteq> B \<Longrightarrow> agree A h h'"
  by (auto simp: agree_def)

lemma agree_Un [simp]: "agree (A \<union> B) h h' \<longleftrightarrow> agree A h h' \<and> agree B h h'"
  by (auto simp: agree_def)

lemma agree_trivial [simp]: "agree {} h h'" "agree A h h"
  by (simp_all add: agree_def)

lemma agree_readCell: "agree A h h' \<Longrightarrow> a \<in> A \<Longrightarrow> readCell prj h' a = readCell prj h a"
  by (simp add: agree_def readCell_def)

lemma readCell_fresh: "heap_ok h \<Longrightarrow> readCell prj h a = Some v \<Longrightarrow> a < fresh h"
  by (auto simp: heap_ok_def readCell_def not_le [symmetric] split: option.splits)

lemma newRef_spec:
  assumes "heap_ok h" and "newRef c h = (b, h')"
  shows "heap_ok h'" and "extends h h'" and "readCell prj h' b = prj c" and "b = fresh h" and "fresh h' = Suc (fresh h)"
  using assms by (auto simp: newRef_def heap_ok_def extends_def agree_def readCell_def)

section \<open>The contract of a deep copy\<close>

text \<open>
  An object of type \<open>'o\<close> is a struct whose pointers and slices lead into the heap: \<open>ok\<close> says that
  they lead to cells of their types, \<open>refs\<close> is the set of the addresses they lead to and \<open>view\<close> the
  value of the struct without addresses. Validity, value and addresses depend on the cells at the
  addresses alone. A deep copy is valid, has the value of the original and none of its addresses.
\<close>

locale deepcopy =
  fixes into :: "'o \<Rightarrow> 'c heap \<Rightarrow> 'o \<times> 'c heap"
    and ok :: "'c heap \<Rightarrow> 'o \<Rightarrow> bool"
    and view :: "'c heap \<Rightarrow> 'o \<Rightarrow> 'v"
    and refs :: "'c heap \<Rightarrow> 'o \<Rightarrow> nat set"
  assumes allocated: "heap_ok h \<Longrightarrow> ok h x \<Longrightarrow> refs h x \<subseteq> {..<fresh h}"
    and frame: "ok h x \<Longrightarrow> agree (refs h x) h h' \<Longrightarrow> ok h' x \<and> view h' x = view h x \<and> refs h' x = refs h x"
    and copied: "heap_ok h \<Longrightarrow> ok h x \<Longrightarrow> into x h = (y, h') \<Longrightarrow>
      heap_ok h' \<and> extends h h' \<and> ok h' y \<and> view h' y = view h x \<and> refs h' y \<inter> {..<fresh h} = {}"
begin

lemma kept:
  assumes "heap_ok h" and "ok h x" and "extends h h'"
  shows "ok h' x \<and> view h' x = view h x \<and> refs h' x = refs h x"
proof (rule frame [OF assms(2)])
  show "agree (refs h x) h h'"
    using agree_mono allocated [OF assms(1,2)] assms(3) by (auto simp: extends_def)
qed

text \<open>
  Writes through the original, or anything else that was there before, leave the copy alone; writes
  through the copy, or anything that was made since, leave the original alone.
\<close>

lemma separate:
  assumes "heap_ok h" and "ok h x" and "into x h = (y, h')"
  shows "agree {fresh h..} h' h'' \<Longrightarrow> ok h'' y \<and> view h'' y = view h x"
    and "agree {..<fresh h} h' h'' \<Longrightarrow> ok h'' x \<and> view h'' x = view h x"
proof -
  note c = copied [OF assms]
  assume "agree {fresh h..} h' h''"
  moreover have "refs h' y \<subseteq> {fresh h..}" using c by auto
  ultimately show "ok h'' y \<and> view h'' y = view h x" using c frame [of h' y h''] agree_mono by metis
next
  assume a: "agree {..<fresh h} h' h''"
  have "agree {..<fresh h} h h'" using copied [OF assms] by (simp add: extends_def)
  with a have "agree {..<fresh h} h h''" by (simp add: agree_def)
  then show "ok h'' x \<and> view h'' x = view h x"
    using frame [OF assms(2)] agree_mono [OF _ allocated [OF assms(1,2)]] by blast
qed

end

section \<open>Deep copies of the parts of a struct\<close>

text \<open>A value without pointers is copied by the assignment.\<close>

lemma deepcopy_value: "deepcopy (\<lambda>x h. (x, h)) (\<lambda>h x. True) (\<lambda>h x. x) (\<lambda>h x. {})"
  by unfold_locales auto

text \<open>\<^verbatim>\<open>*out = new(T); **out = **in\<close>, unless the pointer is nil; the cell holds a value without pointers.\<close>

definition copyPointer :: "pointer \<Rightarrow> 'c heap \<Rightarrow> pointer \<times> 'c heap" where
  "copyPointer p h = (case p of
     None \<Rightarrow> (None, h)
   | Some a \<Rightarrow> (case newRef (the (store h a)) h of (b, h') \<Rightarrow> (Some b, h')))"

definition pointerOk :: "('c \<Rightarrow> 'v option) \<Rightarrow> 'c heap \<Rightarrow> pointer \<Rightarrow> bool" where
  "pointerOk prj h p = (case p of None \<Rightarrow> True | Some a \<Rightarrow> readCell prj h a \<noteq> None)"

definition pointerView :: "('c \<Rightarrow> 'v option) \<Rightarrow> 'c heap \<Rightarrow> pointer \<Rightarrow> 'v option" where
  "pointerView prj h p = (case p of None \<Rightarrow> None | Some a \<Rightarrow> readCell prj h a)"

definition pointerRefs :: "'c heap \<Rightarrow> pointer \<Rightarrow> nat set" where
  "pointerRefs h p = set_option p"

lemma deepcopy_pointer: "deepcopy copyPointer (pointerOk prj) (pointerView prj) pointerRefs"
proof
  fix h h' :: "'a heap" and x y :: pointer
  show "heap_ok h \<Longrightarrow> pointerOk prj h x \<Longrightarrow> pointerRefs h x \<subseteq> {..<fresh h}"
    using readCell_fresh by (fastforce simp: pointerOk_def pointerRefs_def split: option.splits)
  show "pointerOk prj h x \<Longrightarrow> agree (pointerRefs h x) h h' \<Longrightarrow>
      pointerOk prj h' x \<and> pointerView prj h' x = pointerView prj h x \<and> pointerRefs h' x = pointerRefs h x"
    by (auto simp: pointerOk_def pointerView_def pointerRefs_def agree_def readCell_def split: option.splits)
  assume h: "heap_ok h" and "pointerOk prj h x" and c: "copyPointer x h = (y, h')"
  then show "heap_ok h' \<and> extends h h' \<and> pointerOk prj h' y \<and> pointerView prj h' y = pointerView prj h x
      \<and> pointerRefs h' y \<inter> {..<fresh h} = {}"
  proof (cases x)
    case (Some a)
    obtain b h1 where n: "newRef (the (store h a)) h = (b, h1)" by fastforce
    with c Some have y: "y = Some b" "h' = h1" by (simp_all add: copyPointer_def)
    have "readCell prj h a = prj (the (store h a))" "readCell prj h a \<noteq> None"
      using \<open>pointerOk prj h x\<close> Some by (auto simp: pointerOk_def readCell_def split: option.splits)
    then show ?thesis
      using newRef_spec(1,2,4) [OF h n] newRef_spec(3) [OF h n, of prj]
      by (simp add: Some y pointerOk_def pointerView_def pointerRefs_def)
  qed (auto simp: copyPointer_def pointerOk_def pointerView_def pointerRefs_def)
qed

text \<open>
  \<^verbatim>\<open>*out = make([]T, len(*in))\<close> and the loop that copies the elements, or the built-in \<^verbatim>\<open>copy\<close> for
  elements without pointers, unless the slice is nil. The array is stored when it is filled: nothing
  reads it before.
\<close>

fun copyAll :: "('o \<Rightarrow> 'c heap \<Rightarrow> 'o \<times> 'c heap) \<Rightarrow> 'o list \<Rightarrow> 'c heap \<Rightarrow> 'o list \<times> 'c heap" where
  "copyAll into [] h = ([], h)"
| "copyAll into (x # xs) h = (case into x h of (y, h1) \<Rightarrow> (case copyAll into xs h1 of (ys, h2) \<Rightarrow> (y # ys, h2)))"

definition elements :: "('c \<Rightarrow> 'o list option) \<Rightarrow> 'c heap \<Rightarrow> nat \<times> nat \<Rightarrow> 'o list" where
  "elements prj h s = (case readCell prj h (fst s) of None \<Rightarrow> [] | Some xs \<Rightarrow> take (snd s) xs)"

definition copySlice :: "('o \<Rightarrow> 'c heap \<Rightarrow> 'o \<times> 'c heap) \<Rightarrow> ('o list \<Rightarrow> 'c) \<Rightarrow> ('c \<Rightarrow> 'o list option)
    \<Rightarrow> slice \<Rightarrow> 'c heap \<Rightarrow> slice \<times> 'c heap" where
  "copySlice into mk_cell prj s h = (case s of
     None \<Rightarrow> (None, h)
   | Some (a, n) \<Rightarrow>
     (case copyAll into (elements prj h (a, n)) h of (ys, h1) \<Rightarrow>
      (case newRef (mk_cell ys) h1 of (b, h2) \<Rightarrow> (Some (b, n), h2))))"

definition sliceOk :: "('c \<Rightarrow> 'o list option) \<Rightarrow> ('c heap \<Rightarrow> 'o \<Rightarrow> bool) \<Rightarrow> 'c heap \<Rightarrow> slice \<Rightarrow> bool" where
  "sliceOk prj ok h s = (case s of
     None \<Rightarrow> True
   | Some (a, n) \<Rightarrow> (case readCell prj h a of None \<Rightarrow> False | Some xs \<Rightarrow> n \<le> length xs)
       \<and> list_all (ok h) (elements prj h (a, n)))"

definition sliceView :: "('c \<Rightarrow> 'o list option) \<Rightarrow> ('c heap \<Rightarrow> 'o \<Rightarrow> 'v) \<Rightarrow> 'c heap \<Rightarrow> slice \<Rightarrow> 'v list option" where
  "sliceView prj view h s = map_option (\<lambda>s. map (view h) (elements prj h s)) s"

definition sliceRefs :: "('c \<Rightarrow> 'o list option) \<Rightarrow> ('c heap \<Rightarrow> 'o \<Rightarrow> nat set) \<Rightarrow> 'c heap \<Rightarrow> slice \<Rightarrow> nat set" where
  "sliceRefs prj refs h s = (case s of
     None \<Rightarrow> {}
   | Some (a, n) \<Rightarrow> insert a (\<Union>x\<in>set (elements prj h (a, n)). refs h x))"

context deepcopy
begin

lemma copyAll_copied:
  "heap_ok h \<Longrightarrow> list_all (ok h) xs \<Longrightarrow> copyAll into xs h = (ys, h') \<Longrightarrow>
   heap_ok h' \<and> extends h h' \<and> list_all (ok h') ys \<and> map (view h') ys = map (view h) xs
     \<and> (\<Union>y\<in>set ys. refs h' y) \<inter> {..<fresh h} = {}"
proof (induction xs arbitrary: h ys h')
  case (Cons x xs)
  obtain y h1 where y: "into x h = (y, h1)" by fastforce
  obtain zs h2 where z: "copyAll into xs h1 = (zs, h2)" by fastforce
  have ys: "ys = y # zs" "h' = h2" using Cons.prems(3) y z by simp_all
  have c: "heap_ok h1" "extends h h1" "ok h1 y" "view h1 y = view h x" "refs h1 y \<inter> {..<fresh h} = {}"
    using copied [OF Cons.prems(1) _ y] Cons.prems(2) by simp_all
  have k: "ok h1 x' \<and> view h1 x' = view h x'" if "x' \<in> set xs" for x'
    using kept [OF Cons.prems(1) _ c(2)] Cons.prems(2) that by (simp add: list_all_iff)
  then have i: "heap_ok h2" "extends h1 h2" "list_all (ok h2) zs" "map (view h2) zs = map (view h1) xs"
      "(\<Union>y\<in>set zs. refs h2 y) \<inter> {..<fresh h1} = {}"
    using Cons.IH [OF c(1) _ z] by (simp_all add: list_all_iff)
  have "(\<Union>y\<in>set zs. refs h2 y) \<inter> {..<fresh h} = {}" using i(5) c(2) by (fastforce simp: extends_def)
  moreover have "extends h h2" using c(2) i(2) by (rule extends_trans)
  ultimately show ?case using kept [OF c(1,3) i(2)] i(1,3,4) c(4,5) k by (simp add: ys Int_Un_distrib2)
qed simp

lemma slice_copied:
  assumes mk_cell: "\<And>xs. prj (mk_cell xs) = Some xs" and h: "heap_ok h" and s: "sliceOk prj ok h s"
    and c: "copySlice into mk_cell prj s h = (t, h')"
  shows "heap_ok h' \<and> extends h h' \<and> sliceOk prj ok h' t \<and> sliceView prj view h' t = sliceView prj view h s
    \<and> sliceRefs prj refs h' t \<inter> {..<fresh h} = {}"
proof (cases s)
  case None
  with h c show ?thesis by (simp add: copySlice_def sliceOk_def sliceView_def sliceRefs_def)
next
  case (Some p)
  obtain a n where p: "s = Some (a, n)" using Some by (cases p) simp
  let ?xs = "elements prj h (a, n)"
  obtain ys h1 where y: "copyAll into ?xs h = (ys, h1)" by fastforce
  obtain b h2 where b: "newRef (mk_cell ys) h1 = (b, h2)" by fastforce
  have t: "t = Some (b, n)" "h' = h2" using c p y b by (simp_all add: copySlice_def)
  have xs: "list_all (ok h) ?xs" "length ?xs = n"
    using s by (auto simp: p sliceOk_def elements_def split: option.splits)
  note i = copyAll_copied [OF h xs(1) y]
  then have h1: "heap_ok h1" by simp
  note r = newRef_spec [OF h1 b]
  have "length ys = n" using i xs(2) by (metis length_map)
  then have e: "elements prj h2 (b, n) = ys" using r(3) [of prj] by (simp add: elements_def mk_cell)
  have k: "ok h2 x \<and> view h2 x = view h1 x \<and> refs h2 x = refs h1 x" if "x \<in> set ys" for x
    using kept [OF h1 _ r(2)] i that by (simp add: list_all_iff)
  have "extends h h2" using i r(2) extends_trans by blast
  moreover have "b \<notin> {..<fresh h}" using r(4) i by (simp add: extends_def)
  ultimately show ?thesis
    using i r(1) r(3) [of prj] k \<open>length ys = n\<close>
    by (simp add: t p e sliceOk_def sliceView_def sliceRefs_def mk_cell list_all_iff cong: map_cong)
qed

lemma deepcopy_slice:
  assumes "\<And>xs. prj (mk_cell xs) = Some xs"
  shows "deepcopy (copySlice into mk_cell prj) (sliceOk prj ok) (sliceView prj view) (sliceRefs prj refs)"
proof
  fix h h' x y
  show "heap_ok h \<Longrightarrow> sliceOk prj ok h x \<Longrightarrow> sliceRefs prj refs h x \<subseteq> {..<fresh h}"
    using readCell_fresh allocated by (fastforce simp: sliceOk_def sliceRefs_def list_all_iff split: option.splits)
  assume "heap_ok h" "sliceOk prj ok h x" "copySlice into mk_cell prj x h = (y, h')"
  then show "heap_ok h' \<and> extends h h' \<and> sliceOk prj ok h' y \<and> sliceView prj view h' y = sliceView prj view h x
      \<and> sliceRefs prj refs h' y \<inter> {..<fresh h} = {}" by (rule slice_copied [OF assms])
next
  fix h h' x
  assume ok: "sliceOk prj ok h x" and a: "agree (sliceRefs prj refs h x) h h'"
  show "sliceOk prj ok h' x \<and> sliceView prj view h' x = sliceView prj view h x \<and> sliceRefs prj refs h' x = sliceRefs prj refs h x"
  proof (cases x)
    case (Some p)
    then obtain b n where p: "x = Some (b, n)" by (cases p) simp
    have r: "readCell prj h' b = readCell prj h b" using a by (intro agree_readCell) (auto simp: p sliceRefs_def)
    then have e: "elements prj h' (b, n) = elements prj h (b, n)" by (simp add: elements_def)
    have f: "ok h' z \<and> view h' z = view h z \<and> refs h' z = refs h z" if "z \<in> set (elements prj h (b, n))" for z
    proof (rule frame)
      show "ok h z" using ok that by (simp add: p sliceOk_def list_all_iff)
      show "agree (refs h z) h h'" using a that by (auto intro: agree_mono simp: p sliceRefs_def)
    qed
    then show ?thesis using ok r by (simp add: p e sliceOk_def sliceView_def sliceRefs_def list_all_iff cong: map_cong)
  qed (simp add: sliceOk_def sliceView_def sliceRefs_def)
qed

end

text \<open>Two parts that are copied one after the other.\<close>

definition copyPair :: "('a \<Rightarrow> 'c heap \<Rightarrow> 'a \<times> 'c heap) \<Rightarrow> ('b \<Rightarrow> 'c heap \<Rightarrow> 'b \<times> 'c heap) \<Rightarrow> 'a \<times> 'b \<Rightarrow> 'c heap
    \<Rightarrow> ('a \<times> 'b) \<times> 'c heap" where
  "copyPair f g p h = (case f (fst p) h of (x, h1) \<Rightarrow> (case g (snd p) h1 of (y, h2) \<Rightarrow> ((x, y), h2)))"

lemma deepcopy_pair:
  assumes "deepcopy f ok1 view1 refs1" and "deepcopy g ok2 view2 refs2"
  shows "deepcopy (copyPair f g) (\<lambda>h p. ok1 h (fst p) \<and> ok2 h (snd p)) (\<lambda>h p. (view1 h (fst p), view2 h (snd p)))
    (\<lambda>h p. refs1 h (fst p) \<union> refs2 h (snd p))"
proof
  fix h h' x y
  show "heap_ok h \<Longrightarrow> ok1 h (fst x) \<and> ok2 h (snd x) \<Longrightarrow> refs1 h (fst x) \<union> refs2 h (snd x) \<subseteq> {..<fresh h}"
    using assms [THEN deepcopy.allocated] by simp
  show "ok1 h (fst x) \<and> ok2 h (snd x) \<Longrightarrow> agree (refs1 h (fst x) \<union> refs2 h (snd x)) h h' \<Longrightarrow>
      (ok1 h' (fst x) \<and> ok2 h' (snd x)) \<and> (view1 h' (fst x), view2 h' (snd x)) = (view1 h (fst x), view2 h (snd x))
      \<and> refs1 h' (fst x) \<union> refs2 h' (snd x) = refs1 h (fst x) \<union> refs2 h (snd x)"
    using deepcopy.frame [OF assms(1), of h "fst x" h'] deepcopy.frame [OF assms(2), of h "snd x" h'] by simp
  assume h: "heap_ok h" and x: "ok1 h (fst x) \<and> ok2 h (snd x)" and c: "copyPair f g x h = (y, h')"
  obtain a h1 where 1: "f (fst x) h = (a, h1)" by fastforce
  obtain b h2 where 2: "g (snd x) h1 = (b, h2)" by fastforce
  have y: "y = (a, b)" "h' = h2" using c 1 2 by (simp_all add: copyPair_def)
  have c1: "heap_ok h1" "extends h h1" "ok1 h1 a" "view1 h1 a = view1 h (fst x)" "refs1 h1 a \<inter> {..<fresh h} = {}"
    using deepcopy.copied [OF assms(1) h _ 1] x by simp_all
  have k: "ok2 h1 (snd x)" "view2 h1 (snd x) = view2 h (snd x)" using deepcopy.kept [OF assms(2) h _ c1(2)] x by simp_all
  note c2 = deepcopy.copied [OF assms(2) c1(1) k(1) 2]
  then have e: "extends h1 h2" by simp
  have "refs2 h2 b \<inter> {..<fresh h} = {}" using c2 c1(2) by (fastforce simp: extends_def)
  then show "heap_ok h' \<and> extends h h' \<and> (ok1 h' (fst y) \<and> ok2 h' (snd y))
      \<and> (view1 h' (fst y), view2 h' (snd y)) = (view1 h (fst x), view2 h (snd x))
      \<and> (refs1 h' (fst y) \<union> refs2 h' (snd y)) \<inter> {..<fresh h} = {}"
    using c1 c2 k deepcopy.kept [OF assms(1) c1(1,3) e] extends_trans [OF c1(2) e] by (simp add: y Int_Un_distrib2)
qed

text \<open>
  A struct: after \<^verbatim>\<open>*out = *in\<close>, which copies the fields without pointers, the others are copied
  in turn. The value of the struct is given by the values of those fields and by what the
  assignments to them leave alone.
\<close>

lemma deepcopy_struct:
  assumes f: "deepcopy f ok view refs"
    and get: "\<And>x s. get (put x s) = x" and mk: "\<And>x s v. mk v (put x s) = mk v s"
    and into: "\<And>s h. into s h = (case f (get s) h of (x, h') \<Rightarrow> (put x s, h'))"
    and ok: "\<And>h s. sok h s = ok h (get s)" and view: "\<And>h s. sview h s = mk (view h (get s)) s"
    and refs: "\<And>h s. srefs h s = refs h (get s)"
  shows "deepcopy into sok sview srefs"
proof
  fix h h' x y
  show "heap_ok h \<Longrightarrow> sok h x \<Longrightarrow> srefs h x \<subseteq> {..<fresh h}" unfolding ok refs by (rule deepcopy.allocated [OF f])
  show "sok h x \<Longrightarrow> agree (srefs h x) h h' \<Longrightarrow> sok h' x \<and> sview h' x = sview h x \<and> srefs h' x = srefs h x"
    unfolding ok view refs using deepcopy.frame [OF f, of h "get x" h'] by simp
  assume h: "heap_ok h" and x: "sok h x" and c: "into x h = (y, h')"
  obtain z h1 where z: "f (get x) h = (z, h1)" by fastforce
  then have "y = put z x" "h' = h1" using c into by simp_all
  then show "heap_ok h' \<and> extends h h' \<and> sok h' y \<and> sview h' y = sview h x \<and> srefs h' y \<inter> {..<fresh h} = {}"
    using deepcopy.copied [OF f h _ z] x by (simp add: get mk ok view refs)
qed

text \<open>The generated \<^verbatim>\<open>DeepCopy\<close> methods: nil for nil, otherwise a new struct that is copied into.\<close>

definition newCopy :: "('o \<Rightarrow> 'c heap \<Rightarrow> 'o \<times> 'c heap) \<Rightarrow> 'o option \<Rightarrow> 'c heap \<Rightarrow> 'o option \<times> 'c heap" where
  "newCopy into x h = (case x of
     None \<Rightarrow> (None, h)
   | Some x \<Rightarrow> (case into x h of (out, h') \<Rightarrow> (Some out, h')))"

end
