(* ===== verification/StatusHeap.thy ===== *)
theory StatusHeap
  imports Certificate GoHeap
begin

text \<open>
  The resources as Go keeps them, with the conditions and names in the backing arrays of slices and
  the optional fields behind pointers. \<^verbatim>\<open>Reconcile\<close> keeps a deep copy of the status, changes the
  original in place and compares the two; this theory shows that the generated \<^verbatim>\<open>DeepCopy\<close> and
  the in-place \<^verbatim>\<open>setCondition\<close> implement the functions on values that the reconciler's model uses.
\<close>

section \<open>Objects\<close>

record status_object =
  oConditions :: slice
  oSerialNumber :: string
  oCSRID :: string
  oNotBefore :: pointer
  oNotAfter :: pointer
  oRenewalTime :: pointer

record private_key_object =
  oAlgorithm :: string
  oSize :: pointer
  oSignatureAlgorithm :: string
  oStoreType :: string

record spec_object =
  oSecretName :: string
  oIssuerRef :: IssuerReference
  oCommonName :: string
  oDNSNames :: slice
  oIPAddresses :: slice
  oSubject :: CertificateSubject
  oPrivateKey :: private_key_object
  oValidityDays :: pointer
  oValidityType :: string
  oRenewBefore :: pointer
  oKeyStorePasswordSecretRef :: pointer

record signing_object =
  oSignType :: string
  oServerName :: string
  oCAName :: string
  oTemplateName :: string
  oAgentName :: string
  oAgentResponseTimeoutSeconds :: pointer
  oRootCertificateCommonName :: string
  oRootCertificateSerialNumber :: string
  oSigningValidityDays :: pointer
  oIsIntermediate :: pointer
  oEmail :: string
  oCSRLookupOperation :: string

record issuer_spec_object =
  oURL :: string
  oAuthSecretName :: string
  oSigning :: signing_object
  oInsecureSkipTLSVerify :: bool
  oRequestTimeout :: pointer

text \<open>
  The metadata and the status of an issuer are types of the API machinery and of issuer-lib: a
  parameter \<open>'x\<close>, whose objects may have cells of their own in the heap. \<^verbatim>\<open>KMPIssuer\<close> and
  \<^verbatim>\<open>KMPClusterIssuer\<close> have the same fields.
\<close>

record TypeMeta =
  Kind :: string
  APIVersion :: string

record 'x certificate_object =
  oTypeMeta :: TypeMeta
  oObjectMeta :: 'x
  oSpec :: spec_object
  oStatus :: status_object

record 'x issuer_resource_object =
  oIssuerTypeMeta :: TypeMeta
  oIssuerObjectMeta :: 'x
  oIssuerSpec :: issuer_spec_object
  oIssuerStatus :: 'x

record 'x list_object =
  oListTypeMeta :: TypeMeta
  oListMeta :: 'x
  oItems :: slice

datatype 'x cell =
    CInt int
  | CBool bool
  | CSelector SecretKeySelector
  | CStrings "string list"
  | CConditions "Condition list"
  | CCertificates "'x certificate_object list"
  | CIssuers "'x issuer_resource_object list"
  | CExternal 'x

fun asInt :: "'x cell \<Rightarrow> int option" where
  "asInt (CInt i) = Some i"
| "asInt _ = None"

fun asConditions :: "'x cell \<Rightarrow> Condition list option" where
  "asConditions (CConditions cs) = Some cs"
| "asConditions _ = None"

section \<open>The status\<close>

definition conditionsAt :: "'x cell heap \<Rightarrow> slice \<Rightarrow> Condition list" where
  "conditionsAt h s = (case sliceView asConditions (\<lambda>h c. c) h s of None \<Rightarrow> [] | Some cs \<Rightarrow> cs)"

definition conditionsOk :: "'x cell heap \<Rightarrow> slice \<Rightarrow> bool" where
  "conditionsOk = sliceOk asConditions (\<lambda>h c. True)"

definition statusOk :: "'x cell heap \<Rightarrow> status_object \<Rightarrow> bool" where
  "statusOk h s \<longleftrightarrow> conditionsOk h (oConditions s) \<and> pointerOk asInt h (oNotBefore s) \<and> pointerOk asInt h (oNotAfter s)
     \<and> pointerOk asInt h (oRenewalTime s)"

definition statusView :: "'x cell heap \<Rightarrow> status_object \<Rightarrow> KMPCertificateStatus" where
  "statusView h s = \<lparr>Conditions = conditionsAt h (oConditions s), stSerialNumber = oSerialNumber s, stCSRID = oCSRID s,
     stNotBefore = pointerView asInt h (oNotBefore s), stNotAfter = pointerView asInt h (oNotAfter s),
     stRenewalTime = pointerView asInt h (oRenewalTime s)\<rparr>"

definition statusRefs :: "'x cell heap \<Rightarrow> status_object \<Rightarrow> nat set" where
  "statusRefs h s = sliceRefs asConditions (\<lambda>h c. {}) h (oConditions s) \<union> (pointerRefs h (oNotBefore s)
     \<union> (pointerRefs h (oNotAfter s) \<union> pointerRefs h (oRenewalTime s)))"

text \<open>
  \<^verbatim>\<open>metav1.Condition\<close> has no pointers, so the \<^verbatim>\<open>DeepCopyInto\<close> of an element is an assignment;
  \<^verbatim>\<open>(*metav1.Time).DeepCopy\<close> makes a new time.
\<close>

definition copyConditions :: "slice \<Rightarrow> 'x cell heap \<Rightarrow> slice \<times> 'x cell heap" where
  "copyConditions = copySlice (\<lambda>c h. (c, h)) CConditions asConditions"

definition KMPCertificateStatus_DeepCopyInto :: "status_object \<Rightarrow> 'x cell heap \<Rightarrow> status_object \<times> 'x cell heap" where
  "KMPCertificateStatus_DeepCopyInto s h =
     (let out = s;
          (cs, h) = copyConditions (oConditions s) h; out = out\<lparr>oConditions := cs\<rparr>;
          (nb, h) = copyPointer (oNotBefore s) h; out = out\<lparr>oNotBefore := nb\<rparr>;
          (na, h) = copyPointer (oNotAfter s) h; out = out\<lparr>oNotAfter := na\<rparr>;
          (rt, h) = copyPointer (oRenewalTime s) h; out = out\<lparr>oRenewalTime := rt\<rparr>
      in (out, h))"

definition KMPCertificateStatus_DeepCopy :: "status_object option \<Rightarrow> 'x cell heap \<Rightarrow> status_object option \<times> 'x cell heap" where
  "KMPCertificateStatus_DeepCopy = newCopy KMPCertificateStatus_DeepCopyInto"

text \<open>The backing array of the conditions.\<close>

definition arrayAt :: "'x cell heap \<Rightarrow> nat \<Rightarrow> Condition list" where
  "arrayAt h a = (case readCell asConditions h a of None \<Rightarrow> [] | Some cs \<Rightarrow> cs)"

text \<open>
  The built-in \<^verbatim>\<open>append\<close> of one element: in place when the capacity allows it, otherwise in a new
  array with some spare elements, as many as the runtime chooses.
\<close>

definition appendCondition :: "Condition list \<Rightarrow> slice \<Rightarrow> Condition \<Rightarrow> 'x cell heap \<Rightarrow> slice \<times> 'x cell heap" where
  "appendCondition spare s x h = (case s of
     None \<Rightarrow> (case newRef (CConditions (x # spare)) h of (b, h') \<Rightarrow> (Some (b, 1), h'))
   | Some (a, n) \<Rightarrow>
     let xs = arrayAt h a in
     if n < length xs then (Some (a, Suc n), h\<lparr>store := (store h)(a \<mapsto> CConditions (xs[n := x]))\<rparr>)
     else case newRef (CConditions (xs @ x # spare)) h of (b, h') \<Rightarrow> (Some (b, Suc n), h'))"

text \<open>The loop of \<^verbatim>\<open>setCondition\<close>: the index of the first condition of the type.\<close>

fun conditionIndex :: "string \<Rightarrow> Condition list \<Rightarrow> nat option" where
  "conditionIndex t [] = None"
| "conditionIndex t (c # cs) = (if condType c = t then Some 0 else map_option Suc (conditionIndex t cs))"

definition setConditionInPlace :: "Condition list \<Rightarrow> int \<Rightarrow> slice \<Rightarrow> int \<Rightarrow> string \<Rightarrow> string \<Rightarrow> string \<Rightarrow> string \<Rightarrow> 'x cell heap
    \<Rightarrow> (slice \<times> bool) \<times> 'x cell heap" where
  "setConditionInPlace spare now s generation conditionType st reason msg h =
     (case conditionIndex conditionType (conditionsAt h s) of
        Some i \<Rightarrow>
          (case s of
             None \<Rightarrow> ((s, False), h)
           | Some (a, n) \<Rightarrow>
             let existing = arrayAt h a ! i in
             if condStatus existing = st \<and> condReason existing = reason
                \<and> condMessage existing = msg \<and> condObservedGeneration existing = generation
             then ((s, False), h)
             else let existing = (if condStatus existing \<noteq> st then existing\<lparr>condLastTransitionTime := now\<rparr> else existing);
                      existing = existing\<lparr>condStatus := st, condReason := reason, condMessage := msg,
                        condObservedGeneration := generation\<rparr>
                  in ((s, True), h\<lparr>store := (store h)(a \<mapsto> CConditions ((arrayAt h a)[i := existing]))\<rparr>))
      | None \<Rightarrow>
          (case appendCondition spare s \<lparr>condType = conditionType, condStatus = st, condReason = reason, condMessage = msg,
              condObservedGeneration = generation, condLastTransitionTime = now\<rparr> h of
             (s', h') \<Rightarrow> ((s', True), h')))"

section \<open>The copy of a status\<close>

lemmas deepcopy_conditions = deepcopy.deepcopy_slice [OF deepcopy_value, of asConditions CConditions, OF asConditions.simps(1)]

lemma status_deepcopy: "deepcopy KMPCertificateStatus_DeepCopyInto statusOk statusView statusRefs"
  by (rule deepcopy_struct [OF deepcopy_pair [OF deepcopy_conditions deepcopy_pair [OF deepcopy_pointer deepcopy_pair
        [OF deepcopy_pointer deepcopy_pointer]]],
      where get = "\<lambda>s. (oConditions s, oNotBefore s, oNotAfter s, oRenewalTime s)"
        and put = "\<lambda>(cs, nb, na, rt) s. s\<lparr>oConditions := cs, oNotBefore := nb, oNotAfter := na, oRenewalTime := rt\<rparr>"
        and mk = "\<lambda>(cs, nb, na, rt) s. \<lparr>Conditions = (case cs of None \<Rightarrow> [] | Some cs \<Rightarrow> cs), stSerialNumber = oSerialNumber s,
          stCSRID = oCSRID s, stNotBefore = nb, stNotAfter = na, stRenewalTime = rt\<rparr>"])
    (auto simp: KMPCertificateStatus_DeepCopyInto_def copyConditions_def copyPair_def statusOk_def conditionsOk_def statusView_def
      conditionsAt_def statusRefs_def split: prod.splits)

interpretation status_copy: deepcopy KMPCertificateStatus_DeepCopyInto statusOk statusView statusRefs
  by (rule status_deepcopy)

section \<open>In-place updates\<close>

lemma setCondition_absent:
  "conditionIndex t cs = None \<Longrightarrow> setCondition now cs g t s r m = (cs @ [\<lparr>condType = t, condStatus = s, condReason = r,
     condMessage = m, condObservedGeneration = g, condLastTransitionTime = now\<rparr>], True)"
  by (induction cs) (auto split: if_splits)

lemma setCondition_present:
  "conditionIndex t cs = Some i \<Longrightarrow> i < length cs \<and> setCondition now cs g t s r m =
     (let e = cs ! i in
      if condStatus e = s \<and> condReason e = r \<and> condMessage e = m \<and> condObservedGeneration e = g then (cs, False)
      else (cs[i := (if condStatus e \<noteq> s then e\<lparr>condLastTransitionTime := now\<rparr> else e)\<lparr>condStatus := s, condReason := r,
              condMessage := m, condObservedGeneration := g\<rparr>], True))"
  by (induction cs arbitrary: i) (auto simp: Let_def split: if_splits)

lemma conditionsAt_simps [simp]:
  "conditionsAt h None = []" "conditionsAt h (Some (a, n)) = take n (arrayAt h a)"
  by (simp_all add: conditionsAt_def sliceView_def elements_def arrayAt_def split: option.split)

lemma conditionsOk_Some: "conditionsOk h (Some (a, n)) \<longleftrightarrow> (\<exists>xs. readCell asConditions h a = Some xs \<and> n \<le> length xs)"
  by (simp add: conditionsOk_def sliceOk_def list_all_iff split: option.split)

lemma arrayAt_eq: "readCell asConditions h a = Some xs \<Longrightarrow> arrayAt h a = xs"
  by (simp add: arrayAt_def)

lemma arrayAt_write [simp]: "arrayAt (h\<lparr>store := (store h)(a \<mapsto> CConditions xs)\<rparr>) a = xs"
  by (simp add: arrayAt_def readCell_def)

text \<open>What was there and is not behind the slice stays as it is.\<close>

definition elsewhere :: "slice \<Rightarrow> 'x cell heap \<Rightarrow> nat set" where
  "elsewhere s h = {a. a < fresh h \<and> (\<forall>n. s \<noteq> Some (a, n))}"

lemma newRef_array:
  assumes "heap_ok h" and "newRef (CConditions xs) h = (b, h')"
  shows "arrayAt h' b = xs" and "agree (elsewhere s h) h h'"
  using newRef_spec(2) [OF assms] newRef_spec(3) [OF assms, of asConditions]
  by (auto simp: arrayAt_def extends_def agree_def elsewhere_def)

lemma write_elsewhere: "agree (elsewhere (Some (a, n)) h) h (h\<lparr>store := (store h)(a \<mapsto> c)\<rparr>)"
  by (auto simp: agree_def elsewhere_def)

lemma appendCondition_spec:
  assumes "heap_ok h" and "conditionsOk h s" and "appendCondition spare s x h = (s', h')"
  shows "conditionsAt h' s' = conditionsAt h s @ [x]" and "agree (elsewhere s h) h h'"
proof -
  have "conditionsAt h' s' = conditionsAt h s @ [x] \<and> agree (elsewhere s h) h h'"
  proof (cases s)
    case None
    with assms(3) show ?thesis
      using newRef_array [OF assms(1), of "x # spare"] by (auto simp: appendCondition_def split: prod.splits)
  next
    case (Some p)
    then obtain a n where s: "s = Some (a, n)" by (cases p) simp
    then have n: "n \<le> length (arrayAt h a)" using assms(2) by (auto simp: conditionsOk_Some arrayAt_eq)
    show ?thesis
    proof (cases "n < length (arrayAt h a)")
      case True
      then have "s' = Some (a, Suc n)" "h' = h\<lparr>store := (store h)(a \<mapsto> CConditions ((arrayAt h a)[n := x]))\<rparr>"
        using assms(3) by (auto simp: s appendCondition_def Let_def)
      with True show ?thesis by (simp add: s write_elsewhere take_Suc_conv_app_nth)
    next
      case False
      with n assms(3) show ?thesis
        using newRef_array [OF assms(1), of "arrayAt h a @ x # spare"]
        by (auto simp: s appendCondition_def Let_def split: prod.splits)
    qed
  qed
  then show "conditionsAt h' s' = conditionsAt h s @ [x]" "agree (elsewhere s h) h h'" by blast+
qed

lemma setConditionInPlace_spec:
  assumes "heap_ok h" and "conditionsOk h s" and "setConditionInPlace spare now s g t st r m h = ((s', ch), h')"
  shows "(conditionsAt h' s', ch) = setCondition now (conditionsAt h s) g t st r m \<and> agree (elsewhere s h) h h'"
proof (cases "conditionIndex t (conditionsAt h s)")
  case None
  let ?x = "\<lparr>condType = t, condStatus = st, condReason = r, condMessage = m, condObservedGeneration = g, condLastTransitionTime = now\<rparr>"
  obtain s1 h1 where a: "appendCondition spare s ?x h = (s1, h1)" by fastforce
  then have "s' = s1" "h' = h1" "ch" using assms(3) None by (simp_all add: setConditionInPlace_def)
  then show ?thesis using appendCondition_spec [OF assms(1,2) a] setCondition_absent [OF None] by simp
next
  case (Some i)
  note p = setCondition_present [OF Some, of now g st r m]
  from p obtain a n where s: "s = Some (a, n)" by (cases s) auto
  then have i: "i < n" "take n (arrayAt h a) ! i = arrayAt h a ! i" using p by auto
  then show ?thesis
    using assms(3) p
    by (auto simp: setConditionInPlace_def Some [unfolded s, simplified] s Let_def take_update_swap write_elsewhere split: if_splits)
qed

text \<open>A pointer to a time and a slice of conditions never lead to the same cell.\<close>

lemma elsewhere_pointer:
  assumes "heap_ok h" and "conditionsOk h s" and "pointerOk asInt h p" and "agree (elsewhere s h) h h'"
  shows "pointerView asInt h' p = pointerView asInt h p"
proof (cases p)
  case (Some q)
  then obtain v where v: "readCell asInt h q = Some v" using assms(3) by (auto simp: pointerOk_def)
  then have "store h q = Some (CInt v)" by (auto simp: readCell_def split: option.splits elim: asInt.elims)
  then have "s \<noteq> Some (q, n)" for n using assms(2) by (auto simp: conditionsOk_Some readCell_def)
  then have "q \<in> elsewhere s h" using readCell_fresh [OF assms(1) v] by (simp add: elsewhere_def)
  then show ?thesis using agree_readCell [OF assms(4)] by (simp add: Some pointerView_def)
qed (simp add: pointerView_def)

section \<open>Properties\<close>

text \<open>
  C18. The copy \<^verbatim>\<open>Reconcile\<close> keeps is not touched by the updates that follow, and the updates in place
  do what the value-level function does: after a deep copy and a \<^verbatim>\<open>setCondition\<close> on the original,
  the copy still has the value the status had, the original has the value with the new
  conditions, and the two differ exactly when \<^verbatim>\<open>setCondition\<close> reported a change, which is when the
  deferred function writes the status.
\<close>

theorem DeepCopy_then_setCondition:
  assumes "heap_ok h" and "statusOk h s" and "KMPCertificateStatus_DeepCopy (Some s) h = (Some before, h1)"
    and "setConditionInPlace spare now (oConditions s) g t st r m h1 = ((cs, changed), h2)"
  shows "statusView h2 before = statusView h s
    \<and> statusView h2 (s\<lparr>oConditions := cs\<rparr>)
        = (statusView h s)\<lparr>Conditions := fst (setCondition now (Conditions (statusView h s)) g t st r m)\<rparr>
    \<and> (statusView h2 before \<noteq> statusView h2 (s\<lparr>oConditions := cs\<rparr>) \<longleftrightarrow> changed)"
proof -
  have into: "KMPCertificateStatus_DeepCopyInto s h = (before, h1)"
    using assms(3) by (auto simp: KMPCertificateStatus_DeepCopy_def newCopy_def split: prod.splits)
  note d = status_copy.copied [OF assms(1,2) into]
  then have k: "statusOk h1 s" "statusView h1 s = statusView h s"
    using status_copy.kept [OF assms(1,2)] by blast+
  have p: "(conditionsAt h2 cs, changed) = setCondition now (conditionsAt h1 (oConditions s)) g t st r m"
      "agree (elsewhere (oConditions s) h1) h1 h2"
    using setConditionInPlace_spec [OF _ _ assms(4)] d k(1) by (simp_all add: statusOk_def)
  have "statusRefs h1 before \<subseteq> elsewhere (oConditions s) h1"
  proof
    fix a
    assume a: "a \<in> statusRefs h1 before"
    then have "a < fresh h1" "\<not> a < fresh h" using d status_copy.allocated [of h1 before] by auto
    moreover have "oConditions s = Some (a, n) \<Longrightarrow> a < fresh h" for n
      using assms(1,2) by (auto simp: statusOk_def conditionsOk_Some dest: readCell_fresh)
    ultimately show "a \<in> elsewhere (oConditions s) h1" by (auto simp: elsewhere_def)
  qed
  then have b: "statusView h2 before = statusView h s"
    using status_copy.frame [of h1 before h2] agree_mono [OF p(2)] d by metis
  have o: "statusView h2 (s\<lparr>oConditions := cs\<rparr>) = (statusView h s)\<lparr>Conditions := conditionsAt h2 cs\<rparr>"
    using elsewhere_pointer [OF _ _ _ p(2)] d k by (simp add: statusView_def statusOk_def)
  have v: "conditionsAt h1 (oConditions s) = Conditions (statusView h s)" using k(2) by (simp add: statusView_def)
  have c: "conditionsAt h2 cs = fst (setCondition now (Conditions (statusView h s)) g t st r m)"
      "changed \<longleftrightarrow> snd (setCondition now (Conditions (statusView h s)) g t st r m)"
    using p(1) unfolding v by (metis fst_conv, metis snd_conv)
  have "statusView h s \<noteq> (statusView h s)\<lparr>Conditions := x\<rparr> \<longleftrightarrow> x \<noteq> Conditions (statusView h s)" for x
    by (auto simp: statusView_def)
  with b o c setCondition_changed show ?thesis by simp
qed

definition demo_heap :: "unit cell heap" where
  "demo_heap = \<lparr>store = [0 \<mapsto> CConditions [\<lparr>condType = ''Ready'', condStatus = ''False'', condReason = ''Failed'', condMessage = ''boom'',
     condObservedGeneration = 1, condLastTransitionTime = 5\<rparr>], 1 \<mapsto> CInt 1000], fresh = 2\<rparr>"

definition demo_object_status :: status_object where
  "demo_object_status = \<lparr>oConditions = Some (0, 1), oSerialNumber = ''0A'', oCSRID = ''7'', oNotBefore = None,
     oNotAfter = Some 1, oRenewalTime = None\<rparr>"

lemma demo_heap_ok: "heap_ok demo_heap"
  by (auto simp: heap_ok_def demo_heap_def)

lemma demo_statusOk: "statusOk demo_heap demo_object_status"
  by (simp add: statusOk_def conditionsOk_Some pointerOk_def readCell_def demo_heap_def demo_object_status_def)

theorem DeepCopy_then_setCondition_witness:
  "\<exists>before h1 cs h2. KMPCertificateStatus_DeepCopy (Some demo_object_status) demo_heap = (Some before, h1)
     \<and> setConditionInPlace [] 9 (Some (0, 1)) 1 ''Ready'' ''True'' ''Issued'' [] h1 = ((cs, True), h2)
     \<and> statusView h2 before = statusView demo_heap demo_object_status"
proof -
  obtain before h1 where b: "KMPCertificateStatus_DeepCopy (Some demo_object_status) demo_heap = (Some before, h1)"
    by (cases "KMPCertificateStatus_DeepCopyInto demo_object_status demo_heap") (simp add: KMPCertificateStatus_DeepCopy_def newCopy_def)
  obtain cs ch h2 where c: "setConditionInPlace [] 9 (oConditions demo_object_status) 1 ''Ready'' ''True'' ''Issued'' [] h1 = ((cs, ch), h2)"
    by (metis surj_pair)
  note r = DeepCopy_then_setCondition [OF demo_heap_ok demo_statusOk b c]
  have "statusView demo_heap demo_object_status \<noteq> (statusView demo_heap demo_object_status)\<lparr>Conditions :=
      fst (setCondition 9 (Conditions (statusView demo_heap demo_object_status)) 1 ''Ready'' ''True'' ''Issued'' [])\<rparr>"
    by (simp add: statusView_def arrayAt_def readCell_def demo_heap_def demo_object_status_def)
  with r have "ch" by metis
  with b c r show ?thesis by (auto simp: demo_object_status_def)
qed

end
