(* ===== verification/DeepCopies.thy ===== *)
theory DeepCopies
  imports StatusHeap
begin

text \<open>
  The generated deep copies of the API types (\<^verbatim>\<open>zz_generated.deepcopy.go\<close>), in the order of the
  file's types from the specs up to the lists, and \<^verbatim>\<open>DeepCopyObject\<close>, through which the API
  machinery copies any resource. Each is shown to be a deep copy in the sense of \<open>deepcopy\<close>.
\<close>

section \<open>The specs\<close>

fun asBool :: "'x cell \<Rightarrow> bool option" where
  "asBool (CBool b) = Some b"
| "asBool _ = None"

fun asSelector :: "'x cell \<Rightarrow> SecretKeySelector option" where
  "asSelector (CSelector s) = Some s"
| "asSelector _ = None"

fun asStrings :: "'x cell \<Rightarrow> string list option" where
  "asStrings (CStrings ss) = Some ss"
| "asStrings _ = None"

definition SigningSpec_DeepCopyInto :: "signing_object \<Rightarrow> 'x cell heap \<Rightarrow> signing_object \<times> 'x cell heap" where
  "SigningSpec_DeepCopyInto s h =
     (let out = s;
          (t, h) = copyPointer (oAgentResponseTimeoutSeconds s) h; out = out\<lparr>oAgentResponseTimeoutSeconds := t\<rparr>;
          (v, h) = copyPointer (oSigningValidityDays s) h; out = out\<lparr>oSigningValidityDays := v\<rparr>;
          (i, h) = copyPointer (oIsIntermediate s) h; out = out\<lparr>oIsIntermediate := i\<rparr>
      in (out, h))"

definition SigningSpec_DeepCopy :: "signing_object option \<Rightarrow> 'x cell heap \<Rightarrow> signing_object option \<times> 'x cell heap" where
  "SigningSpec_DeepCopy = newCopy SigningSpec_DeepCopyInto"

definition IssuerSpec_DeepCopyInto :: "issuer_spec_object \<Rightarrow> 'x cell heap \<Rightarrow> issuer_spec_object \<times> 'x cell heap" where
  "IssuerSpec_DeepCopyInto s h =
     (let out = s;
          (g, h) = SigningSpec_DeepCopyInto (oSigning s) h; out = out\<lparr>oSigning := g\<rparr>;
          (t, h) = copyPointer (oRequestTimeout s) h; out = out\<lparr>oRequestTimeout := t\<rparr>
      in (out, h))"

definition IssuerSpec_DeepCopy :: "issuer_spec_object option \<Rightarrow> 'x cell heap \<Rightarrow> issuer_spec_object option \<times> 'x cell heap" where
  "IssuerSpec_DeepCopy = newCopy IssuerSpec_DeepCopyInto"

definition CertificateSubject_DeepCopyInto :: "CertificateSubject \<Rightarrow> 'x cell heap \<Rightarrow> CertificateSubject \<times> 'x cell heap" where
  "CertificateSubject_DeepCopyInto s h = (s, h)"

definition CertificateSubject_DeepCopy :: "CertificateSubject option \<Rightarrow> 'x cell heap \<Rightarrow> CertificateSubject option \<times> 'x cell heap" where
  "CertificateSubject_DeepCopy = newCopy CertificateSubject_DeepCopyInto"

definition IssuerReference_DeepCopyInto :: "IssuerReference \<Rightarrow> 'x cell heap \<Rightarrow> IssuerReference \<times> 'x cell heap" where
  "IssuerReference_DeepCopyInto r h = (r, h)"

definition IssuerReference_DeepCopy :: "IssuerReference option \<Rightarrow> 'x cell heap \<Rightarrow> IssuerReference option \<times> 'x cell heap" where
  "IssuerReference_DeepCopy = newCopy IssuerReference_DeepCopyInto"

definition PrivateKeySpec_DeepCopyInto :: "private_key_object \<Rightarrow> 'x cell heap \<Rightarrow> private_key_object \<times> 'x cell heap" where
  "PrivateKeySpec_DeepCopyInto k h =
     (let out = k;
          (n, h) = copyPointer (oSize k) h; out = out\<lparr>oSize := n\<rparr>
      in (out, h))"

definition PrivateKeySpec_DeepCopy :: "private_key_object option \<Rightarrow> 'x cell heap \<Rightarrow> private_key_object option \<times> 'x cell heap" where
  "PrivateKeySpec_DeepCopy = newCopy PrivateKeySpec_DeepCopyInto"

definition SecretKeySelector_DeepCopyInto :: "SecretKeySelector \<Rightarrow> 'x cell heap \<Rightarrow> SecretKeySelector \<times> 'x cell heap" where
  "SecretKeySelector_DeepCopyInto s h = (s, h)"

definition SecretKeySelector_DeepCopy :: "SecretKeySelector option \<Rightarrow> 'x cell heap \<Rightarrow> SecretKeySelector option \<times> 'x cell heap" where
  "SecretKeySelector_DeepCopy = newCopy SecretKeySelector_DeepCopyInto"

text \<open>\<^verbatim>\<open>make([]string, len(*in))\<close> and \<^verbatim>\<open>copy(*out, *in)\<close>.\<close>

definition copyStrings :: "slice \<Rightarrow> 'x cell heap \<Rightarrow> slice \<times> 'x cell heap" where
  "copyStrings = copySlice (\<lambda>s h. (s, h)) CStrings asStrings"

definition KMPCertificateSpec_DeepCopyInto :: "spec_object \<Rightarrow> 'x cell heap \<Rightarrow> spec_object \<times> 'x cell heap" where
  "KMPCertificateSpec_DeepCopyInto s h =
     (let out = s; out = out\<lparr>oIssuerRef := oIssuerRef s\<rparr>;
          (ds, h) = copyStrings (oDNSNames s) h; out = out\<lparr>oDNSNames := ds\<rparr>;
          (ips, h) = copyStrings (oIPAddresses s) h; out = out\<lparr>oIPAddresses := ips\<rparr>;
          out = out\<lparr>oSubject := oSubject s\<rparr>;
          (k, h) = PrivateKeySpec_DeepCopyInto (oPrivateKey s) h; out = out\<lparr>oPrivateKey := k\<rparr>;
          (v, h) = copyPointer (oValidityDays s) h; out = out\<lparr>oValidityDays := v\<rparr>;
          (r, h) = copyPointer (oRenewBefore s) h; out = out\<lparr>oRenewBefore := r\<rparr>;
          (p, h) = copyPointer (oKeyStorePasswordSecretRef s) h; out = out\<lparr>oKeyStorePasswordSecretRef := p\<rparr>
      in (out, h))"

definition KMPCertificateSpec_DeepCopy :: "spec_object option \<Rightarrow> 'x cell heap \<Rightarrow> spec_object option \<times> 'x cell heap" where
  "KMPCertificateSpec_DeepCopy = newCopy KMPCertificateSpec_DeepCopyInto"

section \<open>The resources and their lists\<close>

text \<open>
  The deep copies of \<^verbatim>\<open>metav1.ObjectMeta\<close>, \<^verbatim>\<open>metav1.ListMeta\<close> and issuer-lib's \<^verbatim>\<open>IssuerStatus\<close>.
\<close>

record 'x externals =
  ObjectMeta_DeepCopyInto :: "'x \<Rightarrow> 'x cell heap \<Rightarrow> 'x \<times> 'x cell heap"
  ListMeta_DeepCopyInto :: "'x \<Rightarrow> 'x cell heap \<Rightarrow> 'x \<times> 'x cell heap"
  IssuerStatus_DeepCopyInto :: "'x \<Rightarrow> 'x cell heap \<Rightarrow> 'x \<times> 'x cell heap"

definition KMPIssuer_DeepCopyInto :: "'x externals \<Rightarrow> 'x issuer_resource_object \<Rightarrow> 'x cell heap \<Rightarrow> 'x issuer_resource_object \<times> 'x cell heap" where
  "KMPIssuer_DeepCopyInto X i h =
     (let out = i; out = out\<lparr>oIssuerTypeMeta := oIssuerTypeMeta i\<rparr>;
          (m, h) = ObjectMeta_DeepCopyInto X (oIssuerObjectMeta i) h; out = out\<lparr>oIssuerObjectMeta := m\<rparr>;
          (s, h) = IssuerSpec_DeepCopyInto (oIssuerSpec i) h; out = out\<lparr>oIssuerSpec := s\<rparr>;
          (t, h) = IssuerStatus_DeepCopyInto X (oIssuerStatus i) h; out = out\<lparr>oIssuerStatus := t\<rparr>
      in (out, h))"

definition KMPIssuer_DeepCopy :: "'x externals \<Rightarrow> 'x issuer_resource_object option \<Rightarrow> 'x cell heap
    \<Rightarrow> 'x issuer_resource_object option \<times> 'x cell heap" where
  "KMPIssuer_DeepCopy X = newCopy (KMPIssuer_DeepCopyInto X)"

definition KMPClusterIssuer_DeepCopyInto :: "'x externals \<Rightarrow> 'x issuer_resource_object \<Rightarrow> 'x cell heap
    \<Rightarrow> 'x issuer_resource_object \<times> 'x cell heap" where
  "KMPClusterIssuer_DeepCopyInto X i h =
     (let out = i; out = out\<lparr>oIssuerTypeMeta := oIssuerTypeMeta i\<rparr>;
          (m, h) = ObjectMeta_DeepCopyInto X (oIssuerObjectMeta i) h; out = out\<lparr>oIssuerObjectMeta := m\<rparr>;
          (s, h) = IssuerSpec_DeepCopyInto (oIssuerSpec i) h; out = out\<lparr>oIssuerSpec := s\<rparr>;
          (t, h) = IssuerStatus_DeepCopyInto X (oIssuerStatus i) h; out = out\<lparr>oIssuerStatus := t\<rparr>
      in (out, h))"

definition KMPClusterIssuer_DeepCopy :: "'x externals \<Rightarrow> 'x issuer_resource_object option \<Rightarrow> 'x cell heap
    \<Rightarrow> 'x issuer_resource_object option \<times> 'x cell heap" where
  "KMPClusterIssuer_DeepCopy X = newCopy (KMPClusterIssuer_DeepCopyInto X)"

definition KMPCertificate_DeepCopyInto :: "'x externals \<Rightarrow> 'x certificate_object \<Rightarrow> 'x cell heap
    \<Rightarrow> 'x certificate_object \<times> 'x cell heap" where
  "KMPCertificate_DeepCopyInto X c h =
     (let out = c; out = out\<lparr>oTypeMeta := oTypeMeta c\<rparr>;
          (m, h) = ObjectMeta_DeepCopyInto X (oObjectMeta c) h; out = out\<lparr>oObjectMeta := m\<rparr>;
          (s, h) = KMPCertificateSpec_DeepCopyInto (oSpec c) h; out = out\<lparr>oSpec := s\<rparr>;
          (t, h) = KMPCertificateStatus_DeepCopyInto (oStatus c) h; out = out\<lparr>oStatus := t\<rparr>
      in (out, h))"

definition KMPCertificate_DeepCopy :: "'x externals \<Rightarrow> 'x certificate_object option \<Rightarrow> 'x cell heap
    \<Rightarrow> 'x certificate_object option \<times> 'x cell heap" where
  "KMPCertificate_DeepCopy X = newCopy (KMPCertificate_DeepCopyInto X)"

fun asIssuers :: "'x cell \<Rightarrow> 'x issuer_resource_object list option" where
  "asIssuers (CIssuers is) = Some is"
| "asIssuers _ = None"

fun asCertificates :: "'x cell \<Rightarrow> 'x certificate_object list option" where
  "asCertificates (CCertificates cs) = Some cs"
| "asCertificates _ = None"

definition KMPIssuerList_DeepCopyInto :: "'x externals \<Rightarrow> 'x list_object \<Rightarrow> 'x cell heap \<Rightarrow> 'x list_object \<times> 'x cell heap" where
  "KMPIssuerList_DeepCopyInto X l h =
     (let out = l; out = out\<lparr>oListTypeMeta := oListTypeMeta l\<rparr>;
          (m, h) = ListMeta_DeepCopyInto X (oListMeta l) h; out = out\<lparr>oListMeta := m\<rparr>;
          (is, h) = copySlice (KMPIssuer_DeepCopyInto X) CIssuers asIssuers (oItems l) h; out = out\<lparr>oItems := is\<rparr>
      in (out, h))"

definition KMPIssuerList_DeepCopy :: "'x externals \<Rightarrow> 'x list_object option \<Rightarrow> 'x cell heap \<Rightarrow> 'x list_object option \<times> 'x cell heap" where
  "KMPIssuerList_DeepCopy X = newCopy (KMPIssuerList_DeepCopyInto X)"

definition KMPClusterIssuerList_DeepCopyInto :: "'x externals \<Rightarrow> 'x list_object \<Rightarrow> 'x cell heap
    \<Rightarrow> 'x list_object \<times> 'x cell heap" where
  "KMPClusterIssuerList_DeepCopyInto X l h =
     (let out = l; out = out\<lparr>oListTypeMeta := oListTypeMeta l\<rparr>;
          (m, h) = ListMeta_DeepCopyInto X (oListMeta l) h; out = out\<lparr>oListMeta := m\<rparr>;
          (is, h) = copySlice (KMPClusterIssuer_DeepCopyInto X) CIssuers asIssuers (oItems l) h; out = out\<lparr>oItems := is\<rparr>
      in (out, h))"

definition KMPClusterIssuerList_DeepCopy :: "'x externals \<Rightarrow> 'x list_object option \<Rightarrow> 'x cell heap
    \<Rightarrow> 'x list_object option \<times> 'x cell heap" where
  "KMPClusterIssuerList_DeepCopy X = newCopy (KMPClusterIssuerList_DeepCopyInto X)"

definition KMPCertificateList_DeepCopyInto :: "'x externals \<Rightarrow> 'x list_object \<Rightarrow> 'x cell heap \<Rightarrow> 'x list_object \<times> 'x cell heap" where
  "KMPCertificateList_DeepCopyInto X l h =
     (let out = l; out = out\<lparr>oListTypeMeta := oListTypeMeta l\<rparr>;
          (m, h) = ListMeta_DeepCopyInto X (oListMeta l) h; out = out\<lparr>oListMeta := m\<rparr>;
          (cs, h) = copySlice (KMPCertificate_DeepCopyInto X) CCertificates asCertificates (oItems l) h; out = out\<lparr>oItems := cs\<rparr>
      in (out, h))"

definition KMPCertificateList_DeepCopy :: "'x externals \<Rightarrow> 'x list_object option \<Rightarrow> 'x cell heap
    \<Rightarrow> 'x list_object option \<times> 'x cell heap" where
  "KMPCertificateList_DeepCopy X = newCopy (KMPCertificateList_DeepCopyInto X)"

text \<open>
  A \<^verbatim>\<open>runtime.Object\<close> is a pointer to one of the resources, which may be nil, or the nil interface,
  the \<^const>\<open>None\<close> of the results: \<^verbatim>\<open>DeepCopyObject\<close> never returns a nil pointer in an interface.
\<close>

datatype 'x runtime_object =
    RIssuer "'x issuer_resource_object option"
  | RIssuerList "'x list_object option"
  | RClusterIssuer "'x issuer_resource_object option"
  | RClusterIssuerList "'x list_object option"
  | RCertificate "'x certificate_object option"
  | RCertificateList "'x list_object option"

definition objectOf :: "('o option \<Rightarrow> 'x runtime_object) \<Rightarrow> 'o option \<times> 'x cell heap \<Rightarrow> 'x runtime_object option \<times> 'x cell heap" where
  "objectOf wrap r = (case r of (None, h) \<Rightarrow> (None, h) | (Some c, h) \<Rightarrow> (Some (wrap (Some c)), h))"

definition KMPIssuer_DeepCopyObject :: "'x externals \<Rightarrow> 'x issuer_resource_object option \<Rightarrow> 'x cell heap \<Rightarrow> 'x runtime_object option \<times> 'x cell heap" where
  "KMPIssuer_DeepCopyObject X i h = objectOf RIssuer (KMPIssuer_DeepCopy X i h)"

definition KMPIssuerList_DeepCopyObject :: "'x externals \<Rightarrow> 'x list_object option \<Rightarrow> 'x cell heap \<Rightarrow> 'x runtime_object option \<times> 'x cell heap" where
  "KMPIssuerList_DeepCopyObject X l h = objectOf RIssuerList (KMPIssuerList_DeepCopy X l h)"

definition KMPClusterIssuer_DeepCopyObject :: "'x externals \<Rightarrow> 'x issuer_resource_object option \<Rightarrow> 'x cell heap \<Rightarrow> 'x runtime_object option \<times> 'x cell heap" where
  "KMPClusterIssuer_DeepCopyObject X i h = objectOf RClusterIssuer (KMPClusterIssuer_DeepCopy X i h)"

definition KMPClusterIssuerList_DeepCopyObject :: "'x externals \<Rightarrow> 'x list_object option \<Rightarrow> 'x cell heap \<Rightarrow> 'x runtime_object option \<times> 'x cell heap" where
  "KMPClusterIssuerList_DeepCopyObject X l h = objectOf RClusterIssuerList (KMPClusterIssuerList_DeepCopy X l h)"

definition KMPCertificate_DeepCopyObject :: "'x externals \<Rightarrow> 'x certificate_object option \<Rightarrow> 'x cell heap \<Rightarrow> 'x runtime_object option \<times> 'x cell heap" where
  "KMPCertificate_DeepCopyObject X c h = objectOf RCertificate (KMPCertificate_DeepCopy X c h)"

definition KMPCertificateList_DeepCopyObject :: "'x externals \<Rightarrow> 'x list_object option \<Rightarrow> 'x cell heap \<Rightarrow> 'x runtime_object option \<times> 'x cell heap" where
  "KMPCertificateList_DeepCopyObject X l h = objectOf RCertificateList (KMPCertificateList_DeepCopy X l h)"

text \<open>The call through the interface.\<close>

fun DeepCopyObject :: "'x externals \<Rightarrow> 'x runtime_object \<Rightarrow> 'x cell heap \<Rightarrow> 'x runtime_object option \<times> 'x cell heap" where
  "DeepCopyObject X (RIssuer i) = KMPIssuer_DeepCopyObject X i"
| "DeepCopyObject X (RIssuerList l) = KMPIssuerList_DeepCopyObject X l"
| "DeepCopyObject X (RClusterIssuer i) = KMPClusterIssuer_DeepCopyObject X i"
| "DeepCopyObject X (RClusterIssuerList l) = KMPClusterIssuerList_DeepCopyObject X l"
| "DeepCopyObject X (RCertificate c) = KMPCertificate_DeepCopyObject X c"
| "DeepCopyObject X (RCertificateList l) = KMPCertificateList_DeepCopyObject X l"

section \<open>Values and addresses\<close>

text \<open>Names are read as lists; a nil slice of names has the value of an empty one.\<close>

definition namesAt :: "string list option \<Rightarrow> string list" where
  "namesAt v = (case v of None \<Rightarrow> [] | Some ss \<Rightarrow> ss)"

definition signingOk :: "'x cell heap \<Rightarrow> signing_object \<Rightarrow> bool" where
  "signingOk h s \<longleftrightarrow> pointerOk asInt h (oAgentResponseTimeoutSeconds s) \<and> pointerOk asInt h (oSigningValidityDays s)
     \<and> pointerOk asBool h (oIsIntermediate s)"

definition signingView :: "'x cell heap \<Rightarrow> signing_object \<Rightarrow> SigningSpec" where
  "signingView h s = \<lparr>specSignType = oSignType s, specServerName = oServerName s, specCAName = oCAName s,
     specTemplateName = oTemplateName s, specAgentName = oAgentName s,
     specAgentResponseTimeoutSeconds = pointerView asInt h (oAgentResponseTimeoutSeconds s),
     specRootCertificateCommonName = oRootCertificateCommonName s,
     specRootCertificateSerialNumber = oRootCertificateSerialNumber s,
     specSigningValidityDays = pointerView asInt h (oSigningValidityDays s),
     specIsIntermediate = pointerView asBool h (oIsIntermediate s), specEmail = oEmail s,
     specCSRLookupOperation = oCSRLookupOperation s\<rparr>"

definition signingRefs :: "'x cell heap \<Rightarrow> signing_object \<Rightarrow> nat set" where
  "signingRefs h s = pointerRefs h (oAgentResponseTimeoutSeconds s)
     \<union> (pointerRefs h (oSigningValidityDays s) \<union> pointerRefs h (oIsIntermediate s))"

definition issuerSpecOk :: "'x cell heap \<Rightarrow> issuer_spec_object \<Rightarrow> bool" where
  "issuerSpecOk h s \<longleftrightarrow> signingOk h (oSigning s) \<and> pointerOk asInt h (oRequestTimeout s)"

definition issuerSpecView :: "'x cell heap \<Rightarrow> issuer_spec_object \<Rightarrow> IssuerSpec" where
  "issuerSpecView h s = \<lparr>specURL = oURL s, AuthSecretName = oAuthSecretName s, Signing = signingView h (oSigning s),
     specInsecureSkipTLSVerify = oInsecureSkipTLSVerify s, RequestTimeout = pointerView asInt h (oRequestTimeout s)\<rparr>"

definition issuerSpecRefs :: "'x cell heap \<Rightarrow> issuer_spec_object \<Rightarrow> nat set" where
  "issuerSpecRefs h s = signingRefs h (oSigning s) \<union> pointerRefs h (oRequestTimeout s)"

definition privateKeyView :: "'x cell heap \<Rightarrow> private_key_object \<Rightarrow> PrivateKeySpec" where
  "privateKeyView h k = \<lparr>pkAlgorithm = oAlgorithm k, pkSize = pointerView asInt h (oSize k),
     pkSignatureAlgorithm = oSignatureAlgorithm k, pkStoreType = oStoreType k\<rparr>"

definition specOk :: "'x cell heap \<Rightarrow> spec_object \<Rightarrow> bool" where
  "specOk h s \<longleftrightarrow> sliceOk asStrings (\<lambda>h s. True) h (oDNSNames s) \<and> sliceOk asStrings (\<lambda>h s. True) h (oIPAddresses s)
     \<and> pointerOk asInt h (oSize (oPrivateKey s)) \<and> pointerOk asInt h (oValidityDays s) \<and> pointerOk asInt h (oRenewBefore s)
     \<and> pointerOk asSelector h (oKeyStorePasswordSecretRef s)"

definition specView :: "'x cell heap \<Rightarrow> spec_object \<Rightarrow> KMPCertificateSpec" where
  "specView h s = \<lparr>kcSecretName = oSecretName s, kcIssuerRef = oIssuerRef s, kcCommonName = oCommonName s,
     kcDNSNames = namesAt (sliceView asStrings (\<lambda>h s. s) h (oDNSNames s)),
     kcIPAddresses = namesAt (sliceView asStrings (\<lambda>h s. s) h (oIPAddresses s)),
     kcSubject = oSubject s, kcPrivateKey = privateKeyView h (oPrivateKey s),
     kcValidityDays = pointerView asInt h (oValidityDays s), kcValidityType = oValidityType s,
     kcRenewBefore = pointerView asInt h (oRenewBefore s),
     kcKeyStorePasswordSecretRef = pointerView asSelector h (oKeyStorePasswordSecretRef s)\<rparr>"

definition specRefs :: "'x cell heap \<Rightarrow> spec_object \<Rightarrow> nat set" where
  "specRefs h s = sliceRefs asStrings (\<lambda>h s. {}) h (oDNSNames s) \<union> (sliceRefs asStrings (\<lambda>h s. {}) h (oIPAddresses s)
     \<union> (pointerRefs h (oSize (oPrivateKey s)) \<union> (pointerRefs h (oValidityDays s) \<union> (pointerRefs h (oRenewBefore s)
     \<union> pointerRefs h (oKeyStorePasswordSecretRef s)))))"

section \<open>The copies of the specs\<close>

lemmas copy_defs = copyPair_def Let_def

lemma signing_deepcopy: "deepcopy SigningSpec_DeepCopyInto signingOk signingView signingRefs"
  by (rule deepcopy_struct [OF deepcopy_pair [OF deepcopy_pointer deepcopy_pair [OF deepcopy_pointer deepcopy_pointer]],
      where get = "\<lambda>s. (oAgentResponseTimeoutSeconds s, oSigningValidityDays s, oIsIntermediate s)"
        and put = "\<lambda>(t, v, i) s. s\<lparr>oAgentResponseTimeoutSeconds := t, oSigningValidityDays := v, oIsIntermediate := i\<rparr>"
        and mk = "\<lambda>(t, v, i) s. \<lparr>specSignType = oSignType s, specServerName = oServerName s, specCAName = oCAName s,
          specTemplateName = oTemplateName s, specAgentName = oAgentName s, specAgentResponseTimeoutSeconds = t,
          specRootCertificateCommonName = oRootCertificateCommonName s,
          specRootCertificateSerialNumber = oRootCertificateSerialNumber s, specSigningValidityDays = v,
          specIsIntermediate = i, specEmail = oEmail s, specCSRLookupOperation = oCSRLookupOperation s\<rparr>"])
    (auto simp: SigningSpec_DeepCopyInto_def copy_defs signingOk_def signingView_def signingRefs_def split: prod.splits)

lemma issuerSpec_deepcopy: "deepcopy IssuerSpec_DeepCopyInto issuerSpecOk issuerSpecView issuerSpecRefs"
  by (rule deepcopy_struct [OF deepcopy_pair [OF signing_deepcopy deepcopy_pointer],
      where get = "\<lambda>s. (oSigning s, oRequestTimeout s)" and put = "\<lambda>(g, t) s. s\<lparr>oSigning := g, oRequestTimeout := t\<rparr>"
        and mk = "\<lambda>(g, t) s. \<lparr>specURL = oURL s, AuthSecretName = oAuthSecretName s, Signing = g,
          specInsecureSkipTLSVerify = oInsecureSkipTLSVerify s, RequestTimeout = t\<rparr>"])
    (auto simp: IssuerSpec_DeepCopyInto_def copy_defs issuerSpecOk_def issuerSpecView_def issuerSpecRefs_def split: prod.splits)

lemma privateKey_deepcopy: "deepcopy PrivateKeySpec_DeepCopyInto (\<lambda>h k. pointerOk asInt h (oSize k)) privateKeyView
    (\<lambda>h k. pointerRefs h (oSize k))"
  by (rule deepcopy_struct [OF deepcopy_pointer, where get = oSize and put = "\<lambda>n k. k\<lparr>oSize := n\<rparr>"
        and mk = "\<lambda>n k. \<lparr>pkAlgorithm = oAlgorithm k, pkSize = n, pkSignatureAlgorithm = oSignatureAlgorithm k, pkStoreType = oStoreType k\<rparr>"])
    (auto simp: PrivateKeySpec_DeepCopyInto_def copy_defs privateKeyView_def split: prod.splits)

lemmas deepcopy_strings = deepcopy.deepcopy_slice [OF deepcopy_value, of asStrings CStrings, OF asStrings.simps(1)]

lemma spec_deepcopy: "deepcopy KMPCertificateSpec_DeepCopyInto specOk specView specRefs"
  by (rule deepcopy_struct [OF deepcopy_pair [OF deepcopy_strings deepcopy_pair [OF deepcopy_strings deepcopy_pair
        [OF privateKey_deepcopy deepcopy_pair [OF deepcopy_pointer deepcopy_pair [OF deepcopy_pointer deepcopy_pointer]]]]],
      where get = "\<lambda>s. (oDNSNames s, oIPAddresses s, oPrivateKey s, oValidityDays s, oRenewBefore s, oKeyStorePasswordSecretRef s)"
        and put = "\<lambda>(ds, ips, k, v, r, p) s. s\<lparr>oDNSNames := ds, oIPAddresses := ips, oPrivateKey := k, oValidityDays := v,
          oRenewBefore := r, oKeyStorePasswordSecretRef := p\<rparr>"
        and mk = "\<lambda>(ds, ips, k, v, r, p) s. \<lparr>kcSecretName = oSecretName s, kcIssuerRef = oIssuerRef s, kcCommonName = oCommonName s,
          kcDNSNames = namesAt ds, kcIPAddresses = namesAt ips, kcSubject = oSubject s, kcPrivateKey = k, kcValidityDays = v,
          kcValidityType = oValidityType s, kcRenewBefore = r, kcKeyStorePasswordSecretRef = p\<rparr>"])
    (auto simp: KMPCertificateSpec_DeepCopyInto_def copyStrings_def copy_defs specOk_def specView_def specRefs_def split: prod.splits)

interpretation signing_copy: deepcopy SigningSpec_DeepCopyInto signingOk signingView signingRefs
  by (rule signing_deepcopy)

interpretation issuer_spec_copy: deepcopy IssuerSpec_DeepCopyInto issuerSpecOk issuerSpecView issuerSpecRefs
  by (rule issuerSpec_deepcopy)

interpretation spec_copy: deepcopy KMPCertificateSpec_DeepCopyInto specOk specView specRefs
  by (rule spec_deepcopy)

section \<open>The copies of the resources and lists\<close>

text \<open>
  What is documented of the copies the sources call: each is a deep copy of its type, for the same
  notions of validity, value and addresses of \<open>'x\<close>.
\<close>

definition externals_ok :: "'x externals \<Rightarrow> ('x cell heap \<Rightarrow> 'x \<Rightarrow> bool) \<Rightarrow> ('x cell heap \<Rightarrow> 'x \<Rightarrow> 'w)
    \<Rightarrow> ('x cell heap \<Rightarrow> 'x \<Rightarrow> nat set) \<Rightarrow> bool" where
  "externals_ok X ok view refs \<longleftrightarrow> deepcopy (ObjectMeta_DeepCopyInto X) ok view refs
     \<and> deepcopy (ListMeta_DeepCopyInto X) ok view refs \<and> deepcopy (IssuerStatus_DeepCopyInto X) ok view refs"

definition issuerOk :: "('x cell heap \<Rightarrow> 'x \<Rightarrow> bool) \<Rightarrow> 'x cell heap \<Rightarrow> 'x issuer_resource_object \<Rightarrow> bool" where
  "issuerOk ok h i \<longleftrightarrow> ok h (oIssuerObjectMeta i) \<and> issuerSpecOk h (oIssuerSpec i) \<and> ok h (oIssuerStatus i)"

type_synonym 'w issuer_value = "TypeMeta \<times> 'w \<times> IssuerSpec \<times> 'w"

definition issuerView :: "('x cell heap \<Rightarrow> 'x \<Rightarrow> 'w) \<Rightarrow> 'x cell heap \<Rightarrow> 'x issuer_resource_object \<Rightarrow> 'w issuer_value" where
  "issuerView view h i = (oIssuerTypeMeta i, view h (oIssuerObjectMeta i), issuerSpecView h (oIssuerSpec i), view h (oIssuerStatus i))"

definition issuerRefs :: "('x cell heap \<Rightarrow> 'x \<Rightarrow> nat set) \<Rightarrow> 'x cell heap \<Rightarrow> 'x issuer_resource_object \<Rightarrow> nat set" where
  "issuerRefs refs h i = refs h (oIssuerObjectMeta i) \<union> (issuerSpecRefs h (oIssuerSpec i) \<union> refs h (oIssuerStatus i))"

lemma clusterIssuer_same: "KMPClusterIssuer_DeepCopyInto X = KMPIssuer_DeepCopyInto X"
  by (simp add: fun_eq_iff KMPClusterIssuer_DeepCopyInto_def KMPIssuer_DeepCopyInto_def)

lemma issuer_deepcopy:
  assumes "externals_ok X ok view refs"
  shows "deepcopy (KMPIssuer_DeepCopyInto X) (issuerOk ok) (issuerView view) (issuerRefs refs)"
proof -
  have m: "deepcopy (ObjectMeta_DeepCopyInto X) ok view refs" "deepcopy (IssuerStatus_DeepCopyInto X) ok view refs"
    using assms by (simp_all add: externals_ok_def)
  show ?thesis
    by (rule deepcopy_struct [OF deepcopy_pair [OF m(1) deepcopy_pair [OF issuerSpec_deepcopy m(2)]],
        where get = "\<lambda>i. (oIssuerObjectMeta i, oIssuerSpec i, oIssuerStatus i)"
          and put = "\<lambda>(m, s, t) i. i\<lparr>oIssuerObjectMeta := m, oIssuerSpec := s, oIssuerStatus := t\<rparr>"
          and mk = "\<lambda>v i. (oIssuerTypeMeta i, v)"])
      (auto simp: KMPIssuer_DeepCopyInto_def copy_defs issuerOk_def issuerView_def issuerRefs_def split: prod.splits)
qed

definition certificateOk :: "('x cell heap \<Rightarrow> 'x \<Rightarrow> bool) \<Rightarrow> 'x cell heap \<Rightarrow> 'x certificate_object \<Rightarrow> bool" where
  "certificateOk ok h c \<longleftrightarrow> ok h (oObjectMeta c) \<and> specOk h (oSpec c) \<and> statusOk h (oStatus c)"

type_synonym 'w certificate_value = "TypeMeta \<times> 'w \<times> KMPCertificateSpec \<times> KMPCertificateStatus"

definition certificateView :: "('x cell heap \<Rightarrow> 'x \<Rightarrow> 'w) \<Rightarrow> 'x cell heap \<Rightarrow> 'x certificate_object \<Rightarrow> 'w certificate_value" where
  "certificateView view h c = (oTypeMeta c, view h (oObjectMeta c), specView h (oSpec c), statusView h (oStatus c))"

definition certificateRefs :: "('x cell heap \<Rightarrow> 'x \<Rightarrow> nat set) \<Rightarrow> 'x cell heap \<Rightarrow> 'x certificate_object \<Rightarrow> nat set" where
  "certificateRefs refs h c = refs h (oObjectMeta c) \<union> (specRefs h (oSpec c) \<union> statusRefs h (oStatus c))"

lemma certificate_deepcopy:
  assumes "externals_ok X ok view refs"
  shows "deepcopy (KMPCertificate_DeepCopyInto X) (certificateOk ok) (certificateView view) (certificateRefs refs)"
proof -
  have m: "deepcopy (ObjectMeta_DeepCopyInto X) ok view refs" using assms by (simp add: externals_ok_def)
  show ?thesis
    by (rule deepcopy_struct [OF deepcopy_pair [OF m deepcopy_pair [OF spec_deepcopy status_deepcopy]],
        where get = "\<lambda>c. (oObjectMeta c, oSpec c, oStatus c)"
          and put = "\<lambda>(m, s, t) c. c\<lparr>oObjectMeta := m, oSpec := s, oStatus := t\<rparr>" and mk = "\<lambda>v c. (oTypeMeta c, v)"])
      (auto simp: KMPCertificate_DeepCopyInto_def copy_defs certificateOk_def certificateView_def certificateRefs_def
        split: prod.splits)
qed

text \<open>The three lists have the same shape.\<close>

definition listOk :: "('x cell heap \<Rightarrow> 'x \<Rightarrow> bool) \<Rightarrow> ('x cell heap \<Rightarrow> slice \<Rightarrow> bool) \<Rightarrow> 'x cell heap \<Rightarrow> 'x list_object \<Rightarrow> bool" where
  "listOk ok itemsOk h l \<longleftrightarrow> ok h (oListMeta l) \<and> itemsOk h (oItems l)"

definition listView :: "('x cell heap \<Rightarrow> 'x \<Rightarrow> 'w) \<Rightarrow> ('x cell heap \<Rightarrow> slice \<Rightarrow> 'v) \<Rightarrow> 'x cell heap \<Rightarrow> 'x list_object
    \<Rightarrow> TypeMeta \<times> 'w \<times> 'v" where
  "listView view itemsView h l = (oListTypeMeta l, view h (oListMeta l), itemsView h (oItems l))"

definition listRefs :: "('x cell heap \<Rightarrow> 'x \<Rightarrow> nat set) \<Rightarrow> ('x cell heap \<Rightarrow> slice \<Rightarrow> nat set) \<Rightarrow> 'x cell heap \<Rightarrow> 'x list_object \<Rightarrow> nat set" where
  "listRefs refs itemsRefs h l = refs h (oListMeta l) \<union> itemsRefs h (oItems l)"

lemma list_deepcopy:
  assumes "externals_ok X ok view refs" and "deepcopy items itemsOk itemsView itemsRefs"
    and "\<And>l h. into l h = (let (m, h) = ListMeta_DeepCopyInto X (oListMeta l) h; (is, h) = items (oItems l) h
       in (l\<lparr>oListMeta := m, oItems := is\<rparr>, h))"
  shows "deepcopy into (listOk ok itemsOk) (listView view itemsView) (listRefs refs itemsRefs)"
proof -
  have m: "deepcopy (ListMeta_DeepCopyInto X) ok view refs" using assms(1) by (simp add: externals_ok_def)
  show ?thesis
    by (rule deepcopy_struct [OF deepcopy_pair [OF m assms(2)], where get = "\<lambda>l. (oListMeta l, oItems l)"
          and put = "\<lambda>(m, is) l. l\<lparr>oListMeta := m, oItems := is\<rparr>" and mk = "\<lambda>v l. (oListTypeMeta l, v)"])
      (auto simp: assms(3) copy_defs listOk_def listView_def listRefs_def split: prod.splits)
qed

lemma issuerList_deepcopy:
  assumes "externals_ok X ok view refs"
  shows "deepcopy (KMPIssuerList_DeepCopyInto X) (listOk ok (sliceOk asIssuers (issuerOk ok)))
    (listView view (sliceView asIssuers (issuerView view))) (listRefs refs (sliceRefs asIssuers (issuerRefs refs)))"
  by (rule list_deepcopy [OF assms deepcopy.deepcopy_slice [OF issuer_deepcopy [OF assms] asIssuers.simps(1)]])
    (simp add: KMPIssuerList_DeepCopyInto_def Let_def split: prod.splits)

lemma clusterIssuerList_same: "KMPClusterIssuerList_DeepCopyInto X = KMPIssuerList_DeepCopyInto X"
  by (simp add: fun_eq_iff KMPClusterIssuerList_DeepCopyInto_def KMPIssuerList_DeepCopyInto_def clusterIssuer_same)

lemma certificateList_deepcopy:
  assumes "externals_ok X ok view refs"
  shows "deepcopy (KMPCertificateList_DeepCopyInto X) (listOk ok (sliceOk asCertificates (certificateOk ok)))
    (listView view (sliceView asCertificates (certificateView view)))
    (listRefs refs (sliceRefs asCertificates (certificateRefs refs)))"
  by (rule list_deepcopy [OF assms deepcopy.deepcopy_slice [OF certificate_deepcopy [OF assms] asCertificates.simps(1)]])
    (simp add: KMPCertificateList_DeepCopyInto_def Let_def split: prod.splits)

section \<open>Copies through the interface\<close>

datatype 'w resource_value =
    VIssuer "'w issuer_value"
  | VIssuerList "TypeMeta \<times> 'w \<times> 'w issuer_value list option"
  | VClusterIssuer "'w issuer_value"
  | VClusterIssuerList "TypeMeta \<times> 'w \<times> 'w issuer_value list option"
  | VCertificate "'w certificate_value"
  | VCertificateList "TypeMeta \<times> 'w \<times> 'w certificate_value list option"

text \<open>Valid pointers, and the value of what they point to, \<^const>\<open>None\<close> for a nil pointer.\<close>

fun objectOk :: "('x cell heap \<Rightarrow> 'x \<Rightarrow> bool) \<Rightarrow> 'x cell heap \<Rightarrow> 'x runtime_object \<Rightarrow> bool" where
  "objectOk ok h (RIssuer i) = pred_option (issuerOk ok h) i"
| "objectOk ok h (RIssuerList l) = pred_option (listOk ok (sliceOk asIssuers (issuerOk ok)) h) l"
| "objectOk ok h (RClusterIssuer i) = pred_option (issuerOk ok h) i"
| "objectOk ok h (RClusterIssuerList l) = pred_option (listOk ok (sliceOk asIssuers (issuerOk ok)) h) l"
| "objectOk ok h (RCertificate c) = pred_option (certificateOk ok h) c"
| "objectOk ok h (RCertificateList l) = pred_option (listOk ok (sliceOk asCertificates (certificateOk ok)) h) l"

fun objectView :: "('x cell heap \<Rightarrow> 'x \<Rightarrow> 'w) \<Rightarrow> 'x cell heap \<Rightarrow> 'x runtime_object \<Rightarrow> 'w resource_value option" where
  "objectView view h (RIssuer i) = map_option (\<lambda>i. VIssuer (issuerView view h i)) i"
| "objectView view h (RIssuerList l) =
     map_option (\<lambda>l. VIssuerList (listView view (sliceView asIssuers (issuerView view)) h l)) l"
| "objectView view h (RClusterIssuer i) = map_option (\<lambda>i. VClusterIssuer (issuerView view h i)) i"
| "objectView view h (RClusterIssuerList l) =
     map_option (\<lambda>l. VClusterIssuerList (listView view (sliceView asIssuers (issuerView view)) h l)) l"
| "objectView view h (RCertificate c) = map_option (\<lambda>c. VCertificate (certificateView view h c)) c"
| "objectView view h (RCertificateList l) =
     map_option (\<lambda>l. VCertificateList (listView view (sliceView asCertificates (certificateView view)) h l)) l"

text \<open>
  The result of \<^verbatim>\<open>DeepCopyObject\<close> for a value \<open>v\<close>: nil for a nil pointer; otherwise a copy with
  that value, which keeps it whatever happens to the memory that was in use, while the original
  keeps it whatever happens to the memory in use since.
\<close>

definition separate_copy :: "('x cell heap \<Rightarrow> 'x runtime_object \<Rightarrow> 'v option) \<Rightarrow> 'x runtime_object \<Rightarrow> 'x cell heap
    \<Rightarrow> 'x runtime_object option \<times> 'x cell heap \<Rightarrow> bool" where
  "separate_copy value x h r \<longleftrightarrow> (case value h x of
     None \<Rightarrow> r = (None, h)
   | Some v \<Rightarrow> (\<exists>y. fst r = Some y
       \<and> (\<forall>h'. agree {fresh h..} (snd r) h' \<longrightarrow> value h' y = Some v)
       \<and> (\<forall>h'. agree {..<fresh h} (snd r) h' \<longrightarrow> value h' x = Some v)))"

lemma objectOf_separate:
  assumes "deepcopy into ok' view' refs'" and "heap_ok h" and "pred_option (ok' h) p"
    and "\<And>h q. value h (wrap q) = map_option (\<lambda>x. con (view' h x)) q"
  shows "separate_copy value (wrap p) h (objectOf wrap (newCopy into p h))"
proof (cases p)
  case (Some x)
  obtain y h' where y: "into x h = (y, h')" by fastforce
  have "ok' h x" using assms(3) by (simp add: Some)
  note s = deepcopy.separate [OF assms(1,2) this y]
  then show ?thesis by (simp add: separate_copy_def assms(4) Some newCopy_def objectOf_def y)
qed (simp add: separate_copy_def assms(4) newCopy_def objectOf_def)

lemmas object_defs =
  KMPIssuer_DeepCopyObject_def KMPIssuer_DeepCopy_def KMPIssuerList_DeepCopyObject_def KMPIssuerList_DeepCopy_def
  KMPClusterIssuer_DeepCopyObject_def KMPClusterIssuer_DeepCopy_def clusterIssuer_same
  KMPClusterIssuerList_DeepCopyObject_def KMPClusterIssuerList_DeepCopy_def clusterIssuerList_same
  KMPCertificate_DeepCopyObject_def KMPCertificate_DeepCopy_def KMPCertificateList_DeepCopyObject_def KMPCertificateList_DeepCopy_def

text \<open>
  C19. The copy of any resource or list is separate from it: \<^verbatim>\<open>DeepCopyObject\<close> returns the nil interface
  for a nil pointer, and otherwise a copy of the same kind and value, such that no write to memory
  that was in use before changes the copy and no write to memory in use since changes the original.
\<close>

theorem DeepCopyObject_separate:
  assumes "externals_ok X ok view refs" and "heap_ok h" and "objectOk ok h x"
  shows "separate_copy (objectView view) x h (DeepCopyObject X x h)"
proof (cases x)
  case (RIssuer i)
  with assms show ?thesis by (auto simp: object_defs intro!: objectOf_separate issuer_deepcopy)
next
  case (RIssuerList l)
  with assms show ?thesis by (auto simp: object_defs intro!: objectOf_separate issuerList_deepcopy)
next
  case (RClusterIssuer i)
  with assms show ?thesis by (auto simp: object_defs intro!: objectOf_separate issuer_deepcopy)
next
  case (RClusterIssuerList l)
  with assms show ?thesis by (auto simp: object_defs intro!: objectOf_separate issuerList_deepcopy)
next
  case (RCertificate c)
  with assms show ?thesis by (auto simp: object_defs intro!: objectOf_separate certificate_deepcopy)
next
  case (RCertificateList l)
  with assms show ?thesis by (auto simp: object_defs intro!: objectOf_separate certificateList_deepcopy)
qed

text \<open>Metadata with a name and a pointer to labels.\<close>

type_synonym demo_meta = "string \<times> pointer"

definition demo_copy :: "demo_meta \<Rightarrow> demo_meta cell heap \<Rightarrow> demo_meta \<times> demo_meta cell heap" where
  "demo_copy m h = (case copyPointer (snd m) h of (p, h') \<Rightarrow> ((fst m, p), h'))"

definition demo_externals :: "demo_meta externals" where
  "demo_externals = \<lparr>ObjectMeta_DeepCopyInto = demo_copy, ListMeta_DeepCopyInto = demo_copy, IssuerStatus_DeepCopyInto = demo_copy\<rparr>"

lemma demo_externals_ok: "externals_ok demo_externals (\<lambda>h m. pointerOk asStrings h (snd m))
    (\<lambda>h m. (fst m, pointerView asStrings h (snd m))) (\<lambda>h m. pointerRefs h (snd m))"
proof -
  have "deepcopy demo_copy (\<lambda>h m. pointerOk asStrings h (snd m)) (\<lambda>h m. (fst m, pointerView asStrings h (snd m)))
      (\<lambda>h m. pointerRefs h (snd m))"
    by (rule deepcopy_struct [OF deepcopy_pointer, where get = snd and put = "\<lambda>p m. (fst m, p)" and mk = "\<lambda>v m. (fst m, v)"])
      (simp_all add: demo_copy_def)
  then show ?thesis by (simp add: externals_ok_def demo_externals_def)
qed

definition demo_certificate_object :: "demo_meta certificate_object" where
  "demo_certificate_object = \<lparr>oTypeMeta = \<lparr>Kind = ''KMPCertificate'', APIVersion = ''kmp.cert-manager.io/v1alpha1''\<rparr>,
     oObjectMeta = (''web'', Some 0),
     oSpec = \<lparr>oSecretName = ''web-tls'', oIssuerRef = \<lparr>refName = ''kmp'', refKind = ''KMPIssuer''\<rparr>, oCommonName = ''a.example'',
       oDNSNames = Some (1, 1), oIPAddresses = None,
       oSubject = \<lparr>subjOrganization = [], subjOrganizationalUnit = [], subjLocality = [], subjProvince = [], subjCountry = []\<rparr>,
       oPrivateKey = \<lparr>oAlgorithm = ''RSA'', oSize = Some 2, oSignatureAlgorithm = ''SHA256'', oStoreType = ''PKCS12''\<rparr>,
       oValidityDays = None, oValidityType = [], oRenewBefore = None, oKeyStorePasswordSecretRef = Some 3\<rparr>,
     oStatus = \<lparr>oConditions = None, oSerialNumber = [], oCSRID = [], oNotBefore = None, oNotAfter = None, oRenewalTime = None\<rparr>\<rparr>"

definition demo_api_heap :: "demo_meta cell heap" where
  "demo_api_heap = \<lparr>store = [0 \<mapsto> CStrings [''team=web''], 1 \<mapsto> CStrings [''a.example'', ''spare''], 2 \<mapsto> CInt 2048,
     3 \<mapsto> CSelector \<lparr>selName = ''pw'', selKey = []\<rparr>, 4 \<mapsto> CCertificates [demo_certificate_object]], fresh = 5\<rparr>"

definition demo_resource :: "demo_meta runtime_object" where
  "demo_resource = RCertificateList (Some \<lparr>oListTypeMeta = \<lparr>Kind = ''KMPCertificateList'', APIVersion = ''kmp.cert-manager.io/v1alpha1''\<rparr>,
     oListMeta = (''list'', None), oItems = Some (4, 1)\<rparr>)"

lemma demo_objectOk: "heap_ok demo_api_heap" "objectOk (\<lambda>h m. pointerOk asStrings h (snd m)) demo_api_heap demo_resource"
  by (auto simp: heap_ok_def demo_api_heap_def)
    (simp add: demo_resource_def demo_api_heap_def listOk_def sliceOk_def elements_def readCell_def pointerOk_def
      certificateOk_def specOk_def statusOk_def conditionsOk_def demo_certificate_object_def)

theorem DeepCopyObject_separate_witness:
  "separate_copy (objectView (\<lambda>h m. (fst m, pointerView asStrings h (snd m)))) demo_resource demo_api_heap
     (DeepCopyObject demo_externals demo_resource demo_api_heap)
   \<and> objectView (\<lambda>h m. (fst m, pointerView asStrings h (snd m))) demo_api_heap demo_resource \<noteq> None"
  using DeepCopyObject_separate [OF demo_externals_ok demo_objectOk] by (simp add: demo_resource_def)

end
