(* ===== verification/Manager.thy ===== *)
theory Manager
  imports Registration DeepCopies
begin

text \<open>
  \<^verbatim>\<open>cmd/main.go\<close>: the flags, the namespace in which cluster scoped issuers keep their credentials,
  the options of the metrics and webhook servers, and the order in which the manager is set up.
  The two controllers \<^verbatim>\<open>main\<close> registers are \<^const>\<open>mainIssuer\<close> and \<^const>\<open>mainReconciler\<close>, each with its own
  copy of the namespace; they are part of the steps of the set-up. The manager itself, the certificate
  watchers and the servers are controller-runtime's; whether one of their constructors fails is an argument. A missing kubeconfig
  ends the process inside controller-runtime and is not seen here.
\<close>

section \<open>The namespace\<close>

definition inClusterNamespacePath :: string where
  "inClusterNamespacePath = ''/var/run/secrets/kubernetes.io/serviceaccount/namespace''"

text \<open>The outcome of \<^verbatim>\<open>os.Stat\<close>.\<close>

datatype stat_result = StatOK | StatNotExist | StatFailed string

text \<open>The error, if any, and the namespace after the call; \<open>stat\<close> and \<open>readFile\<close> are those of package os.\<close>

definition getInClusterNamespace :: "(string \<Rightarrow> stat_result) \<Rightarrow> (string \<Rightarrow> string + bytes) \<Rightarrow> string \<Rightarrow> goerr option \<times> string" where
  "getInClusterNamespace stat readFile clusterResourceNamespace =
     (if clusterResourceNamespace \<noteq> [] then (None, clusterResourceNamespace)
      else case stat inClusterNamespacePath of
        StatNotExist \<Rightarrow> (Some ErrNotInCluster, clusterResourceNamespace)
      | StatFailed e \<Rightarrow> (Some (Wrapf (''error checking namespace file: '' @ e) [ErrText e]), clusterResourceNamespace)
      | StatOK \<Rightarrow> (case readFile inClusterNamespacePath of
          Inl e \<Rightarrow> (Some (Wrapf (''error reading namespace file: '' @ e) [ErrText e]), clusterResourceNamespace)
        | Inr namespace \<Rightarrow> (None, namespace)))"

text \<open>
  A flag always wins, the message that asks for the flag is given exactly when it is missing and
  there is no namespace file, and a namespace is only made up from the file.
\<close>

lemma getInClusterNamespace_outcome:
  "getInClusterNamespace stat readFile ns = (err, ns') \<Longrightarrow>
     (ns \<noteq> [] \<longrightarrow> err = None \<and> ns' = ns)
     \<and> ((\<exists>e. err = Some e \<and> errIs e ErrNotInCluster) \<longleftrightarrow> ns = [] \<and> stat inClusterNamespacePath = StatNotExist)
     \<and> (ns = [] \<and> err = None \<longrightarrow> readFile inClusterNamespacePath = Inr ns')"
  by (auto simp: getInClusterNamespace_def split: if_splits stat_result.splits sum.splits)

section \<open>Flags\<close>

record flags =
  fClusterResourceNamespace :: string
  fPrintVersion :: bool
  fMetricsAddr :: string
  fMetricsCertPath :: string
  fMetricsCertName :: string
  fMetricsCertKey :: string
  fWebhookCertPath :: string
  fWebhookCertName :: string
  fWebhookCertKey :: string
  fEnableLeaderElection :: bool
  fProbeAddr :: string
  fSecureMetrics :: bool
  fEnableHTTP2 :: bool

definition defaultFlags :: flags where
  "defaultFlags = \<lparr>fClusterResourceNamespace = [], fPrintVersion = False, fMetricsAddr = ''0'',
     fMetricsCertPath = [], fMetricsCertName = ''tls.crt'', fMetricsCertKey = ''tls.key'',
     fWebhookCertPath = [], fWebhookCertName = ''tls.crt'', fWebhookCertKey = ''tls.key'',
     fEnableLeaderElection = False, fProbeAddr = '':8081'', fSecureMetrics = True, fEnableHTTP2 = False\<rparr>"

section \<open>The servers\<close>

text \<open>A \<^verbatim>\<open>func(*tls.Config)\<close>, one of the two made here, and its effect on a configuration.\<close>

datatype tls_opt = DisableHTTP2 | ServeCertificate string string

record tls_server =
  NextProtos :: "string list"
  GetCertificateFrom :: "(string \<times> string) option"

fun applyTLSOpt :: "tls_opt \<Rightarrow> tls_server \<Rightarrow> tls_server" where
  "applyTLSOpt DisableHTTP2 c = c\<lparr>NextProtos := [''http/1.1'']\<rparr>"
| "applyTLSOpt (ServeCertificate cert key) c = c\<lparr>GetCertificateFrom := Some (cert, key)\<rparr>"

definition tlsOpts :: "flags \<Rightarrow> tls_opt list" where
  "tlsOpts f = (if \<not> fEnableHTTP2 f then [DisableHTTP2] else [])"

definition webhookTLSOpts :: "flags \<Rightarrow> tls_opt list" where
  "webhookTLSOpts f = tlsOpts f
     @ (if 0 < length (fWebhookCertPath f)
        then [ServeCertificate (pathJoin [fWebhookCertPath f, fWebhookCertName f])
                (pathJoin [fWebhookCertPath f, fWebhookCertKey f])] else [])"

record metrics_options =
  BindAddress :: string
  SecureServing :: bool
  TLSOpts :: "tls_opt list"
  AuthFilter :: bool

definition metricsServerOptions :: "flags \<Rightarrow> metrics_options" where
  "metricsServerOptions f =
     (let o' = \<lparr>BindAddress = fMetricsAddr f, SecureServing = fSecureMetrics f, TLSOpts = tlsOpts f, AuthFilter = False\<rparr>;
          o' = (if fSecureMetrics f then o'\<lparr>AuthFilter := True\<rparr> else o')
      in if 0 < length (fMetricsCertPath f)
         then o'\<lparr>TLSOpts := TLSOpts o' @ [ServeCertificate (pathJoin [fMetricsCertPath f, fMetricsCertName f])
                (pathJoin [fMetricsCertPath f, fMetricsCertKey f])]\<rparr>
         else o')"

record manager_options =
  Metrics :: metrics_options
  WebhookTLSOpts :: "tls_opt list"
  HealthProbeBindAddress :: string
  LeaderElection :: bool
  LeaderElectionID :: string
  LeaderElectionReleaseOnCancel :: bool

definition managerOptions :: "flags \<Rightarrow> manager_options" where
  "managerOptions f = \<lparr>Metrics = metricsServerOptions f, WebhookTLSOpts = webhookTLSOpts f,
     HealthProbeBindAddress = fProbeAddr f, LeaderElection = fEnableLeaderElection f,
     LeaderElectionID = ''kmp-issuer.kmp.cert-manager.io'', LeaderElectionReleaseOnCancel = True\<rparr>"

section \<open>Starting\<close>

text \<open>The calls that may fail once the options are known, in the order of \<^verbatim>\<open>main\<close>.\<close>

datatype 'w setup_step =
    NewManager | SetupIssuer "'w IssuerController" | SetupKMPCertificate "'w KMPCertificateReconciler" "string option"
  | AddMetricsWatcher | AddWebhookWatcher | AddHealthzCheck | AddReadyzCheck | StartManager

definition setupSteps :: "('w, 'r) env_scheme \<Rightarrow> string \<Rightarrow> flags \<Rightarrow> 'w setup_step list" where
  "setupSteps E ns f = [NewManager, SetupIssuer (mainIssuer E ns), SetupKMPCertificate (mainReconciler E ns) (Some ''kmpcertificate'')]
     @ (if 0 < length (fMetricsCertPath f) then [AddMetricsWatcher] else [])
     @ (if 0 < length (fWebhookCertPath f) then [AddWebhookWatcher] else [])
     @ [AddHealthzCheck, AddReadyzCheck, StartManager]"

fun stepFailure :: "'w setup_step \<Rightarrow> string" where
  "stepFailure NewManager = ''unable to start manager''"
| "stepFailure (SetupIssuer _) = ''unable to create Signer controllers''"
| "stepFailure (SetupKMPCertificate _ _) = ''unable to create the KMPCertificate controller''"
| "stepFailure AddMetricsWatcher = ''unable to add metrics certificate watcher to manager''"
| "stepFailure AddWebhookWatcher = ''unable to add webhook certificate watcher to manager''"
| "stepFailure AddHealthzCheck = ''unable to set up health check''"
| "stepFailure AddReadyzCheck = ''unable to set up ready check''"
| "stepFailure StartManager = ''problem running manager''"

text \<open>The steps taken, up to and including the first that fails.\<close>

fun takeSteps :: "('w setup_step \<Rightarrow> bool) \<Rightarrow> 'w setup_step list \<Rightarrow> 'w setup_step list \<times> 'w setup_step option" where
  "takeSteps fails [] = ([], None)"
| "takeSteps fails (s # ss) = (if fails s then ([s], Some s) else (let (taken, r) = takeSteps fails ss in (s # taken, r)))"

text \<open>
  How the process ends: with status 0 or 1 and the message of the last log line, or, once a manager
  was made, with its options, the steps taken and the one that failed, if any.
\<close>

datatype 'w main_outcome =
    Ended
  | Exited string
  | Launched manager_options "'w setup_step list" "'w setup_step option"

definition main :: "('w, 'r) env_scheme \<Rightarrow> (string \<Rightarrow> stat_result) \<Rightarrow> (string \<Rightarrow> string + bytes) \<Rightarrow> (string \<Rightarrow> string \<Rightarrow> string option)
    \<Rightarrow> ('w setup_step \<Rightarrow> bool) \<Rightarrow> flags \<Rightarrow> 'w main_outcome" where
  "main E stat readFile newWatcher fails f =
     (if fPrintVersion f then Ended
      else case getInClusterNamespace stat readFile (fClusterResourceNamespace f) of
        (Some err, _) \<Rightarrow> Exited (if errIs err ErrNotInCluster then ''please supply --cluster-resource-namespace''
                               else ''unexpected error while getting in-cluster Namespace'')
      | (None, ns) \<Rightarrow>
        if 0 < length (fWebhookCertPath f)
           \<and> newWatcher (pathJoin [fWebhookCertPath f, fWebhookCertName f]) (pathJoin [fWebhookCertPath f, fWebhookCertKey f]) \<noteq> None
        then Exited ''Failed to initialize webhook certificate watcher''
        else if 0 < length (fMetricsCertPath f)
           \<and> newWatcher (pathJoin [fMetricsCertPath f, fMetricsCertName f]) (pathJoin [fMetricsCertPath f, fMetricsCertKey f]) \<noteq> None
        then Exited ''to initialize metrics certificate watcher''
        else case takeSteps fails (setupSteps E ns f) of (taken, failed) \<Rightarrow> Launched (managerOptions f) taken failed)"

section \<open>Properties\<close>

definition tlsServer :: "tls_opt list \<Rightarrow> tls_server" where
  "tlsServer os = fold applyTLSOpt os \<lparr>NextProtos = [], GetCertificateFrom = None\<rparr>"

lemma takeSteps_spec:
  "takeSteps fails ss = (taken, failed) \<Longrightarrow> prefix taken ss
     \<and> (case failed of None \<Rightarrow> taken = ss \<and> (\<forall>s \<in> set ss. \<not> fails s)
        | Some s \<Rightarrow> fails s \<and> taken \<noteq> [] \<and> last taken = s \<and> (\<forall>t \<in> set (butlast taken). \<not> fails t))"
  by (induction ss arbitrary: taken failed) (auto split: if_splits prod.splits option.splits)

lemma metrics_server:
  "tlsServer (TLSOpts (metricsServerOptions f)) =
     \<lparr>NextProtos = (if fEnableHTTP2 f then [] else [''http/1.1'']),
      GetCertificateFrom = (if fMetricsCertPath f = [] then None
        else Some (pathJoin [fMetricsCertPath f, fMetricsCertName f], pathJoin [fMetricsCertPath f, fMetricsCertKey f]))\<rparr>"
  by (simp add: metricsServerOptions_def tlsServer_def tlsOpts_def Let_def)

lemma webhook_server:
  "tlsServer (webhookTLSOpts f) =
     \<lparr>NextProtos = (if fEnableHTTP2 f then [] else [''http/1.1'']),
      GetCertificateFrom = (if fWebhookCertPath f = [] then None
        else Some (pathJoin [fWebhookCertPath f, fWebhookCertName f], pathJoin [fWebhookCertPath f, fWebhookCertKey f]))\<rparr>"
  by (simp add: webhookTLSOpts_def tlsServer_def tlsOpts_def)

lemma metrics_filter:
  "AuthFilter (metricsServerOptions f) = fSecureMetrics f" "SecureServing (metricsServerOptions f) = fSecureMetrics f"
  by (simp_all add: metricsServerOptions_def Let_def)

text \<open>The controllers the taken steps register with a manager whose client is \<open>K\<close>.\<close>

fun registers :: "('w, 'r) env_scheme \<Rightarrow> ('w, 'k) manager_scheme \<Rightarrow> 'w setup_step \<Rightarrow> 'w controller list" where
  "registers E K (SetupIssuer i) = [Combined (combinedController E K i)]"
| "registers E K (SetupKMPCertificate r recorder) = [Managed (managedController E K r recorder)]"
| "registers E K _ = []"

definition registered :: "('w, 'r) env_scheme \<Rightarrow> ('w, 'k) manager_scheme \<Rightarrow> 'w setup_step list \<Rightarrow> 'w controller list" where
  "registered E K steps = concat (map (registers E K) steps)"

lemma main_Launched:
  assumes "main E stat readFile newWatcher fails f = Launched mo taken failed"
  obtains ns where "mo = managerOptions f" and "takeSteps fails (setupSteps E ns f) = (taken, failed)"
    and "getInClusterNamespace stat readFile (fClusterResourceNamespace f) = (None, ns)"
proof -
  obtain e n where n: "getInClusterNamespace stat readFile (fClusterResourceNamespace f) = (e, n)" by fastforce
  with assms have "e = None" by (auto simp: main_def split: option.splits if_splits)
  with assms n show thesis by (intro that) (auto simp: main_def split: if_splits prod.splits)
qed

text \<open>The manager is started last: when it is, every step was taken.\<close>

lemma start_last:
  assumes "takeSteps fails (setupSteps E ns f) = (taken, failed)" and "StartManager \<in> set taken"
  shows "taken = setupSteps E ns f"
proof -
  have *: "StartManager \<notin> set ss \<Longrightarrow> takeSteps fails (ss @ [StartManager]) = (taken, failed)
      \<Longrightarrow> StartManager \<in> set taken \<Longrightarrow> taken = ss @ [StartManager]" for ss
    by (induction ss arbitrary: taken) (auto split: if_splits prod.splits)
  define ss where "ss = butlast (setupSteps E ns f)"
  have "setupSteps E ns f = ss @ [StartManager]" "StartManager \<notin> set ss" by (simp_all add: ss_def setupSteps_def)
  with * [of ss] assms show ?thesis by simp
qed

text \<open>
  C40. A manager is only made with the servers hardened as the flags say: HTTP/2 is off on both
  servers unless it was enabled, the metrics endpoint checks its callers exactly when it is
  served securely, and each server serves the certificate of its own flags or none. The namespace
  of the cluster scoped issuers is that of the flag or else the content of the namespace file, and
  both controllers have it. The steps are taken in their order up to the first failure: the
  manager, the issuer controller, the KMPCertificate controller, the certificate watchers that are
  configured, the two probes; and the manager is started only when all of them succeeded, with both
  controllers registered and no other.
\<close>

theorem main_launch:
  fixes E :: "('w, 'r) env_scheme" and K :: "('w, 'k) manager_scheme"
  shows "case main E stat readFile newWatcher fails f of
     Ended \<Rightarrow> fPrintVersion f
   | Exited _ \<Rightarrow> fst (getInClusterNamespace stat readFile (fClusterResourceNamespace f)) \<noteq> None
       \<or> (\<exists>cert key. newWatcher cert key \<noteq> None)
   | Launched mo taken failed \<Rightarrow>
       NextProtos (tlsServer (TLSOpts (Metrics mo))) = (if fEnableHTTP2 f then [] else [''http/1.1''])
       \<and> NextProtos (tlsServer (WebhookTLSOpts mo)) = (if fEnableHTTP2 f then [] else [''http/1.1''])
       \<and> AuthFilter (Metrics mo) = SecureServing (Metrics mo) \<and> SecureServing (Metrics mo) = fSecureMetrics f
       \<and> GetCertificateFrom (tlsServer (TLSOpts (Metrics mo))) = (if fMetricsCertPath f = [] then None
            else Some (pathJoin [fMetricsCertPath f, fMetricsCertName f], pathJoin [fMetricsCertPath f, fMetricsCertKey f]))
       \<and> GetCertificateFrom (tlsServer (WebhookTLSOpts mo)) = (if fWebhookCertPath f = [] then None
            else Some (pathJoin [fWebhookCertPath f, fWebhookCertName f], pathJoin [fWebhookCertPath f, fWebhookCertKey f]))
       \<and> (\<exists>ns i r. (if fClusterResourceNamespace f = [] then readFile inClusterNamespacePath = Inr ns else ns = fClusterResourceNamespace f)
            \<and> ClusterResourceNamespace i = ns \<and> rClusterResourceNamespace r = ns
            \<and> prefix taken ([NewManager, SetupIssuer i, SetupKMPCertificate r (Some ''kmpcertificate'')]
                 @ (if fMetricsCertPath f = [] then [] else [AddMetricsWatcher])
                 @ (if fWebhookCertPath f = [] then [] else [AddWebhookWatcher])
                 @ [AddHealthzCheck, AddReadyzCheck, StartManager])
            \<and> (case failed of None \<Rightarrow> StartManager \<in> set taken \<and> (\<forall>t \<in> set taken. \<not> fails t)
               | Some s \<Rightarrow> fails s \<and> taken \<noteq> [] \<and> last taken = s \<and> (\<forall>t \<in> set (butlast taken). \<not> fails t))
            \<and> (StartManager \<in> set taken \<longrightarrow>
                 registered E K taken = [Combined (combinedController E K i), Managed (managedController E K r (Some ''kmpcertificate''))]
                 \<and> AddHealthzCheck \<in> set taken \<and> AddReadyzCheck \<in> set taken \<and> (\<forall>t \<in> set (butlast taken). \<not> fails t)))"
proof (cases "main E stat readFile newWatcher fails f")
  case Ended
  then show ?thesis by (auto simp: main_def split: if_splits prod.splits option.splits)
next
  case (Exited m)
  then show ?thesis by (auto simp: main_def split: if_splits prod.splits option.splits)
next
  case (Launched mo taken failed)
  then obtain ns where l: "mo = managerOptions f" "takeSteps fails (setupSteps E ns f) = (taken, failed)"
    "getInClusterNamespace stat readFile (fClusterResourceNamespace f) = (None, ns)"
    by (rule main_Launched)
  have m: "Metrics mo = metricsServerOptions f" "WebhookTLSOpts mo = webhookTLSOpts f" by (simp_all add: l(1) managerOptions_def)
  note steps = takeSteps_spec [OF l(2)] and start = start_last [OF l(2)]
  have sure: "\<forall>t \<in> set (butlast taken). \<not> fails t"
    using steps in_set_butlastD by (fastforce split: option.splits)
  have ns: "if fClusterResourceNamespace f = [] then readFile inClusterNamespacePath = Inr ns else ns = fClusterResourceNamespace f"
    using getInClusterNamespace_outcome [OF l(3)] by auto
  have "StartManager \<in> set (setupSteps E ns f)" by (simp add: setupSteps_def)
  then have failed: "case failed of None \<Rightarrow> StartManager \<in> set taken \<and> (\<forall>t \<in> set taken. \<not> fails t)
      | Some s \<Rightarrow> fails s \<and> taken \<noteq> [] \<and> last taken = s \<and> (\<forall>t \<in> set (butlast taken). \<not> fails t)"
    using steps by (auto split: option.splits)
  have pre: "prefix taken ([NewManager, SetupIssuer (mainIssuer E ns), SetupKMPCertificate (mainReconciler E ns) (Some ''kmpcertificate'')]
      @ (if fMetricsCertPath f = [] then [] else [AddMetricsWatcher]) @ (if fWebhookCertPath f = [] then [] else [AddWebhookWatcher])
      @ [AddHealthzCheck, AddReadyzCheck, StartManager])" (is "prefix taken ?steps")
  proof -
    have "?steps = setupSteps E ns f" by (simp add: setupSteps_def)
    with steps show ?thesis by metis
  qed
  have nss: "ClusterResourceNamespace (mainIssuer E ns) = ns" "rClusterResourceNamespace (mainReconciler E ns) = ns"
    by (simp_all add: mainIssuer_def mainReconciler_def)
  show ?thesis
    unfolding Launched main_outcome.case m metrics_server webhook_server
  proof (intro conjI exI [of _ ns] exI [of _ "mainIssuer E ns"] exI [of _ "mainReconciler E ns"] impI)
    assume "StartManager \<in> set taken"
    note all = start [OF this]
    show "registered E K taken = [Combined (combinedController E K (mainIssuer E ns)),
        Managed (managedController E K (mainReconciler E ns) (Some ''kmpcertificate''))]"
      by (simp add: all setupSteps_def registered_def)
    show "AddHealthzCheck \<in> set taken" "AddReadyzCheck \<in> set taken" by (simp_all add: all setupSteps_def)
  qed (insert pre failed sure ns nss, (assumption | simp add: metrics_filter)+)
qed

theorem main_launch_witness:
  "\<exists>mo taken i r. main rec_env (\<lambda>_. StatOK) (\<lambda>_. Inr ''kmp-system'') (\<lambda>_ _. None) (\<lambda>_. False) defaultFlags = Launched mo taken None
     \<and> ClusterResourceNamespace i = ''kmp-system'' \<and> rClusterResourceNamespace r = ''kmp-system''
     \<and> registered rec_env rec_manager taken
         = [Combined (combinedController rec_env rec_manager i), Managed (managedController rec_env rec_manager r (Some ''kmpcertificate''))]"
proof -
  let ?run = "main rec_env (\<lambda>_. StatOK) (\<lambda>_. Inr ''kmp-system'') (\<lambda>_ _. None) (\<lambda>_. False) defaultFlags"
  obtain mo taken where m: "?run = Launched mo taken None"
    by (simp add: main_def getInClusterNamespace_def defaultFlags_def setupSteps_def)
  show ?thesis
    using main_launch [where E = rec_env and stat = "\<lambda>_. StatOK" and readFile = "\<lambda>_. Inr ''kmp-system''"
        and newWatcher = "\<lambda>_ _. None" and fails = "\<lambda>_. False" and f = defaultFlags and K = rec_manager] m
    by (auto simp: defaultFlags_def)
qed

end
