(* ===== verification/Spec2Isabelle.thy ===== *)
theory Spec2Isabelle
  imports Manager
begin

text \<open>
  A verification of kmp-issuer, a cert-manager issuer for ManageEngine Key Manager Plus.

  \<^bold>\<open>The program.\<close> kmp-issuer is a Kubernetes controller manager (\<^verbatim>\<open>cmd/main.go\<close>). For the resources
  KMPIssuer and KMPClusterIssuer it answers issuer-lib's calls: check an issuer, sign a request
  (\<^verbatim>\<open>internal/controllers/signer.go\<close>). For the resource KMPCertificate it runs a reconciler of its own
  that keeps a Secret with a certificate and the key Key Manager Plus generated for it
  (\<^verbatim>\<open>internal/controllers/kmpcertificate_controller.go\<close>). Both build a signer from the issuer's spec and
  the data of its auth Secret (\<^verbatim>\<open>internal/signer/kmp.go\<close>), and the signer drives the REST API of Key
  Manager Plus (\<^verbatim>\<open>internal/kmp\<close>): import or create a CSR, find its id, sign it, poll for the
  certificate, export the key, assemble the chain and check what came back against what was asked
  for.

  \<^bold>\<open>How Go is modelled.\<close> Strings and byte slices are lists of bytes; structs are records; an \<^verbatim>\<open>error\<close> is
  a value of \<open>goerr\<close>, with \<^verbatim>\<open>errors.Is\<close> and \<^verbatim>\<open>errors.As\<close> as functions on it; a function that returns
  \<^verbatim>\<open>(T, error)\<close> is a function into a sum. Code with effects takes and returns the state of the world,
  a type variable. What is not in the repository is a record of functions that every definition
  using it takes as an argument: \<open>unicode_tables\<close>, \<open>go_runtime\<close> (map order, float formatting),
  \<open>crypto_lib\<close> (PEM decoding, DER parsers, signatures), \<open>env\<close> (net/url, HTTP, the clock), \<open>cluster\<close> and
  \<open>manager\<close> (the Kubernetes API, issuer-lib and cert-manager functions, the random source). What a
  theorem needs of them is a named hypothesis: \<open>pem_ok\<close>, \<open>x509_ok\<close>, \<open>pkcs8_ok\<close>, \<open>clock_ok\<close>,
  \<open>range_visits_all\<close>, \<open>secret_store_ok\<close>, \<open>splitter_ok\<close>, \<open>random_ok\<close>, \<open>fold_sym\<close>, \<open>externals_ok\<close>,
  \<open>sent_by\<close>, \<open>manager_quiet\<close>, \<open>scheme_lib_ok\<close>; those of a property have witnesses over
  a scripted server, a demonstration PKI and a store of Secrets.

  \<^bold>\<open>Theories, in the order of their imports.\<close>

  \<^item> \<open>Prelude\<close>: types and lemmas on options, sums and permutations.
  \<^item> \<open>GoStrings\<close>, \<open>GoFloat\<close>, \<open>Json\<close>, \<open>Base64\<close>, \<open>NetIP\<close>: the Go library as far as it is used: strings and
    strconv, float64 arithmetic, encoding/json, encoding/base64 and PEM encoding, net.ParseIP.
  \<^item> \<open>Errors\<close> (\<^verbatim>\<open>errors.go\<close>): error values, their text, \<open>IsPermanent\<close> and \<open>IsAuthFailure\<close>.
  \<^item> \<open>Response\<close> (\<^verbatim>\<open>response.go\<close>): the queries of a decoded response, their functional specifications and
    what they do and do not owe to the order of Go's maps.
  \<^item> \<open>Chain\<close> (\<^verbatim>\<open>chain.go\<close>): reading certificates, choosing the leaf, building the chain.
  \<^item> \<open>Verify\<close> (\<^verbatim>\<open>verify.go\<close>): the check of the names, and the locale \<open>name_check\<close> shared with the
    escrowed-key flow.
  \<^item> \<open>Client\<close>, \<open>ClientSpec\<close> (\<^verbatim>\<open>client.go\<close>, \<^verbatim>\<open>create.go\<close>): the requests and the API operations; the locale
    \<open>api_operation\<close>, interpreted on each of the six operations; the classification of every HTTP exchange.
  \<^item> \<open>Signer\<close>, \<open>SignerSpec\<close> (\<^verbatim>\<open>signer.go\<close>): options, the signing flow, the polling loop and what a
    returned bundle is for.
  \<^item> \<open>PrivateKey\<close>, \<open>Provision\<close> (\<^verbatim>\<open>privatekey.go\<close>, \<^verbatim>\<open>provision.go\<close>): exported keys and the escrowed-key flow.
  \<^item> \<open>Issuer\<close> (\<^verbatim>\<open>api/v1alpha1\<close>, \<^verbatim>\<open>internal/signer/kmp.go\<close>): the issuer resources and the signer built from one.
  \<^item> \<open>Controllers\<close> (\<^verbatim>\<open>internal/controllers/signer.go\<close>): \<^verbatim>\<open>Check\<close> and \<^verbatim>\<open>Sign\<close>, the locale
    \<open>classified_operation\<close> of operations whose failures are classified, a contract every
    \<open>api_operation\<close> fulfils and that is interpreted on \<^verbatim>\<open>Sign\<close> and \<^verbatim>\<open>Provision\<close>; what issuer-lib is told.
  \<^item> \<open>Certificate\<close>: the KMPCertificate resource, conditions, the comparison with the spec, renewal.
  \<^item> \<open>GoHeap\<close>: memory shared through pointers and slices; the locale \<open>deepcopy\<close>, the contract of a deep
    copy, and the copies of pointers, slices and structs that fulfil it.
  \<^item> \<open>StatusHeap\<close>: the resources with their slices and pointers; the generated deep copy of the status and
    the in-place \<^verbatim>\<open>setCondition\<close> implement the functions on values.
  \<^item> \<open>DeepCopies\<close> (\<^verbatim>\<open>zz_generated.deepcopy.go\<close>): the generated deep copies of every type up to
    \<^verbatim>\<open>DeepCopyObject\<close>; \<open>deepcopy\<close> is interpreted on the specs and the status and carried to the resources
    and lists.
  \<^item> \<open>Reconciler\<close>, \<open>ReconcilerSpec\<close>: \<^verbatim>\<open>Reconcile\<close> and all it calls; what is in the Secret after an issuance,
    when one happens, what a failure leads to, and the life of a resource as an inductive relation.
  \<^item> \<open>Requests\<close>: what the server sees. The requests of a signing, a provisioning and a reconciliation walk
    through a state machine, \<open>flow_step\<close>, with one transition per request.
  \<^item> \<open>Registration\<close> (\<^verbatim>\<open>groupversion_info.go\<close>, both \<^verbatim>\<open>SetupWithManager\<close>, the registrations of \<^verbatim>\<open>main.go\<close>): the
    scheme, the two controllers as they are handed over, and the runs of their handlers, \<open>runs\<close>, an
    inductive relation that interleaves any calls of theirs with any other change of the cluster. A handler
    is one step of a run; two handlers at work at the same time are not interleaved request by request.
  \<^item> \<open>Manager\<close> (\<^verbatim>\<open>cmd/main.go\<close>): flags, namespace, server options and the order of the set-up.

  \<^bold>\<open>What is shown.\<close> Safety: a bundle is for the key and names of its request, through every layer up to
  what issuer-lib receives; a provisioned pair matches, through every layer up to the Secret; an
  id found by a lookup belongs to the name looked up. Errors: every failure of every operation is
  classified, and the classification reaches issuer-lib and the reconciler. Termination: polling,
  signing, provisioning and reconciling return when the clock runs. Round trips: the request the
  server decodes, the key read back from its PEM, the certificate found current after it was
  written. Order and number of requests: a request is stored before it is signed, signed at most once
  and fetched and exported only then, and over any run of the handlers the requests that store or
  sign are bounded call by call, to the server of the call's issuer and with the token of the Secret
  it names, as the handler reads them. Invariants and refinement: the status over the life of a resource, the conditions as a
  map, the status on the heap, copies that share no memory. Where the code does something else than it says, a theorem shows
  that, too.

  \<^bold>\<open>Loops and fuel.\<close> The polling loop may not end when the clock stands still; it is a partial function
  into \<open>option\<close>, and \<open>fetchAttempts\<close>, with \<^verbatim>\<open>PollTimeout / PollInterval + 1\<close> attempts, is shown to be enough.
  Reading PEM blocks takes the length of the input plus one as fuel, which is enough since every
  block consumes input. All other loops are structural or have a measure.

  \<^bold>\<open>Not modelled.\<close> TLS, HTTP and DER themselves, and the redirects \<^verbatim>\<open>http.Client\<close> follows inside an exchange; the deadline of a context other than as a failed
  request or wait; logging and the texts of log lines; JSON tags; \<^verbatim>\<open>GetConditions\<close>,
  which only issuer-lib reads; \<^verbatim>\<open>version.go\<close>, a constant; tests, charts and manifests.
\<close>

end
